(* ===== verification/Prelude.thy ===== *)
theory Prelude
  imports Main "HOL-Library.Word"
begin

text \<open>
  Shared vocabulary of the development: the result of running a piece of the C program
  (\<open>halt\<close>: every way in which a call may fail to return), the state-and-halt monad in
  which the components are written, decimal printing (the \<open>%d\<close> of the log messages and the
  reference for the TOML integer reader), and the rewriting collections that the component
  theories extend.
\<close>

section \<open>Ways not to return\<close>

text \<open>
  \<open>Exited n\<close> is \<open>exit(n)\<close>, \<open>Aborted\<close> is \<open>abort()\<close>, \<open>Undefined f\<close> is undefined
  behaviour of C (the reason \<open>f\<close> says which), \<open>Diverges\<close> is a loop that has been shown
  never to end, and \<open>OutOfFuel\<close> marks a bounded evaluation that was not given enough
  steps: it is not a behaviour of the program, and the lemmas exclude it. \<open>Longjmp\<close> is a
  \<open>longjmp\<close> on its way to the \<open>setjmp\<close> that catches it.
\<close>

datatype fault = NullDeref | UseAfterFree | DoubleFree | OutOfBounds | WrongUnion

datatype halt = Exited int | Aborted | Undefined fault | Diverges | OutOfFuel | Longjmp

type_synonym ('s, 'a) prog = "'s \<Rightarrow> (halt + 'a) \<times> 's"

named_theorems prog_simps \<open>unfolding rules of the program monad and its primitives\<close>

section \<open>The program monad\<close>

definition ret :: "'a \<Rightarrow> ('s, 'a) prog" where
  [prog_simps]: "ret x s = (Inr x, s)"

definition stop :: "halt \<Rightarrow> ('s, 'a) prog" where
  [prog_simps]: "stop h s = (Inl h, s)"

definition gets :: "('s \<Rightarrow> 'a) \<Rightarrow> ('s, 'a) prog" where
  [prog_simps]: "gets f s = (Inr (f s), s)"

definition modify :: "('s \<Rightarrow> 's) \<Rightarrow> ('s, unit) prog" where
  [prog_simps]: "modify f s = (Inr (), f s)"

definition bindE :: "('s, 'a) prog \<Rightarrow> ('a \<Rightarrow> ('s, 'b) prog) \<Rightarrow> ('s, 'b) prog" where
  "bindE m f s = (case m s of (Inl h, t) \<Rightarrow> (Inl h, t) | (Inr x, t) \<Rightarrow> f x t)"

definition seqE :: "('s, unit) prog \<Rightarrow> ('s, 'b) prog \<Rightarrow> ('s, 'b) prog" where
  "seqE m n = bindE m (\<lambda>_. n)"

definition whenE :: "bool \<Rightarrow> ('s, unit) prog \<Rightarrow> ('s, unit) prog" where
  [prog_simps]: "whenE b m = (if b then m else ret ())"

lemma bindE_Inr [simp]: "m s = (Inr x, t) \<Longrightarrow> bindE m f s = f x t"
  by (simp add: bindE_def)

lemma bindE_Inl [simp]: "m s = (Inl h, t) \<Longrightarrow> bindE m f s = (Inl h, t)"
  by (simp add: bindE_def)

lemma seqE_Inr [simp]: "m s = (Inr x, t) \<Longrightarrow> seqE m n s = n t"
  by (simp add: seqE_def)

lemma seqE_Inl [simp]: "m s = (Inl h, t) \<Longrightarrow> seqE m n s = (Inl h, t)"
  by (simp add: seqE_def)

lemma bindE_ret [simp]: "bindE (ret x) f = f x"
  by (rule ext) (simp add: ret_def)

lemma bindE_stop [simp]: "bindE (stop h) f = stop h"
  by (rule ext) (simp add: stop_def)

lemma bindE_gets [simp]: "bindE (gets g) f s = f (g s) s"
  by (simp add: gets_def)

lemma seqE_modify [simp]: "seqE (modify g) n s = n (g s)"
  by (simp add: modify_def)

lemma seqE_ret [simp]: "seqE (ret x) n = n"
  by (rule ext) (simp add: ret_def)

lemma seqE_stop [simp]: "seqE (stop h) n = stop h"
  by (rule ext) (simp add: stop_def)

lemma whenE_simps [simp]: "whenE True m = m" "whenE False m = ret ()"
  by (simp_all add: fun_eq_iff whenE_def)

lemma bindE_assoc: "bindE (bindE m f) g = bindE m (\<lambda>x. bindE (f x) g)"
  by (rule ext) (simp add: bindE_def split: prod.splits sum.splits)

lemma seqE_bindE: "seqE (bindE m f) n = bindE m (\<lambda>x. seqE (f x) n)"
  by (simp add: seqE_def bindE_assoc)

lemma seqE_assoc: "seqE (seqE m n) k = seqE m (seqE n k)"
  by (simp add: seqE_def bindE_assoc)

lemma bindE_seqE: "bindE (seqE m n) f = seqE m (bindE n f)"
  by (simp add: seqE_def bindE_assoc)

lemmas prog_assoc = bindE_assoc seqE_bindE seqE_assoc bindE_seqE

lemma bindE_returns_iff:
  "bindE m f s = (Inr y, u) \<longleftrightarrow> (\<exists>x t. m s = (Inr x, t) \<and> f x t = (Inr y, u))"
  by (auto simp: bindE_def split: prod.splits sum.splits)

lemma seqE_returns_iff:
  "seqE m n s = (Inr y, u) \<longleftrightarrow> (\<exists>t. m s = (Inr (), t) \<and> n t = (Inr y, u))"
  by (auto simp: seqE_def bindE_returns_iff)

text \<open>A call that never returns, from whatever state: nothing after it is executed. The
  introduction rules follow the shape of the program.\<close>

named_theorems stops_intros \<open>programs that never return\<close>

definition stops :: "('s, 'a) prog \<Rightarrow> bool" where
  "stops m \<longleftrightarrow> (\<forall>s. isl (fst (m s)))"

lemma stopsD: "stops m \<Longrightarrow> \<exists>h t. m s = (Inl h, t)"
  unfolding stops_def by (metis isl_def prod.collapse)

lemma stops_stop [stops_intros]: "stops (stop h)"
  by (simp add: stops_def stop_def)

lemma stops_bindE [stops_intros]: "(\<And>x. stops (f x)) \<Longrightarrow> stops (bindE m f)"
  by (auto simp: stops_def bindE_def split: prod.splits sum.splits)

lemma stops_bindE_first:
  assumes "stops m"
  shows "stops (bindE m f)"
proof -
  have "isl (fst (bindE m f s))" for s
    using stopsD [OF assms, of s] by auto
  then show ?thesis by (simp add: stops_def)
qed

lemma stops_seqE [stops_intros]: "stops n \<Longrightarrow> stops (seqE m n)"
  unfolding seqE_def by (rule stops_bindE)

lemma stops_seqE_first: "stops m \<Longrightarrow> stops (seqE m n)"
  unfolding seqE_def by (rule stops_bindE_first)

lemma stops_if [stops_intros]: "stops m \<Longrightarrow> stops n \<Longrightarrow> stops (if b then m else n)"
  by simp

lemma stops_not_Inr: "stops m \<Longrightarrow> m s \<noteq> (Inr x, t)"
  using stopsD [of m s] by auto

lemma stops_case:
  assumes "stops m"
  shows "(case m s of (Inl h, t) \<Rightarrow> (Inl h, t) | (Inr x, t) \<Rightarrow> g x t) =
    (Inl (projl (fst (m s))), snd (m s))"
  using stopsD [OF assms, of s] by auto

section \<open>Decimal printing\<close>

abbreviation nl :: string where
  "nl \<equiv> [CHR 0x0A]"

text \<open>A formatted message is the concatenation of its pieces; the constant keeps the texts from
  being taken apart by the simplifier.\<close>

definition msg :: "string list \<Rightarrow> string" where
  "msg pieces = concat pieces"

definition digit_char :: "nat \<Rightarrow> char" where
  "digit_char d = char_of (48 + d)"

fun show_nat :: "nat \<Rightarrow> string" where
  "show_nat n = (if n < 10 then [digit_char n] else show_nat (n div 10) @ [digit_char (n mod 10)])"

declare show_nat.simps [simp del]

definition show_int :: "int \<Rightarrow> string" where
  "show_int i = (if i < 0 then CHR ''-'' # show_nat (nat (- i)) else show_nat (nat i))"

end
