(* ===== verification/Process.thy ===== *)
theory Process
  imports Prelude
begin

text \<open>
  The part of the process state that every component shares: the C heap, reduced to which
  addresses are allocated (\<open>live\<close>) and the contents of character buffers (\<open>strs\<close>), and
  what has been written to the two output streams. The other component theories extend the
  record \<open>process\<close> with their own static variables and their own typed heaps.

  Address 0 is the null pointer. An address is never handed out twice, so a pointer to a
  freed block stays recognisable. \<open>alloc_ok n\<close> is the environment's answer to the
  allocation made at address \<open>n\<close>, and \<open>strerror\<close> is the text of the C library.
\<close>

datatype stream = Stdout | Stderr

record process =
  alloc_ok :: "nat \<Rightarrow> bool"
  strerror :: "int \<Rightarrow> string"
  brk :: nat
  live :: "nat set"
  strs :: "nat \<Rightarrow> string"
  console :: "(stream \<times> string) list"

definition ENOMEM :: int where "ENOMEM = 12"

definition EINVAL :: int where "EINVAL = 22"

text \<open>\<open>malloc\<close>, \<open>calloc\<close>, \<open>strdup\<close>: a fresh address, or the null pointer.\<close>

definition c_alloc :: "('z process_scheme, nat) prog" where
  [prog_simps]: "c_alloc s =
     (if alloc_ok s (brk s)
      then (Inr (brk s), s\<lparr>brk := Suc (brk s), live := insert (brk s) (live s)\<rparr>)
      else (Inr 0, s\<lparr>brk := Suc (brk s)\<rparr>))"

text \<open>\<open>free\<close>: freeing the null pointer does nothing, freeing anything else that is not
  allocated is undefined.\<close>

definition c_free :: "nat \<Rightarrow> ('z process_scheme, unit) prog" where
  [prog_simps]: "c_free p s =
     (if p = 0 then (Inr (), s)
      else if p \<in> live s then (Inr (), s\<lparr>live := live s - {p}\<rparr>)
      else (Inl (Undefined DoubleFree), s))"

text \<open>The check made before a structure is read or written through a pointer.\<close>

definition deref :: "nat \<Rightarrow> ('z process_scheme, unit) prog" where
  [prog_simps]: "deref p s =
     (if p = 0 then (Inl (Undefined NullDeref), s)
      else if p \<in> live s then (Inr (), s)
      else (Inl (Undefined UseAfterFree), s))"

definition put_text :: "stream \<Rightarrow> string \<Rightarrow> ('z process_scheme, unit) prog" where
  [prog_simps]: "put_text f t s = (Inr (), s\<lparr>console := console s @ [(f, t)]\<rparr>)"

text \<open>What the allocator keeps: no allocated address at or above \<open>brk\<close>, and never the
  null pointer.\<close>

definition heap_inv :: "'z process_scheme \<Rightarrow> bool" where
  "heap_inv s \<longleftrightarrow> 0 < brk s \<and> 0 \<notin> live s \<and> (\<forall>p \<in> live s. p < brk s)"

definition mem_ok :: "'z process_scheme \<Rightarrow> bool" where
  "mem_ok s \<longleftrightarrow> (\<forall>n. alloc_ok s n)"

lemma mem_okD [simp]: "mem_ok s \<Longrightarrow> alloc_ok s n"
  by (simp add: mem_ok_def)

lemma heap_inv_fresh: "heap_inv s \<Longrightarrow> brk s \<notin> live s"
  by (auto simp: heap_inv_def)

lemma c_alloc_heap_inv: "heap_inv s \<Longrightarrow> c_alloc s = (r, t) \<Longrightarrow> heap_inv t"
  by (auto simp: c_alloc_def heap_inv_def less_Suc_eq split: if_splits)

lemma c_free_heap_inv: "heap_inv s \<Longrightarrow> c_free p s = (r, t) \<Longrightarrow> heap_inv t"
  by (auto simp: c_free_def heap_inv_def split: if_splits)

end
