(* ===== verification/Autodie.thy ===== *)
theory Autodie
  imports Process
begin

text \<open>
  Model of \<^verbatim>\<open>src/external/autodie.c\<close>: wrappers of the C allocator that end the program
  instead of returning a failure. The state is the two static variables and the
  thread-local reentrance flag. A registered handler is a function pointer; it is kept as
  a name (\<open>die_fn\<close>) and the code behind a name is the argument \<open>call\<close> of the
  definitions, so that the handler of \<^verbatim>\<open>main.c\<close> can be plugged in where it is defined.
\<close>

datatype die_fn = Autodie_handler

record autodie = process +
  die_handler :: "die_fn option"
  autodie_exit_value :: int
  inside_autodie :: bool

type_synonym 'z die_call = "die_fn \<Rightarrow> string \<Rightarrow> int \<Rightarrow> string \<Rightarrow> ('z autodie_scheme, unit) prog"

definition MESSAGE_MAX_LEN :: nat where "MESSAGE_MAX_LEN = 1024"

definition autodie_register_handler :: "die_fn option \<Rightarrow> ('z autodie_scheme, unit) prog" where
  "autodie_register_handler handler = modify (\<lambda>s. s\<lparr>die_handler := handler\<rparr>)"

definition autodie_get_exit_value :: "('z autodie_scheme, int) prog" where
  "autodie_get_exit_value = gets autodie_exit_value"

definition autodie_set_exit_value :: "int \<Rightarrow> ('z autodie_scheme, int) prog" where
  "autodie_set_exit_value new_value =
     bindE (gets autodie_exit_value) (\<lambda>old_value.
     seqE (modify (\<lambda>s. s\<lparr>autodie_exit_value := new_value\<rparr>)) (ret old_value))"

text \<open>
  \<open>fmt\<close> is the formatted message, \<open>None\<close> where the code passes a null format;
  \<open>vsnprintf\<close> keeps at most \<open>MESSAGE_MAX_LEN - 1\<close> characters of it.
\<close>

definition autodie_invoke ::
  "'z die_call \<Rightarrow> string \<Rightarrow> int \<Rightarrow> string option \<Rightarrow> ('z autodie_scheme, 'a) prog" where
  "autodie_invoke call function error_value fmt =
     bindE (gets inside_autodie) (\<lambda>inside.
     if inside then
       seqE (put_text Stderr (''autodie: handler went reentrant'' @ nl))
       (seqE (put_text Stderr (''autodie: function = '' @ function @ nl)) (stop Aborted))
     else
       seqE (modify (\<lambda>s. s\<lparr>inside_autodie := True\<rparr>))
       (bindE (ret (case fmt of None \<Rightarrow> ''(no message)'' | Some m \<Rightarrow> take (MESSAGE_MAX_LEN - 1) m)) (\<lambda>message.
       bindE (gets die_handler) (\<lambda>handler.
       bindE (case handler of
                None \<Rightarrow> ret False
              | Some h \<Rightarrow>
                  seqE (call h function error_value message)
                  (seqE (put_text Stderr (''autodie: registered die handler did not stop the program'' @ nl))
                  (ret True))) (\<lambda>should_abort.
       bindE (gets strerror) (\<lambda>errtext.
       seqE (put_text Stderr (''autodie '' @ function @ ''(): '' @ message @ '': '' @ errtext error_value @ nl))
       (if should_abort then stop Aborted
        else bindE (gets autodie_exit_value) (\<lambda>v. stop (Exited v)))))))))"

definition ad_test :: "'z die_call \<Rightarrow> ('z autodie_scheme, unit) prog" where
  "ad_test call = autodie_invoke call ''ad__test_'' 98 (Some ''forced failure induced by test'')"

text \<open>\<open>errno\<close> is \<open>ENOMEM\<close> after a failed allocation.\<close>

definition ad_calloc :: "'z die_call \<Rightarrow> nat \<Rightarrow> nat \<Rightarrow> ('z autodie_scheme, nat) prog" where
  "ad_calloc call nmemb sz =
     seqE (whenE (nmemb = 0 \<or> sz = 0)
             (autodie_invoke call ''ad_calloc'' EINVAL
                (Some (''nmemb = '' @ show_nat nmemb @ ''; size = '' @ show_nat sz))))
     (bindE c_alloc (\<lambda>p.
     if p = 0 then
       autodie_invoke call ''ad_calloc'' ENOMEM
         (Some (''Could not allocate '' @ show_nat nmemb @ '' * '' @ show_nat sz @ '' = ''
                @ show_nat (nmemb * sz) @ '' bytes''))
     else ret p))"

definition ad_malloc :: "'z die_call \<Rightarrow> nat \<Rightarrow> ('z autodie_scheme, nat) prog" where
  "ad_malloc call bytes =
     seqE (whenE (bytes = 0)
             (autodie_invoke call ''ad_malloc'' EINVAL (Some ''attempt to allocate 0 bytes'')))
     (bindE c_alloc (\<lambda>p.
     if p = 0 then
       autodie_invoke call ''ad_malloc'' ENOMEM
         (Some (''Could not allocate '' @ show_nat bytes @ '' bytes''))
     else ret p))"

definition ad_strdup :: "'z die_call \<Rightarrow> string \<Rightarrow> ('z autodie_scheme, nat) prog" where
  "ad_strdup call str =
     bindE c_alloc (\<lambda>p.
     if p = 0 then autodie_invoke call ''ad_strdup'' ENOMEM None
     else seqE (modify (\<lambda>s. s\<lparr>strs := (strs s)(p := str)\<rparr>)) (ret p))"

section \<open>Lemmas\<close>

lemma autodie_invoke_stops [stops_intros]: "stops (autodie_invoke call f e m)"
  unfolding autodie_invoke_def by (intro stops_intros)

lemma autodie_invoke_inside:
  "inside_autodie s \<Longrightarrow> autodie_invoke call f e m s = autodie_invoke call' f e m s"
  by (simp add: autodie_invoke_def)

lemma autodie_invoke_not_Inr [simp]: "autodie_invoke call f e m s \<noteq> (Inr x, t)"
  by (rule stops_not_Inr [OF autodie_invoke_stops])

lemma seqE_autodie_not_Inr [simp]: "seqE (autodie_invoke call f e m) n s \<noteq> (Inr x, t)"
  by (rule stops_not_Inr [OF stops_seqE_first [OF autodie_invoke_stops]])

section \<open>Properties\<close>

text \<open>\<open>ad_calloc\<close> returns exactly when the request is not empty and the allocation
  succeeds; it then returns a fresh block that has been added to the heap and changes nothing
  else. In every other case the call does not return.\<close>

theorem ad_calloc_returns_iff:
  "ad_calloc call nmemb sz s = (Inr p, t) \<longleftrightarrow>
     0 < nmemb \<and> 0 < sz \<and> alloc_ok s (brk s) \<and> p = brk s \<and> p \<noteq> 0 \<and>
     t = s\<lparr>brk := Suc (brk s), live := insert (brk s) (live s)\<rparr>"
proof (cases "0 < nmemb \<and> 0 < sz")
  case True
  then have "ad_calloc call nmemb sz s = bindE c_alloc (\<lambda>p. if p = 0 then
      autodie_invoke call ''ad_calloc'' ENOMEM
         (Some (''Could not allocate '' @ show_nat nmemb @ '' * '' @ show_nat sz @ '' = ''
                @ show_nat (nmemb * sz) @ '' bytes'')) else ret p) s"
    by (simp add: ad_calloc_def whenE_def)
  with True show ?thesis by (auto simp: bindE_def c_alloc_def ret_def)
next
  case False
  then show ?thesis by (auto simp: ad_calloc_def whenE_def)
qed

text \<open>C33. A die handler that itself dies through autodie ends the program by \<open>abort()\<close> at the
  second level, with the message about the reentrance, and not by unbounded recursion.\<close>

theorem autodie_reentrance_aborts:
  assumes "die_handler s = Some h" and "\<not> inside_autodie s"
    and "\<And>t m. inside_autodie t \<Longrightarrow> call h function error m t = autodie_invoke call f2 e2 m2 t"
  shows "autodie_invoke call function error fmt s =
    (Inl Aborted, s\<lparr>inside_autodie := True, console := console s @
      [(Stderr, ''autodie: handler went reentrant'' @ nl), (Stderr, ''autodie: function = '' @ f2 @ nl)]\<rparr>)"
proof -
  let ?t = "s\<lparr>inside_autodie := True\<rparr>"
  define a where "a = ''autodie: handler went reentrant'' @ nl"
  define b where "b = ''autodie: function = '' @ f2 @ nl"
  have "autodie_invoke call f2 e2 m2 ?t = (Inl Aborted, ?t\<lparr>console := console s @ [(Stderr, a), (Stderr, b)]\<rparr>)"
    unfolding autodie_invoke_def a_def [symmetric] b_def [symmetric]
    by (simp add: seqE_def bindE_def gets_def put_text_def stop_def)
  then have "call h function error m ?t = (Inl Aborted, ?t\<lparr>console := console s @ [(Stderr, a), (Stderr, b)]\<rparr>)" for m
    using assms(3) [of ?t] by simp
  with assms(1,2) show ?thesis
    unfolding a_def [symmetric] b_def [symmetric] by (simp add: autodie_invoke_def)
qed

text \<open>A handler that allocates nothing: a failing \<open>ad_test\<close> inside a handler.\<close>

definition sample_autodie :: autodie where
  "sample_autodie = \<lparr>alloc_ok = (\<lambda>_. True), strerror = (\<lambda>_. []), brk = 1, live = {}, strs = (\<lambda>_. []),
     console = [], die_handler = Some Autodie_handler, autodie_exit_value = 1, inside_autodie = False\<rparr>"

theorem autodie_reentrance_aborts_witness:
  "fst (ad_test (\<lambda>h f e m. ad_test (\<lambda>_ _ _ _. ret ())) sample_autodie) = Inl Aborted"
proof -
  let ?inner = "\<lambda>_ _ _ _. ret ()" and ?m = "Some ''forced failure induced by test''"
  let ?call = "\<lambda>h f e m. autodie_invoke ?inner ''ad__test_'' 98 ?m"
  show ?thesis
    unfolding ad_test_def
    by (subst autodie_reentrance_aborts [where h = Autodie_handler and ?f2.0 = "''ad__test_''"
          and ?e2.0 = 98 and ?m2.0 = ?m])
      (simp_all add: sample_autodie_def autodie_invoke_inside [of _ ?inner _ _ _ ?call])
qed

end
