(* ===== verification/Log.thy ===== *)
theory Log
  imports Autodie
begin

text \<open>
  Model of \<^verbatim>\<open>src/log.c\<close>, \<^verbatim>\<open>src/log.h\<close> and \<^verbatim>\<open>src/guts.c\<close>: the levelled logger and the one
  function through which the program exits. Enumerations keep their C values, so a level
  is an \<open>int\<close> and the \<open>abort()\<close> after the \<open>switch\<close> statements is a branch of the model.
  Messages arrive formatted; the truncation by \<open>vsnprintf\<close> to the static buffer is kept.
\<close>

record log_state = autodie +
  current_level :: int
  message_buf :: nat
  message_text :: string

section \<open>guts.c\<close>

definition exit_ok :: int where "exit_ok = 0"
definition exit_fatal :: int where "exit_fatal = 1"
definition exit_args :: int where "exit_args = 10"
definition exit_nomem :: int where "exit_nomem = 100"

definition guts_exit :: "int \<Rightarrow> ('s, 'a) prog" where
  "guts_exit v = stop (Exited v)"

section \<open>Levels and sources\<close>

definition log_level_fatal :: int where "log_level_fatal = 100"
definition log_level_error :: int where "log_level_error = 8"
definition log_level_warn :: int where "log_level_warn = 7"
definition log_level_notice :: int where "log_level_notice = 6"
definition log_level_info :: int where "log_level_info = 5"
definition log_level_verbose :: int where "log_level_verbose = 4"
definition log_level_debug :: int where "log_level_debug = 3"
definition log_level_lots :: int where "log_level_lots = 2"
definition log_level_trace :: int where "log_level_trace = 1"

lemmas log_level_defs =
  log_level_fatal_def log_level_error_def log_level_warn_def log_level_notice_def
  log_level_info_def log_level_verbose_def log_level_debug_def log_level_lots_def
  log_level_trace_def

definition log_source_unknown :: int where "log_source_unknown = 0"
definition log_source_righack :: int where "log_source_righack = 1"
definition log_source_hamlib :: int where "log_source_hamlib = 2"

lemmas log_source_defs =
  log_source_unknown_def log_source_righack_def log_source_hamlib_def

definition log_levels :: "int list" where
  "log_levels = [log_level_trace, log_level_lots, log_level_debug, log_level_verbose,
     log_level_info, log_level_notice, log_level_warn, log_level_error, log_level_fatal]"

text \<open>\<open>None\<close> is the \<open>abort()\<close> after the \<open>switch\<close>.\<close>

definition log_levelname :: "int \<Rightarrow> string option" where
  "log_levelname level =
     (if level = log_level_fatal then Some ''FATAL''
      else if level = log_level_error then Some ''ERROR''
      else if level = log_level_warn then Some ''WARN''
      else if level = log_level_notice then Some ''NOTICE''
      else if level = log_level_info then Some ''INFO''
      else if level = log_level_verbose then Some ''VERBOSE''
      else if level = log_level_debug then Some ''DEBUG''
      else if level = log_level_lots then Some ''LOTS''
      else if level = log_level_trace then Some ''TRACE''
      else None)"

definition log_sourcename :: "int \<Rightarrow> string option" where
  "log_sourcename source =
     (if source = log_source_unknown then Some ''unknown''
      else if source = log_source_righack then Some ''righack''
      else if source = log_source_hamlib then Some ''hamlib''
      else None)"

definition log_get_current_level :: "('z log_state_scheme, int) prog" where
  "log_get_current_level = gets current_level"

definition log_set_current_level :: "int \<Rightarrow> ('z log_state_scheme, int) prog" where
  "log_set_current_level new_level =
     bindE (gets current_level) (\<lambda>old_level.
     seqE (modify (\<lambda>s. s\<lparr>current_level := new_level\<rparr>)) (ret old_level))"

section \<open>The file name in a log line\<close>

text \<open>
  The two pointers of the loop are the rest of the path that each points to. At a slash
  the code advances \<open>p\<close> once for \<open>filename = ++p\<close> and once more at the end of the loop
  body, so the character after a slash is not examined; when that character is the
  terminating NUL, the next test of the loop reads past the end of the string (\<open>None\<close>).
\<close>

fun log_basename_loop :: "string \<Rightarrow> string \<Rightarrow> string option" where
  "log_basename_loop [] filename = Some filename"
| "log_basename_loop (c # p) filename =
     (if c = CHR ''/'' then (case p of [] \<Rightarrow> None | _ # p' \<Rightarrow> log_basename_loop p' p)
      else log_basename_loop p filename)"

definition log_basename :: "string \<Rightarrow> string option" where
  "log_basename path = log_basename_loop path path"

section \<open>Writing a line\<close>

definition CONFIG_LOG_SIZE :: nat where "CONFIG_LOG_SIZE = 4096"

text \<open>\<open>util_zalloc\<close> of \<^verbatim>\<open>util.c\<close> stands here because the logger allocates its buffer with it.\<close>

definition util_zalloc :: "'z die_call \<Rightarrow> nat \<Rightarrow> ('z autodie_scheme, nat) prog" where
  "util_zalloc call bytes = ad_calloc call 1 bytes"

definition log_line :: "string \<Rightarrow> string \<Rightarrow> string \<Rightarrow> int \<Rightarrow> string \<Rightarrow> string \<Rightarrow> string" where
  "log_line source_name level_name file line function message =
     source_name @ '' '' @ level_name @ '' '' @ file @ '':'' @ show_int line @ '' ''
     @ function @ ''() '' @ message @ nl"

definition log_level_args ::
  "'z log_state_ext die_call \<Rightarrow> int \<Rightarrow> int \<Rightarrow> string option \<Rightarrow> string option \<Rightarrow> int \<Rightarrow> string
   \<Rightarrow> ('z log_state_scheme, unit) prog" where
  "log_level_args call source level function path line message =
     bindE log_get_current_level (\<lambda>cur.
     if level < cur then ret ()
     else
       bindE (gets message_buf) (\<lambda>buf.
       seqE (whenE (buf = 0)
               (bindE (util_zalloc call CONFIG_LOG_SIZE) (\<lambda>p.
                modify (\<lambda>s. s\<lparr>message_buf := p, message_text := []\<rparr>))))
       (bindE (ret (if log_level_warn \<le> level then Stderr else Stdout)) (\<lambda>output.
       bindE (case log_basename (case path of None \<Rightarrow> ''(no file)'' | Some p \<Rightarrow> p) of
                None \<Rightarrow> stop (Undefined OutOfBounds) | Some f \<Rightarrow> ret f) (\<lambda>file.
       bindE (case log_levelname level of None \<Rightarrow> stop Aborted | Some n \<Rightarrow> ret n) (\<lambda>level_name.
       bindE (case log_sourcename source of None \<Rightarrow> stop Aborted | Some n \<Rightarrow> ret n) (\<lambda>source_name.
       bindE (ret (take (CONFIG_LOG_SIZE - 1) message)) (\<lambda>text.
       seqE (modify (\<lambda>s. s\<lparr>message_text := text\<rparr>))
       (put_text output
          (log_line source_name level_name file line
             (case function of None \<Rightarrow> ''(no func)'' | Some f \<Rightarrow> f) text))))))))))"

definition log_level_va ::
  "'z log_state_ext die_call \<Rightarrow> int \<Rightarrow> int \<Rightarrow> string option \<Rightarrow> string option \<Rightarrow> int \<Rightarrow> string
   \<Rightarrow> ('z log_state_scheme, unit) prog" where
  "log_level_va call source level function path line message =
     bindE (gets current_level) (\<lambda>cur.
     if level < cur then ret ()
     else log_level_args call source level function path line message)"

section \<open>Lemmas\<close>

lemma guts_exit_stops [stops_intros]: "stops (guts_exit v)"
  unfolding guts_exit_def by (intro stops_intros)

lemma log_levelname_simps [simp]:
  "log_levelname log_level_fatal = Some ''FATAL''"
  "log_levelname log_level_error = Some ''ERROR''"
  "log_levelname log_level_warn = Some ''WARN''"
  "log_levelname log_level_notice = Some ''NOTICE''"
  "log_levelname log_level_info = Some ''INFO''"
  "log_levelname log_level_verbose = Some ''VERBOSE''"
  "log_levelname log_level_debug = Some ''DEBUG''"
  "log_levelname log_level_lots = Some ''LOTS''"
  "log_levelname log_level_trace = Some ''TRACE''"
  by (simp_all add: log_levelname_def log_level_defs)

lemma log_sourcename_simps [simp]:
  "log_sourcename log_source_unknown = Some ''unknown''"
  "log_sourcename log_source_righack = Some ''righack''"
  "log_sourcename log_source_hamlib = Some ''hamlib''"
  by (simp_all add: log_sourcename_def log_source_defs)

lemma log_basename_loop_no_slash:
  "CHR ''/'' \<notin> set p \<Longrightarrow> log_basename_loop p filename = Some filename"
  by (induction p filename rule: log_basename_loop.induct) auto

text \<open>What \<open>basename\<close> should return: the part after the last slash.\<close>

definition after_last_slash :: "string \<Rightarrow> string" where
  "after_last_slash path = rev (takeWhile (\<lambda>c. c \<noteq> CHR ''/'') (rev path))"

fun slashes_separated :: "string \<Rightarrow> bool" where
  "slashes_separated [] = True"
| "slashes_separated (c # p) =
     ((c = CHR ''/'' \<longrightarrow> p \<noteq> [] \<and> hd p \<noteq> CHR ''/'') \<and> slashes_separated p)"

lemma after_last_slash_Cons:
  "after_last_slash (c # p) =
     (if CHR ''/'' \<in> set p then after_last_slash p else if c = CHR ''/'' then p else c # p)"
  by (auto simp: after_last_slash_def takeWhile_append)

lemma log_basename_loop_separated:
  "slashes_separated p \<Longrightarrow>
   log_basename_loop p filename =
     Some (if CHR ''/'' \<in> set p then after_last_slash p else filename)"
proof (induction p filename rule: log_basename_loop.induct)
  case (1 filename)
  then show ?case by simp
next
  case (2 c p filename)
  show ?case
  proof (cases "c = CHR ''/''")
    case True
    with 2 obtain d p' where p: "p = d # p'" "d \<noteq> CHR ''/''" "slashes_separated p'"
      by (cases p) auto
    with 2(1)[OF True p(1)] True show ?thesis
      by (auto simp: after_last_slash_Cons)
  next
    case False
    with 2 show ?thesis by (auto simp: after_last_slash_Cons)
  qed
qed

lemma after_last_slash_none:
  assumes "CHR ''/'' \<notin> set path"
  shows "after_last_slash path = path"
proof -
  have "takeWhile (\<lambda>c. c \<noteq> CHR ''/'') (rev path) = rev path"
    unfolding takeWhile_eq_all_conv using assms by auto
  then show ?thesis unfolding after_last_slash_def by (simp only: rev_rev_ident)
qed

text \<open>The state after a line has been written with the buffer already in place.\<close>

definition log_upd :: "int \<Rightarrow> int \<Rightarrow> string \<Rightarrow> string \<Rightarrow> int \<Rightarrow> string \<Rightarrow> 'z log_state_scheme \<Rightarrow> 'z log_state_scheme" where
  "log_upd source level function file line message s =
     s\<lparr>message_text := (if level < current_level s then message_text s
                        else take (CONFIG_LOG_SIZE - 1) message),
       console := (if level < current_level s then console s
                   else console s @
                     [(if log_level_warn \<le> level then Stderr else Stdout,
                       log_line (the (log_sourcename source)) (the (log_levelname level))
                         file line function (take (CONFIG_LOG_SIZE - 1) message))])\<rparr>"

lemma log_upd_frame [simp]:
  "alloc_ok (log_upd src l f p n m s) = alloc_ok s"
  "strerror (log_upd src l f p n m s) = strerror s"
  "brk (log_upd src l f p n m s) = brk s"
  "live (log_upd src l f p n m s) = live s"
  "strs (log_upd src l f p n m s) = strs s"
  "die_handler (log_upd src l f p n m s) = die_handler s"
  "autodie_exit_value (log_upd src l f p n m s) = autodie_exit_value s"
  "inside_autodie (log_upd src l f p n m s) = inside_autodie s"
  "current_level (log_upd src l f p n m s) = current_level s"
  "message_buf (log_upd src l f p n m s) = message_buf s"
  by (simp_all add: log_upd_def)

lemma log_level_args_ready:
  assumes "message_buf s \<noteq> 0" "log_basename path = Some file"
    and "log_levelname level = Some ln" "log_sourcename source = Some sn"
  shows "log_level_args call source level (Some function) (Some path) line message s =
    (Inr (), log_upd source level function file line message s)"
  using assms
  by (simp add: log_level_args_def log_get_current_level_def whenE_def log_upd_def
      ret_def put_text_def)

lemma log_level_args_quiet:
  "level < current_level s \<Longrightarrow>
   log_level_args call source level function path line message s = (Inr (), s)"
  by (simp add: log_level_args_def log_get_current_level_def ret_def)

section \<open>Properties\<close>

lemma log_basename_loop_trailing:
  "slashes_separated path \<Longrightarrow> path = [] \<or> last path \<noteq> CHR ''/'' \<Longrightarrow>
   log_basename_loop (path @ ''/'') f = None"
proof (induction path arbitrary: f rule: length_induct)
  case (1 path)
  show ?case
  proof (cases path)
    case Nil
    then show ?thesis by simp
  next
    case c: (Cons c p)
    show ?thesis
    proof (cases "c = CHR ''/''")
      case True
      with 1 c obtain d p' where p: "p = d # p'" "d \<noteq> CHR ''/''" "slashes_separated p'"
        by (cases p) auto
      moreover from this have "p' = [] \<or> last p' \<noteq> CHR ''/''" using 1 c p by auto
      ultimately have "log_basename_loop (p' @ ''/'') (p @ ''/'') = None"
        using 1(1) [rule_format, of p' "p @ ''/''"] c by simp
      then show ?thesis using c p True by simp
    next
      case False
      have "p = [] \<or> last p \<noteq> CHR ''/''" "slashes_separated p" using 1 c by (auto split: if_splits)
      then have "log_basename_loop (p @ ''/'') f = None"
        using 1(1) [rule_format, of p f] c by simp
      then show ?thesis using c False by simp
    qed
  qed
qed

text \<open>The file name of a log line: when every slash of the path is followed by a character
  that is not a slash, the result is what follows the last slash; with one slash more at the
  end the loop steps over the terminating NUL and reads past the string.\<close>

theorem log_basename_separated:
  assumes "slashes_separated path"
  shows "log_basename path = Some (after_last_slash path) \<and> log_basename (path @ ''/'') = None"
proof
  show "log_basename path = Some (after_last_slash path)"
    using log_basename_loop_separated [OF assms, of path] after_last_slash_none [of path]
    by (auto simp: log_basename_def)
  have "path = [] \<or> last path \<noteq> CHR ''/''" using assms
    by (induction path) auto
  then show "log_basename (path @ ''/'') = None"
    unfolding log_basename_def by (rule log_basename_loop_trailing [OF assms])
qed

theorem log_basename_separated_witness:
  "log_basename ''/src/drivers/vserial.c'' = Some ''vserial.c'' \<and>
   log_basename ''/src/drivers/vserial.c/'' = None"
  using log_basename_separated [of "''/src/drivers/vserial.c''"]
  by (simp add: after_last_slash_def)

end
