(* ===== verification/Fatal.thy ===== *)
theory Fatal
  imports Log
begin

text \<open>
  The fatal-error path, which runs through four files: \<open>util_fatal\<close> (\<^verbatim>\<open>src/util.c\<close>) logs and
  exits, the logger may allocate its buffer, an allocation that fails calls the registered
  handler (\<^verbatim>\<open>src/external/autodie.c\<close>), and that handler (\<^verbatim>\<open>src/main.c\<close>) logs through
  \<open>util_fatal\<close> again. The cycle is cut by autodie's reentrance flag: \<open>die_call\<close> ties the
  knot and \<open>die_call_unfold\<close> shows that nothing is lost.

  The logging macros add the function, file and line of the call; those three are fixed to
  placeholders here, so a log line shows its source, level and message only.
\<close>

definition util_fatal_va ::
  "'z log_state_ext die_call \<Rightarrow> int \<Rightarrow> int \<Rightarrow> string option \<Rightarrow> string option \<Rightarrow> int \<Rightarrow> string
   \<Rightarrow> ('z log_state_scheme, 'a) prog" where
  "util_fatal_va call source level function path line message =
     seqE (log_level_args call source level function path line message)
     (guts_exit exit_fatal)"

abbreviation here_func :: string where "here_func \<equiv> ''func''"
abbreviation here_file :: string where "here_file \<equiv> ''file''"

definition autodie_handler ::
  "'z log_state_ext die_call \<Rightarrow> string \<Rightarrow> int \<Rightarrow> string \<Rightarrow> ('z log_state_scheme, unit) prog" where
  "autodie_handler call function error message =
     bindE (gets strerror) (\<lambda>errtext.
     seqE (whenE (error = ENOMEM)
             (seqE (put_text Stderr (function @ ''() died \"'' @ message @ ''\": '' @ errtext error @ nl))
              (guts_exit exit_nomem)))
     (util_fatal_va call log_source_righack log_level_fatal (Some here_func) (Some here_file) 0
        (function @ ''() died \"'' @ message @ ''\": '' @ errtext error)))"

text \<open>The code behind a registered handler; inside the handler the flag of autodie is set,
  so the innermost \<open>call\<close> is never reached.\<close>

definition die_call :: "'z log_state_ext die_call" where
  "die_call h = (case h of Autodie_handler \<Rightarrow>
     autodie_handler (\<lambda>_ _ _ _. stop OutOfFuel))"

definition util_fatal :: "string \<Rightarrow> ('z log_state_scheme, 'a) prog" where
  "util_fatal message =
     util_fatal_va die_call log_source_righack log_level_fatal (Some here_func) (Some here_file) 0 message"

definition zalloc :: "nat \<Rightarrow> ('z log_state_scheme, nat) prog" where
  "zalloc bytes = util_zalloc die_call bytes"

definition strdup_ad :: "string \<Rightarrow> ('z log_state_scheme, nat) prog" where
  "strdup_ad str = ad_strdup die_call str"

definition log_at :: "int \<Rightarrow> string \<Rightarrow> ('z log_state_scheme, unit) prog" where
  "log_at level message =
     log_level_va die_call log_source_righack level (Some here_func) (Some here_file) 0 message"

abbreviation "log_warn \<equiv> log_at log_level_warn"
abbreviation "log_info \<equiv> log_at log_level_info"
abbreviation "log_verbose \<equiv> log_at log_level_verbose"
abbreviation "log_debug \<equiv> log_at log_level_debug"
abbreviation "log_lots \<equiv> log_at log_level_lots"
abbreviation "log_trace \<equiv> log_at log_level_trace"

section \<open>The knot\<close>

lemma ad_calloc_inside:
  assumes "inside_autodie s"
  shows "ad_calloc call n b s = ad_calloc call' n b s"
proof -
  have nat: "autodie_invoke call f e m t = (autodie_invoke call' f e m t :: (halt + nat) \<times> _)"
    if "inside_autodie t" for f e m t
    using that by (rule autodie_invoke_inside)
  have unit: "autodie_invoke call f e m t = (autodie_invoke call' f e m t :: (halt + unit) \<times> _)"
    if "inside_autodie t" for f e m t
    using that by (rule autodie_invoke_inside)
  show ?thesis
  proof (cases "n = 0 \<or> b = 0")
    case True
    with assms show ?thesis
      by (simp add: ad_calloc_def whenE_def seqE_def bindE_def unit
          stops_case [OF autodie_invoke_stops])
  next
    case False
    with assms show ?thesis
      by (cases "alloc_ok s (brk s)")
        (simp_all add: ad_calloc_def whenE_def seqE_def bindE_def c_alloc_def ret_def nat)
  qed
qed

lemma log_level_args_inside:
  assumes "inside_autodie s"
  shows "log_level_args call src l f p n m s = log_level_args call' src l f p n m s"
  using ad_calloc_inside [OF assms, of call _ _ call']
  by (simp add: log_level_args_def log_get_current_level_def whenE_def seqE_def
      bindE_def util_zalloc_def gets_def ret_def)

lemma util_fatal_va_inside:
  "inside_autodie s \<Longrightarrow> util_fatal_va call src l f p n m s = util_fatal_va call' src l f p n m s"
  by (simp add: util_fatal_va_def seqE_def bindE_def log_level_args_inside [of s call _ _ _ _ _ _ call'])

lemma util_fatal_va_stops [stops_intros]: "stops (util_fatal_va call src l f p n m)"
  unfolding util_fatal_va_def by (intro stops_intros)

lemma util_fatal_stops [stops_intros]: "stops (util_fatal m)"
  unfolding util_fatal_def by (intro stops_intros)

lemma util_fatal_not_Inr [simp]: "util_fatal m s \<noteq> (Inr x, t)" "seqE (util_fatal m) n s \<noteq> (Inr x, t)"
  by (rule stops_not_Inr, rule util_fatal_stops)
    (rule stops_not_Inr, rule stops_seqE_first, rule util_fatal_stops)

lemma autodie_handler_stops [stops_intros]: "stops (autodie_handler call f e m)"
  unfolding autodie_handler_def by (intro stops_intros)

lemma die_call_unfold:
  "inside_autodie s \<Longrightarrow> die_call Autodie_handler f e m s = autodie_handler die_call f e m s"
  by (simp add: die_call_def autodie_handler_def seqE_def bindE_def whenE_def ret_def gets_def
      put_text_def guts_exit_def stop_def util_fatal_va_inside [of s "\<lambda>_ _ _ _. stop OutOfFuel" _ _ _ _ _ _ "die_call"])

section \<open>The paths of a running program\<close>

text \<open>After its first log line the program has its message buffer; a component lemma then
  sees a log call as the plain state update \<open>log_msg\<close>.\<close>

abbreviation log_msg :: "int \<Rightarrow> string \<Rightarrow> 'z log_state_scheme \<Rightarrow> 'z log_state_scheme" where
  "log_msg level message \<equiv> log_upd log_source_righack level here_func here_file 0 message"

definition ready :: "'z log_state_scheme \<Rightarrow> bool" where
  "ready s \<longleftrightarrow> mem_ok s \<and> message_buf s \<noteq> 0 \<and> heap_inv s"

lemma readyD [simp]:
  assumes "ready s"
  shows "mem_ok s" "alloc_ok s n" "message_buf s \<noteq> 0" "0 < message_buf s" "heap_inv s" "brk s \<noteq> 0" "0 < brk s" "0 \<notin> live s"
  using assms by (auto simp: ready_def heap_inv_def)

lemma log_basename_here [simp]: "log_basename here_file = Some here_file"
  by (simp add: log_basename_def)

lemma log_at_ready:
  assumes "message_buf s \<noteq> 0" and "log_levelname level = Some ln"
  shows "log_at level m s = (Inr (), log_msg level m s)"
proof (cases "level < current_level s")
  case True
  then show ?thesis by (simp add: log_at_def log_level_va_def log_upd_def ret_def)
next
  case False
  then show ?thesis
    using log_level_args_ready [OF assms(1) log_basename_here assms(2) log_sourcename_simps(2)]
    by (simp add: log_at_def log_level_va_def)
qed

lemma log_at_simps [simp]:
  assumes "message_buf s \<noteq> 0"
  shows "log_warn m s = (Inr (), log_msg log_level_warn m s)"
    "log_info m s = (Inr (), log_msg log_level_info m s)"
    "log_verbose m s = (Inr (), log_msg log_level_verbose m s)"
    "log_debug m s = (Inr (), log_msg log_level_debug m s)"
    "log_lots m s = (Inr (), log_msg log_level_lots m s)"
    "log_trace m s = (Inr (), log_msg log_level_trace m s)"
  by (rule log_at_ready, rule assms, rule log_levelname_simps)+

lemma zalloc_ready [simp]:
  "alloc_ok s (brk s) \<Longrightarrow> brk s \<noteq> 0 \<Longrightarrow> 0 < n \<Longrightarrow>
   zalloc n s = (Inr (brk s), s\<lparr>brk := Suc (brk s), live := insert (brk s) (live s)\<rparr>)"
  by (simp add: zalloc_def util_zalloc_def ad_calloc_def whenE_def c_alloc_def ret_def)

lemma strdup_ad_ready [simp]:
  "alloc_ok s (brk s) \<Longrightarrow> brk s \<noteq> 0 \<Longrightarrow>
   strdup_ad t s = (Inr (brk s),
     s\<lparr>brk := Suc (brk s), live := insert (brk s) (live s), strs := (strs s)(brk s := t)\<rparr>)"
  by (simp add: strdup_ad_def ad_strdup_def c_alloc_def ret_def)

lemma util_fatal_ready [simp]:
  "message_buf s \<noteq> 0 \<Longrightarrow> util_fatal m s = (Inl (Exited exit_fatal), log_msg log_level_fatal m s)"
  using log_level_args_ready [of s here_file here_file log_level_fatal "''FATAL''" log_source_righack]
  by (simp add: util_fatal_def util_fatal_va_def guts_exit_def stop_def)

text \<open>The exit of the fatal path when the buffer has still to be allocated.\<close>

lemma autodie_enomem_exit:
  assumes "die_handler s = Some Autodie_handler"
  shows "fst (autodie_invoke die_call f ENOMEM m s) =
    Inl (if inside_autodie s then Aborted else Exited exit_nomem)"
  using assms
  by (simp add: autodie_invoke_def die_call_def autodie_handler_def whenE_def seqE_def bindE_def
      put_text_def guts_exit_def stop_def ret_def gets_def modify_def)

text \<open>Every way in which the allocation of the message buffer can fail.\<close>

lemma util_zalloc_fails:
  assumes "\<not> (alloc_ok s (brk s) \<and> brk s \<noteq> 0)" "0 < n"
  shows "\<exists>msg t. util_zalloc call n s = autodie_invoke call ''ad_calloc'' ENOMEM msg t \<and>
    inside_autodie t = inside_autodie s \<and> die_handler t = die_handler s \<and>
    autodie_exit_value t = autodie_exit_value s"
proof -
  obtain t where t: "c_alloc s = (Inr 0, t)" "inside_autodie t = inside_autodie s"
    "die_handler t = die_handler s" "autodie_exit_value t = autodie_exit_value s"
    using assms(1) by (cases "alloc_ok s (brk s)") (auto simp: c_alloc_def)
  have eq: "util_zalloc call n s = bindE c_alloc (\<lambda>p. if p = 0 then
      autodie_invoke call ''ad_calloc'' ENOMEM (Some (''Could not allocate '' @ show_nat 1 @ '' * ''
        @ show_nat n @ '' = '' @ show_nat (1 * n) @ '' bytes'')) else ret p) s"
    using assms(2) by (simp add: util_zalloc_def ad_calloc_def whenE_def del: One_nat_def)
  show ?thesis unfolding eq by (subst bindE_Inr, rule t(1), subst if_P, rule refl) (use t(2-4) in blast)
qed

lemma die_fn_only: "h = Autodie_handler"
  by (cases h) simp

lemma autodie_no_handler_exit:
  assumes "die_handler s = None"
  shows "fst (autodie_invoke call f e m s) =
    Inl (if inside_autodie s then Aborted else Exited (autodie_exit_value s))"
  using assms
  by (simp add: autodie_invoke_def seqE_def bindE_def put_text_def stop_def ret_def gets_def modify_def)

section \<open>Properties\<close>

text \<open>C26. The fatal path never returns, whatever the state, and its exit status says why: the
  fatal status when the message can be written, the out-of-memory status (or the status of
  autodie, where no handler is registered) when the log buffer cannot be allocated, and an
  abort when that happens inside the handler itself.\<close>

theorem util_fatal_exit:
  "fst (util_fatal m s :: (halt + 'r) \<times> 'z log_state_scheme) = Inl
     (if message_buf s = 0 \<and> current_level s \<le> log_level_fatal \<and> fst (c_alloc s) = Inr 0
      then (if inside_autodie s then Aborted
            else case die_handler s of None \<Rightarrow> Exited (autodie_exit_value s)
              | Some h \<Rightarrow> Exited exit_nomem)
      else Exited exit_fatal)"
proof -
  have size: "0 < CONFIG_LOG_SIZE" by (simp add: CONFIG_LOG_SIZE_def)
  have alloc: "fst (c_alloc s) = Inr 0 \<longleftrightarrow> \<not> (alloc_ok s (brk s) \<and> brk s \<noteq> 0)"
    by (auto simp: c_alloc_def)
  consider "message_buf s \<noteq> 0" | "log_level_fatal < current_level s"
    | "message_buf s = 0" "\<not> log_level_fatal < current_level s" "alloc_ok s (brk s) \<and> brk s \<noteq> 0"
    | "message_buf s = 0" "\<not> log_level_fatal < current_level s" "\<not> (alloc_ok s (brk s) \<and> brk s \<noteq> 0)"
    by blast
  then show ?thesis
  proof cases
    case 1
    then show ?thesis by simp
  next
    case 2
    then show ?thesis
      by (simp add: util_fatal_def util_fatal_va_def guts_exit_def stop_def log_level_args_quiet)
  next
    case 3
    let ?t = "s\<lparr>brk := Suc (brk s), live := insert (brk s) (live s)\<rparr>"
    let ?u = "?t\<lparr>message_buf := brk s, message_text := []\<rparr>"
    have z: "util_zalloc die_call CONFIG_LOG_SIZE s = (Inr (brk s), ?t)"
      using 3 zalloc_ready [of s CONFIG_LOG_SIZE] size by (simp add: zalloc_def)
    have "log_level_args die_call log_source_righack log_level_fatal (Some here_func) (Some here_file) 0 m s =
        log_level_args die_call log_source_righack log_level_fatal (Some here_func) (Some here_file) 0 m ?u"
      using z 3 by (simp add: log_level_args_def log_get_current_level_def whenE_def modify_def
          seqE_def bindE_def gets_def ret_def)
    then have "util_fatal m s = (util_fatal m ?u :: (halt + 'r) \<times> _)"
      by (simp add: util_fatal_def util_fatal_va_def seqE_def bindE_def)
    with 3 show ?thesis by (auto simp: alloc)
  next
    case 4
    then obtain msg t where z: "util_zalloc die_call CONFIG_LOG_SIZE s = autodie_invoke die_call ''ad_calloc'' ENOMEM msg t"
      and t: "inside_autodie t = inside_autodie s" "die_handler t = die_handler s"
        "autodie_exit_value t = autodie_exit_value s"
      using util_zalloc_fails [OF 4(3) size, of die_call] by blast
    have "fst (autodie_invoke die_call ''ad_calloc'' ENOMEM msg t :: (halt + nat) \<times> _) =
        Inl (if inside_autodie s then Aborted else case die_handler s of None \<Rightarrow> Exited (autodie_exit_value s)
          | Some h \<Rightarrow> Exited exit_nomem)"
      using t autodie_enomem_exit [of t "''ad_calloc''" msg]
        autodie_no_handler_exit [of t die_call "''ad_calloc''" ENOMEM msg]
      by (cases "die_handler s") (auto intro: die_fn.exhaust simp: die_fn_only)
    then show ?thesis using 4 z
      by (auto simp: alloc util_fatal_def util_fatal_va_def log_level_args_def log_get_current_level_def whenE_def
          seqE_def bindE_def gets_def ret_def split: prod.splits)
  qed
qed

text \<open>C34. What one call of the logger writes, once the buffer exists: nothing when the level is
  below the current level, otherwise exactly one line, to the error stream from the level
  \<open>warn\<close> on and to the output stream below it, with the message cut to the buffer. Nothing
  else of the console or of the memory changes.\<close>

theorem log_line_delivery:
  assumes "message_buf s \<noteq> 0" and "level \<in> set log_levels"
  shows "\<exists>t. log_at level m s = (Inr (), t) \<and>
    console t = console s @
      (if level < current_level s then []
       else [(if log_level_warn \<le> level then Stderr else Stdout,
              log_line ''righack'' (the (log_levelname level)) here_file 0 here_func
                (take (CONFIG_LOG_SIZE - 1) m))]) \<and>
    live t = live s \<and> brk t = brk s"
proof -
  obtain ln where ln: "log_levelname level = Some ln"
    using assms(2) by (auto simp: log_levels_def)
  define r :: string where "r = ''righack''"
  have r: "log_sourcename log_source_righack = Some r" by (simp add: r_def)
  show ?thesis
    unfolding log_at_ready [OF assms(1) ln]
    by (rule exI, rule conjI, rule refl) (simp add: log_upd_def r r_def)
qed

definition sample_log :: log_state where
  "sample_log = \<lparr>alloc_ok = (\<lambda>_. True), strerror = (\<lambda>_. []), brk = 2, live = {1}, strs = (\<lambda>_. []),
     console = [], die_handler = Some Autodie_handler, autodie_exit_value = 1, inside_autodie = False,
     current_level = log_level_warn, message_buf = 1, message_text = []\<rparr>"

theorem log_line_delivery_witness:
  "\<exists>t. log_at log_level_error ''x'' sample_log = (Inr (), t) \<and> length (console t) = 1"
  using log_line_delivery [of sample_log log_level_error "''x''"]
  by (auto simp: sample_log_def log_levels_def log_level_defs)

end
