(* ===== verification/Util.thy ===== *)
theory Util
  imports Fatal
begin

unbundle bit_operations_syntax

text \<open>
  Model of the rest of \<^verbatim>\<open>src/util.c\<close> and the interface to the operating system. The system
  calls are code outside the repository: they are the fields of the record \<open>posix\<close>, an
  argument of every definition that makes a system call, over an abstract state \<open>'w\<close> of
  everything outside the process. The state of the process gets a field \<open>world\<close> for it.
  A call returns what the C call returns (its result, the buffer it fills, \<open>errno\<close> where
  the code looks at it) and the new outside state.
\<close>

record 'w world_state = log_state +
  world :: 'w

record termios =
  c_lflag :: "32 word"

record 'w posix =
  os_readlink :: "string \<Rightarrow> nat \<Rightarrow> 'w \<Rightarrow> int \<times> string"
  os_fcntl_getfl :: "int \<Rightarrow> 'w \<Rightarrow> int"
  os_fcntl_setfl :: "int \<Rightarrow> int \<Rightarrow> 'w \<Rightarrow> int \<times> 'w"
  os_openpty :: "'w \<Rightarrow> (int \<times> int \<times> int \<times> string) \<times> 'w"
  os_ioctl_tiocpkt :: "int \<Rightarrow> int \<Rightarrow> 'w \<Rightarrow> int \<times> 'w"
  os_tcgetattr :: "int \<Rightarrow> 'w \<Rightarrow> int \<times> termios"
  os_tcsetattr :: "int \<Rightarrow> termios \<Rightarrow> 'w \<Rightarrow> int \<times> 'w"
  os_ioctl_tiocmget :: "int \<Rightarrow> 'w \<Rightarrow> int \<times> 32 word"
  os_read :: "int \<Rightarrow> nat \<Rightarrow> 'w \<Rightarrow> (int \<times> 8 word list) \<times> 'w"
  os_lstat :: "string \<Rightarrow> 'w \<Rightarrow> int \<times> int \<times> 32 word"
  os_unlink :: "string \<Rightarrow> 'w \<Rightarrow> int \<times> 'w"
  os_symlink :: "string \<Rightarrow> string \<Rightarrow> 'w \<Rightarrow> int \<times> 'w"

definition PATH_MAX :: nat where "PATH_MAX = 4096"

definition O_NONBLOCK :: int where "O_NONBLOCK = 2048"

text \<open>A system call that changes the outside state, as a step of the program.\<close>

definition syscall :: "('w \<Rightarrow> 'a \<times> 'w) \<Rightarrow> (('w, 'z) world_state_scheme, 'a) prog" where
  "syscall f s = (case f (world s) of (x, w) \<Rightarrow> (Inr x, s\<lparr>world := w\<rparr>))"

definition sysread :: "('w \<Rightarrow> 'a) \<Rightarrow> (('w, 'z) world_state_scheme, 'a) prog" where
  "sysread f s = (Inr (f (world s)), s)"

definition util_strndup :: "string \<Rightarrow> nat \<Rightarrow> ('z log_state_scheme, nat) prog" where
  "util_strndup str n =
     bindE c_alloc (\<lambda>p.
     if p = 0 then util_fatal ''Could not strndup(): %m''
     else seqE (modify (\<lambda>s. s\<lparr>strs := (strs s)(p := take n str)\<rparr>)) (ret p))"

definition util_strdup :: "string \<Rightarrow> ('z log_state_scheme, nat) prog" where
  "util_strdup str =
     bindE c_alloc (\<lambda>p.
     if p = 0 then util_fatal ''Could not strdup(): %m''
     else seqE (modify (\<lambda>s. s\<lparr>strs := (strs s)(p := str)\<rparr>)) (ret p))"

text \<open>The buffer at \<open>p\<close> holds the bytes \<open>strs s p\<close>; copying more is an over-read.\<close>

definition util_memdup :: "nat \<Rightarrow> nat \<Rightarrow> ('z log_state_scheme, nat) prog" where
  "util_memdup p len =
     bindE (zalloc len) (\<lambda>r.
     seqE (deref p)
     (bindE (gets (\<lambda>s. strs s p)) (\<lambda>bytes.
     if length bytes < len then stop (Undefined OutOfBounds)
     else seqE (modify (\<lambda>s. s\<lparr>strs := (strs s)(r := take len bytes)\<rparr>)) (ret r))))"

text \<open>The static buffer has \<open>PATH_MAX + 1\<close> bytes; the terminating NUL goes to \<open>target[size]\<close>.\<close>

definition util_get_link_target ::
  "'w posix \<Rightarrow> string \<Rightarrow> (('w, 'z) world_state_scheme, string option) prog" where
  "util_get_link_target os path =
     bindE (sysread (os_readlink os path PATH_MAX)) (\<lambda>(sz, target).
     if sz < 0 then ret None
     else if PATH_MAX + 1 \<le> nat sz then stop (Undefined OutOfBounds)
     else ret (Some (take (nat sz) target)))"

definition util_set_nonblock :: "'w posix \<Rightarrow> int \<Rightarrow> (('w, 'z) world_state_scheme, unit) prog" where
  "util_set_nonblock os fd =
     bindE (sysread (os_fcntl_getfl os fd)) (\<lambda>flags.
     seqE (whenE (flags < 0) (util_fatal (msg [''could not fcntl('', show_int fd, '', F_GETFL, 0): %m''])))
     (bindE (syscall (os_fcntl_setfl os fd (flags OR O_NONBLOCK))) (\<lambda>rc.
     whenE (rc < 0) (util_fatal (msg [''could not fcntl('', show_int fd, '', F_SETFL, O_NONBLOCK): %m''])))))"

section \<open>What the code relies on\<close>

text \<open>POSIX: \<open>readlink\<close> returns \<open>-1\<close> or the number of bytes it stored, at most the size it
  was given.\<close>

definition readlink_contract :: "'w posix \<Rightarrow> bool" where
  "readlink_contract os \<longleftrightarrow>
     (\<forall>path n w sz t. os_readlink os path n w = (sz, t) \<longrightarrow>
        sz = -1 \<or> (0 \<le> sz \<and> nat sz = length t \<and> length t \<le> n))"

lemma readlink_contractD:
  "readlink_contract os \<Longrightarrow> os_readlink os path n w = (sz, t) \<Longrightarrow>
   sz = -1 \<or> (0 \<le> sz \<and> nat sz = length t \<and> length t \<le> n)"
  unfolding readlink_contract_def by blast

lemma log_upd_world [simp]: "world (log_upd src l f p n m s) = world s"
  by (simp add: log_upd_def)

lemma syscall_simp [simp]: "f (world s) = (x, w) \<Longrightarrow> syscall f s = (Inr x, s\<lparr>world := w\<rparr>)"
  by (simp add: syscall_def)

lemma bindE_syscall [simp]:
  "bindE (syscall f) g s = (case f (world s) of (x, w) \<Rightarrow> g x (s\<lparr>world := w\<rparr>))"
  by (simp add: bindE_def syscall_def split: prod.splits)

lemma bindE_sysread [simp]: "bindE (sysread f) g s = g (f (world s)) s"
  by (simp add: bindE_def sysread_def)

lemma util_get_link_target_safe:
  assumes "readlink_contract os"
  shows "\<exists>r. util_get_link_target os path s = (Inr r, s) \<and>
    (\<forall>t. r = Some t \<longrightarrow> length t \<le> PATH_MAX \<and> snd (os_readlink os path PATH_MAX (world s)) = t)"
proof (cases "os_readlink os path PATH_MAX (world s)")
  case (Pair sz t)
  with readlink_contractD [OF assms Pair] show ?thesis
    by (auto simp: util_get_link_target_def ret_def)
qed

section \<open>Properties\<close>

text \<open>Reading the target of a symbolic link never writes past the static buffer: with a
  \<open>readlink\<close> that keeps its contract the call returns, with the null pointer or with exactly
  the bytes that were read, at most \<open>PATH_MAX\<close> of them.\<close>

theorem util_get_link_target_bounded:
  assumes "readlink_contract os"
  shows "\<exists>r. util_get_link_target os path s = (Inr r, s) \<and>
    (\<forall>t. r = Some t \<longrightarrow> length t \<le> PATH_MAX \<and> snd (os_readlink os path PATH_MAX (world s)) = t)"
  using util_get_link_target_safe [OF assms] .

text \<open>After \<open>util_set_nonblock\<close> has returned the descriptor had readable flags and was given
  those flags with \<open>O_NONBLOCK\<close> set; a failing \<open>fcntl\<close> ends the program.\<close>

theorem util_set_nonblock_effect:
  assumes "util_set_nonblock os fd s = (Inr (), t)"
  shows "0 \<le> os_fcntl_getfl os fd (world s) \<and>
    (\<exists>rc. 0 \<le> rc \<and> os_fcntl_setfl os fd (os_fcntl_getfl os fd (world s) OR O_NONBLOCK) (world s) = (rc, world t)) \<and>
    t = s\<lparr>world := world t\<rparr>"
proof -
  have nonneg: "\<not> os_fcntl_getfl os fd (world s) < 0"
    using assms by (auto simp: util_set_nonblock_def whenE_def)
  obtain rc w where rc: "os_fcntl_setfl os fd (os_fcntl_getfl os fd (world s) OR O_NONBLOCK) (world s) = (rc, w)"
    by fastforce
  then have "whenE (rc < 0) (util_fatal (msg [''could not fcntl('', show_int fd, '', F_SETFL, O_NONBLOCK): %m'']))
      (s\<lparr>world := w\<rparr>) = (Inr (), t)"
    using assms nonneg by (simp add: util_set_nonblock_def whenE_def)
  then have "\<not> rc < 0" "t = s\<lparr>world := w\<rparr>"
    by (auto simp: whenE_def ret_def split: if_splits)
  with nonneg rc show ?thesis by simp
qed

text \<open>The system calls of a small machine: one symbolic link, flags that can be set.\<close>

definition sample_posix :: "int posix" where
  "sample_posix = \<lparr>
     os_readlink = (\<lambda>p n w. if p = ''tty'' \<and> 10 \<le> n then (10, ''/dev/pts/3'') else (-1, [])),
     os_fcntl_getfl = (\<lambda>fd w. w),
     os_fcntl_setfl = (\<lambda>fd f w. (0, f)),
     os_openpty = (\<lambda>w. ((0, 3, 4, ''/dev/pts/3''), w)),
     os_ioctl_tiocpkt = (\<lambda>fd v w. (0, w)),
     os_tcgetattr = (\<lambda>fd w. (0, \<lparr>c_lflag = 0\<rparr>)),
     os_tcsetattr = (\<lambda>fd t w. (0, w)),
     os_ioctl_tiocmget = (\<lambda>fd w. (0, 0)),
     os_read = (\<lambda>fd n w. ((1, [0x80]), w)),
     os_lstat = (\<lambda>p w. (-1, 2, 0)),
     os_unlink = (\<lambda>p w. (0, w)),
     os_symlink = (\<lambda>a b w. (0, w))\<rparr>"

definition sample_world :: "'w \<Rightarrow> 'w world_state" where
  "sample_world w = log_state.extend sample_log \<lparr>world = w\<rparr>"

lemma sample_readlink: "readlink_contract sample_posix"
  by (auto simp: readlink_contract_def sample_posix_def split: if_splits)

theorem util_get_link_target_bounded_witness:
  "fst (util_get_link_target sample_posix ''tty'' (sample_world 0)) = Inr (Some ''/dev/pts/3'')"
  using util_get_link_target_bounded [OF sample_readlink, of "''tty''" "sample_world 0"]
  by (auto simp: util_get_link_target_def sample_posix_def PATH_MAX_def ret_def)

theorem util_set_nonblock_effect_witness:
  "\<exists>t. util_set_nonblock sample_posix 3 (sample_world 2) = (Inr (), t) \<and>
    0 \<le> os_fcntl_getfl sample_posix 3 (world (sample_world (2 :: int)))"
proof -
  have "util_set_nonblock sample_posix 3 (sample_world 2) = (Inr (), sample_world 2\<lparr>world := 2050\<rparr>)"
    by (simp add: util_set_nonblock_def sample_posix_def sample_world_def log_state.defs whenE_def
        ret_def O_NONBLOCK_def)
  with util_set_nonblock_effect [OF this] show ?thesis by blast
qed

end
