(* ===== verification/Runloop.thy ===== *)
theory Runloop
  imports Util
begin

text \<open>
  Model of \<^verbatim>\<open>src/runloop.c\<close> and \<^verbatim>\<open>src/runloop.h\<close>: deferred jobs, timers and poll handles on
  top of libuv. libuv is outside the repository; its functions are the fields of the record
  \<open>libuv\<close>, acting on the outside state. A handle is named by its address, which is the
  address of the private structure it is the first member of.

  The thread-local variables become fields of \<open>runloop_state\<close> and each structure type gets
  its own heap (a function from addresses), with the shared set of allocated addresses
  deciding which of them may be touched. A function pointer is a value of the type \<open>'cb\<close>;
  where the loop calls one, the code behind it is the argument \<open>call\<close>.
\<close>

datatype close_cb = Close_none | Cleanup_handle_cb | Runloop_timer_close_cb | Runloop_poll_close_cb

record 'w libuv =
  uv_loop_init :: "nat \<Rightarrow> 'w \<Rightarrow> 'w"
  uv_loop_close :: "nat \<Rightarrow> 'w \<Rightarrow> int \<times> 'w"
  uv_stop :: "nat \<Rightarrow> 'w \<Rightarrow> 'w"
  uv_prepare_init :: "nat \<Rightarrow> nat \<Rightarrow> 'w \<Rightarrow> 'w"
  uv_prepare_start :: "nat \<Rightarrow> 'w \<Rightarrow> 'w"
  uv_prepare_stop :: "nat \<Rightarrow> 'w \<Rightarrow> 'w"
  uv_timer_init :: "nat \<Rightarrow> nat \<Rightarrow> 'w \<Rightarrow> 'w"
  uv_timer_start :: "nat \<Rightarrow> 64 word \<Rightarrow> 64 word \<Rightarrow> 'w \<Rightarrow> 'w"
  uv_timer_stop :: "nat \<Rightarrow> 'w \<Rightarrow> 'w"
  uv_poll_init :: "nat \<Rightarrow> nat \<Rightarrow> int \<Rightarrow> 'w \<Rightarrow> 'w"
  uv_poll_start :: "nat \<Rightarrow> 32 word \<Rightarrow> 'w \<Rightarrow> 'w"
  uv_signal_init :: "nat \<Rightarrow> nat \<Rightarrow> 'w \<Rightarrow> 'w"
  uv_signal_start :: "nat \<Rightarrow> 'w \<Rightarrow> 'w"
  uv_signal_stop :: "nat \<Rightarrow> 'w \<Rightarrow> 'w"
  uv_close :: "nat \<Rightarrow> close_cb \<Rightarrow> 'w \<Rightarrow> 'w"
  uv_is_active :: "nat \<Rightarrow> 'w \<Rightarrow> bool"
  uv_is_closing :: "nat \<Rightarrow> 'w \<Rightarrow> bool"
  uv_strerror :: "int \<Rightarrow> string"
  UV_EBUSY :: int
  UV_READABLE :: "32 word"
  UV_WRITABLE :: "32 word"
  UV_PRIORITIZED :: "32 word"

record 'cb run_once_private =
  ro_should_run :: bool
  ro_cb :: 'cb
  ro_context :: nat

record run_once_list =
  rl_run :: nat
  rl_next :: nat

record 'cb run_once =
  r1_cb :: 'cb
  r1_context :: nat
  r1_private :: nat

record 'cb runloop_timer =
  rt_cb :: 'cb
  rt_context :: nat
  rt_private :: nat

record runloop_timer_private =
  tp_data :: nat
  tp_initial :: "64 word"
  tp_repeat :: "64 word"

record 'cb runloop_poll =
  rp_cb :: 'cb
  rp_context :: nat
  rp_private :: nat

record runloop_poll_private =
  pp_data :: nat
  pp_fd :: int

record ('w, 'cb) runloop_state = "'w world_state" +
  thread_loop :: nat
  in_runloop_context :: bool
  run_once_queue :: nat
  run_once_last :: nat
  run_once_prepare :: nat
  run_once_prepare_started :: bool
  int_signal :: nat
  ro_jobs :: "nat \<Rightarrow> 'cb run_once_private"
  ro_list :: "nat \<Rightarrow> run_once_list"
  timers :: "nat \<Rightarrow> 'cb runloop_timer"
  timer_privs :: "nat \<Rightarrow> runloop_timer_private"
  polls :: "nat \<Rightarrow> 'cb runloop_poll"
  poll_privs :: "nat \<Rightarrow> runloop_poll_private"

text \<open>The size of a structure is only ever compared with 0.\<close>

abbreviation sizeof :: nat where "sizeof \<equiv> 8"

definition uv_do :: "('w \<Rightarrow> 'w) \<Rightarrow> (('w, 'z) world_state_scheme, unit) prog" where
  [prog_simps]: "uv_do f = modify (\<lambda>s. s\<lparr>world := f (world s)\<rparr>)"

section \<open>Setting up\<close>

definition runloop_bootstrap :: "'w libuv \<Rightarrow> (('w, 'cb, 'z) runloop_state_scheme, unit) prog" where
  "runloop_bootstrap uv =
     seqE (log_debug ''bootstrapping the runloop'')
     (bindE (zalloc sizeof) (\<lambda>l.
     seqE (modify (\<lambda>s. s\<lparr>thread_loop := l\<rparr>))
     (seqE (uv_do (uv_loop_init uv l))
     (bindE (zalloc sizeof) (\<lambda>h.
     seqE (modify (\<lambda>s. s\<lparr>run_once_prepare := h\<rparr>))
     (uv_do (uv_prepare_init uv l h)))))))"

definition cleanup_handle_cb :: "nat \<Rightarrow> (('w, 'cb, 'z) runloop_state_scheme, unit) prog" where
  "cleanup_handle_cb handle =
     seqE (c_free handle)
     (seqE (log_trace ''freed a handle'')
     (bindE (gets run_once_prepare) (\<lambda>p.
     whenE (handle = p)
       (seqE (log_trace ''setting run_once_prepare to null'')
        (modify (\<lambda>s. s\<lparr>run_once_prepare := 0\<rparr>))))))"

definition walk_runloop_cb :: "'w libuv \<Rightarrow> nat \<Rightarrow> (('w, 'cb, 'z) runloop_state_scheme, unit) prog" where
  "walk_runloop_cb uv handle =
     bindE (sysread (uv_is_closing uv handle)) (\<lambda>closing.
     whenE (\<not> closing)
       (seqE (log_trace ''closing handle in runloop walker'')
        (uv_do (uv_close uv handle Cleanup_handle_cb))))"

definition int_signal_cb :: "'w libuv \<Rightarrow> (('w, 'cb, 'z) runloop_state_scheme, unit) prog" where
  "int_signal_cb uv =
     seqE (log_info ''Received INT signal, shutting down'')
     (bindE (gets thread_loop) (\<lambda>l. uv_do (uv_stop uv l)))"

definition runloop_has_control :: "(('w, 'cb, 'z) runloop_state_scheme, bool) prog" where
  "runloop_has_control = gets in_runloop_context"

section \<open>Jobs that run once\<close>

definition runloop_run_later ::
  "'w libuv \<Rightarrow> 'cb \<Rightarrow> nat \<Rightarrow> (('w, 'cb, 'z) runloop_state_scheme, 'cb run_once) prog" where
  "runloop_run_later uv cb context =
     bindE (zalloc sizeof) (\<lambda>new_job.
     bindE (zalloc sizeof) (\<lambda>queue_entry.
     bindE (ret \<lparr>r1_cb = cb, r1_context = context, r1_private = new_job\<rparr>) (\<lambda>retval.
     seqE (log_trace ''scheduled job to run at the next runloop iteration'')
     (seqE (modify (\<lambda>s. s\<lparr>ro_jobs := (ro_jobs s)(new_job :=
              \<lparr>ro_should_run = True, ro_cb = r1_cb retval, ro_context = r1_context retval\<rparr>)\<rparr>))
     (seqE (modify (\<lambda>s. s\<lparr>ro_list := (ro_list s)(queue_entry := \<lparr>rl_run = new_job, rl_next = 0\<rparr>)\<rparr>))
     (bindE (gets run_once_queue) (\<lambda>queue.
     seqE (if queue = 0 then
             modify (\<lambda>s. s\<lparr>run_once_queue := queue_entry, run_once_last := queue_entry\<rparr>)
           else
             bindE (gets run_once_last) (\<lambda>last.
             seqE (deref last)
             (seqE (modify (\<lambda>s. s\<lparr>ro_list := (ro_list s)(last := (ro_list s last)\<lparr>rl_next := queue_entry\<rparr>)\<rparr>))
             (modify (\<lambda>s. s\<lparr>run_once_last := queue_entry\<rparr>)))))
     (bindE (gets run_once_prepare_started) (\<lambda>started.
     seqE (whenE (\<not> started)
             (bindE (gets run_once_prepare) (\<lambda>h. uv_do (uv_prepare_start uv h))))
     (ret retval))))))))))"

text \<open>
  The loop of \<open>run_once_prepare_cb\<close>. A callback may append to the list that is being
  walked, so the loop need not end; the first argument bounds the number of jobs run.
\<close>

type_synonym ('s, 'cb) cb_call = "'cb \<Rightarrow> bool \<Rightarrow> nat \<Rightarrow> ('s, unit) prog"

fun run_jobs ::
  "(('w, 'cb, 'z) runloop_state_scheme, 'cb) cb_call \<Rightarrow> nat \<Rightarrow> nat
   \<Rightarrow> (('w, 'cb, 'z) runloop_state_scheme, unit) prog" where
  "run_jobs call fuel p =
     (if p = 0 then ret ()
      else case fuel of
        0 \<Rightarrow> stop OutOfFuel
      | Suc fuel' \<Rightarrow>
          seqE (deref p)
          (bindE (gets (\<lambda>s. rl_run (ro_list s p))) (\<lambda>run.
          seqE (deref run)
          (bindE (gets (\<lambda>s. ro_jobs s run)) (\<lambda>job.
          seqE (call (ro_cb job) (ro_should_run job) (ro_context job))
          (seqE (deref p)
          (bindE (gets (\<lambda>s. rl_next (ro_list s p))) (\<lambda>next.
          seqE (log_trace ''running a run_once job'')
          (seqE (deref p)
          (bindE (gets (\<lambda>s. rl_run (ro_list s p))) (\<lambda>run'.
          seqE (c_free run')
          (seqE (c_free p)
          (run_jobs call fuel' next)))))))))))))"

declare run_jobs.simps [simp del]

definition run_once_prepare_cb ::
  "'w libuv \<Rightarrow> (('w, 'cb, 'z) runloop_state_scheme, 'cb) cb_call \<Rightarrow> nat \<Rightarrow> nat
   \<Rightarrow> (('w, 'cb, 'z) runloop_state_scheme, unit) prog" where
  "run_once_prepare_cb uv call fuel prepare =
     seqE (log_trace ''Inside the run once prepare handler'')
     (bindE (gets run_once_queue) (\<lambda>p.
     seqE (run_jobs call fuel p)
     (seqE (modify (\<lambda>s. s\<lparr>run_once_queue := 0\<rparr>))
     (seqE (uv_do (uv_prepare_stop uv prepare))
     (modify (\<lambda>s. s\<lparr>run_once_prepare_started := False\<rparr>))))))"

section \<open>Timers\<close>

definition runloop_timer_create ::
  "'w libuv \<Rightarrow> 'cb \<Rightarrow> nat \<Rightarrow> (('w, 'cb, 'z) runloop_state_scheme, nat) prog" where
  "runloop_timer_create uv cb context =
     bindE (zalloc sizeof) (\<lambda>timer.
     bindE (zalloc sizeof) (\<lambda>private.
     seqE (modify (\<lambda>s. s\<lparr>timers := (timers s)(timer :=
             \<lparr>rt_cb = cb, rt_context = context, rt_private = private\<rparr>)\<rparr>))
     (bindE (gets thread_loop) (\<lambda>l.
     seqE (uv_do (uv_timer_init uv l private))
     (seqE (modify (\<lambda>s. s\<lparr>timer_privs := (timer_privs s)(private :=
             \<lparr>tp_data = timer, tp_initial = 0, tp_repeat = 0\<rparr>)\<rparr>))
     (ret timer))))))"

text \<open>The two callbacks given to libuv: they find the timer through the \<open>data\<close> member and
  pass the timer itself as the context.\<close>

definition runloop_timer_close_cb ::
  "(('w, 'cb, 'z) runloop_state_scheme, 'cb) cb_call \<Rightarrow> nat
   \<Rightarrow> (('w, 'cb, 'z) runloop_state_scheme, unit) prog" where
  "runloop_timer_close_cb call uv_timer =
     seqE (deref uv_timer)
     (bindE (gets (\<lambda>s. tp_data (timer_privs s uv_timer))) (\<lambda>timer.
     seqE (deref timer)
     (bindE (gets (\<lambda>s. rt_cb (timers s timer))) (\<lambda>cb.
     seqE (call cb False timer)
     (seqE (deref timer)
     (bindE (gets (\<lambda>s. rt_private (timers s timer))) (\<lambda>private.
     seqE (c_free private)
     (c_free timer))))))))"

definition runloop_timer_run_cb ::
  "(('w, 'cb, 'z) runloop_state_scheme, 'cb) cb_call \<Rightarrow> nat
   \<Rightarrow> (('w, 'cb, 'z) runloop_state_scheme, unit) prog" where
  "runloop_timer_run_cb call uv_timer =
     seqE (deref uv_timer)
     (bindE (gets (\<lambda>s. tp_data (timer_privs s uv_timer))) (\<lambda>timer.
     seqE (deref timer)
     (bindE (gets (\<lambda>s. rt_cb (timers s timer))) (\<lambda>cb.
     call cb True timer))))"

text \<open>\<open>timer->private\<close>, with both structures checked.\<close>

definition timer_private :: "nat \<Rightarrow> (('w, 'cb, 'z) runloop_state_scheme, nat) prog" where
  "timer_private timer =
     seqE (deref timer)
     (bindE (gets (\<lambda>s. rt_private (timers s timer))) (\<lambda>private.
     seqE (deref private) (ret private)))"

definition runloop_timer_destroy ::
  "'w libuv \<Rightarrow> nat \<Rightarrow> (('w, 'cb, 'z) runloop_state_scheme, unit) prog" where
  "runloop_timer_destroy uv timer =
     bindE (timer_private timer) (\<lambda>private.
     bindE (sysread (uv_is_active uv private)) (\<lambda>active.
     seqE (whenE active (util_fatal ''attempt to destroy a timer that is active''))
     (uv_do (uv_close uv private Runloop_timer_close_cb))))"

definition runloop_timer_schedule ::
  "'w libuv \<Rightarrow> nat \<Rightarrow> 64 word \<Rightarrow> 64 word \<Rightarrow> (('w, 'cb, 'z) runloop_state_scheme, unit) prog" where
  "runloop_timer_schedule uv timer initial repeat =
     bindE (timer_private timer) (\<lambda>private.
     seqE (modify (\<lambda>s. s\<lparr>timer_privs := (timer_privs s)(private :=
             (timer_privs s private)\<lparr>tp_initial := initial, tp_repeat := repeat\<rparr>)\<rparr>))
     (bindE (gets (\<lambda>s. timer_privs s private)) (\<lambda>tp.
     uv_do (uv_timer_start uv private (tp_initial tp) (tp_repeat tp)))))"

definition runloop_timer_reset ::
  "'w libuv \<Rightarrow> nat \<Rightarrow> (('w, 'cb, 'z) runloop_state_scheme, unit) prog" where
  "runloop_timer_reset uv timer =
     bindE (timer_private timer) (\<lambda>private.
     bindE (sysread (uv_is_active uv private)) (\<lambda>active.
     seqE (whenE (\<not> active) (util_fatal ''attempt to reset a timer that is not active''))
     (bindE (gets (\<lambda>s. timer_privs s private)) (\<lambda>tp.
     uv_do (uv_timer_start uv private (tp_initial tp) (tp_repeat tp))))))"

definition runloop_timer_cancel ::
  "'w libuv \<Rightarrow> nat \<Rightarrow> (('w, 'cb, 'z) runloop_state_scheme, unit) prog" where
  "runloop_timer_cancel uv timer =
     bindE (timer_private timer) (\<lambda>private.
     bindE (sysread (uv_is_active uv private)) (\<lambda>active.
     seqE (whenE (\<not> active) (util_fatal ''Attempt to cancel a timer that is not active''))
     (uv_do (uv_timer_stop uv private))))"

section \<open>Poll handles\<close>

definition PEVENT_ERROR :: "64 word" where "PEVENT_ERROR = push_bit 0 1"
definition PEVENT_READ :: "64 word" where "PEVENT_READ = push_bit 1 1"
definition PEVENT_WRITE :: "64 word" where "PEVENT_WRITE = push_bit 2 1"
definition PEVENT_PRIO :: "64 word" where "PEVENT_PRIO = push_bit 3 1"

lemmas pevent_defs = PEVENT_ERROR_def PEVENT_READ_def PEVENT_WRITE_def PEVENT_PRIO_def

definition runloop_poll_create ::
  "'w libuv \<Rightarrow> int \<Rightarrow> 'cb \<Rightarrow> (('w, 'cb, 'z) runloop_state_scheme, nat) prog" where
  "runloop_poll_create uv fd cb =
     seqE (log_info ''creating a poll dohicky'')
     (bindE (zalloc sizeof) (\<lambda>new_poll.
     bindE (zalloc sizeof) (\<lambda>private.
     seqE (modify (\<lambda>s. s\<lparr>polls := (polls s)(new_poll :=
             \<lparr>rp_cb = cb, rp_context = 0, rp_private = private\<rparr>)\<rparr>))
     (bindE (gets thread_loop) (\<lambda>l.
     seqE (uv_do (uv_poll_init uv l private fd))
     (seqE (modify (\<lambda>s. s\<lparr>poll_privs := (poll_privs s)(private :=
             \<lparr>pp_data = new_poll, pp_fd = fd\<rparr>)\<rparr>))
     (ret new_poll)))))))"

type_synonym ('s, 'cb) poll_call = "'cb \<Rightarrow> nat \<Rightarrow> 64 word \<Rightarrow> ('s, unit) prog"

definition poll_of :: "nat \<Rightarrow> (('w, 'cb, 'z) runloop_state_scheme, nat) prog" where
  "poll_of uv_poll =
     seqE (deref uv_poll)
     (bindE (gets (\<lambda>s. pp_data (poll_privs s uv_poll))) (\<lambda>poll.
     seqE (deref poll) (ret poll)))"

definition runloop_poll_close_cb ::
  "(('w, 'cb, 'z) runloop_state_scheme, 'cb) poll_call \<Rightarrow> nat
   \<Rightarrow> (('w, 'cb, 'z) runloop_state_scheme, unit) prog" where
  "runloop_poll_close_cb call uv_poll =
     bindE (poll_of uv_poll) (\<lambda>poll.
     bindE (gets (\<lambda>s. rp_cb (polls s poll))) (\<lambda>cb.
     seqE (call cb poll 0)
     (seqE (deref poll)
     (bindE (gets (\<lambda>s. rp_private (polls s poll))) (\<lambda>private.
     seqE (c_free private)
     (c_free poll))))))"

text \<open>\<open>poll->private\<close>, with both structures checked.\<close>

definition poll_private :: "nat \<Rightarrow> (('w, 'cb, 'z) runloop_state_scheme, nat) prog" where
  "poll_private poll =
     seqE (deref poll)
     (bindE (gets (\<lambda>s. rp_private (polls s poll))) (\<lambda>private.
     seqE (deref private) (ret private)))"

definition runloop_poll_destroy ::
  "'w libuv \<Rightarrow> nat \<Rightarrow> (('w, 'cb, 'z) runloop_state_scheme, unit) prog" where
  "runloop_poll_destroy uv poll =
     bindE (poll_private poll) (\<lambda>private.
     bindE (sysread (uv_is_active uv private)) (\<lambda>active.
     seqE (whenE active (util_fatal ''attempt to destroy a poll handle that is active''))
     (uv_do (uv_close uv private Runloop_poll_close_cb))))"

text \<open>The two translations of event masks.\<close>

definition pevents_of_uv :: "'w libuv \<Rightarrow> 32 word \<Rightarrow> 64 word" where
  "pevents_of_uv uv uv_events =
     (let events = 0;
          events = (if uv_events AND UV_READABLE uv \<noteq> 0 then events OR PEVENT_READ else events);
          events = (if uv_events AND UV_WRITABLE uv \<noteq> 0 then events OR PEVENT_WRITE else events);
          events = (if uv_events AND UV_PRIORITIZED uv \<noteq> 0 then events OR PEVENT_PRIO else events)
      in events)"

definition uv_of_pevents :: "'w libuv \<Rightarrow> 64 word \<Rightarrow> 32 word" where
  "uv_of_pevents uv events =
     (let uv_events = 0;
          uv_events = (if events AND PEVENT_READ \<noteq> 0 then uv_events OR UV_READABLE uv else uv_events);
          uv_events = (if events AND PEVENT_WRITE \<noteq> 0 then uv_events OR UV_WRITABLE uv else uv_events);
          uv_events = (if events AND PEVENT_PRIO \<noteq> 0 then uv_events OR UV_PRIORITIZED uv else uv_events)
      in uv_events)"

definition runloop_poll_run_cb ::
  "'w libuv \<Rightarrow> (('w, 'cb, 'z) runloop_state_scheme, 'cb) poll_call \<Rightarrow> nat \<Rightarrow> int \<Rightarrow> 32 word
   \<Rightarrow> (('w, 'cb, 'z) runloop_state_scheme, unit) prog" where
  "runloop_poll_run_cb uv call uv_poll uv_status uv_events =
     bindE (poll_of uv_poll) (\<lambda>poll.
     seqE (whenE (uv_status < 0) (util_fatal (msg [''Can not yet handle a uv poll error: '', uv_strerror uv uv_status])))
     (bindE (ret (pevents_of_uv uv uv_events)) (\<lambda>events.
     seqE (whenE (events = 0) (util_fatal ''libuv did not signal any events''))
     (bindE (gets (\<lambda>s. rp_cb (polls s poll))) (\<lambda>cb.
     call cb poll events)))))"

definition runloop_poll_start ::
  "'w libuv \<Rightarrow> nat \<Rightarrow> 64 word \<Rightarrow> (('w, 'cb, 'z) runloop_state_scheme, unit) prog" where
  "runloop_poll_start uv poll events =
     bindE (poll_private poll) (\<lambda>private.
     uv_do (uv_poll_start uv private (uv_of_pevents uv events)))"

end
