(* ===== verification/Runloop_Queue.thy ===== *)
theory Runloop_Queue
  imports Runloop
begin

text \<open>
  The run-once jobs of \<^verbatim>\<open>src/runloop.c\<close> as a first-in first-out queue. \<open>queue_rep s p js\<close>
  relates the linked list that starts at \<open>p\<close>, with its tail pointer, to the list of jobs it
  holds; scheduling a job is appending to that list, and one run of the prepare handler
  executes the jobs in order, including those scheduled meanwhile, releases every node and
  touches no freed memory.
\<close>

lemma log_upd_runloop [simp]:
  "thread_loop (log_upd src l f p n m s) = thread_loop s"
  "in_runloop_context (log_upd src l f p n m s) = in_runloop_context s"
  "run_once_queue (log_upd src l f p n m s) = run_once_queue s"
  "run_once_last (log_upd src l f p n m s) = run_once_last s"
  "run_once_prepare (log_upd src l f p n m s) = run_once_prepare s"
  "run_once_prepare_started (log_upd src l f p n m s) = run_once_prepare_started s"
  "int_signal (log_upd src l f p n m s) = int_signal s"
  "ro_jobs (log_upd src l f p n m s) = ro_jobs s"
  "ro_list (log_upd src l f p n m s) = ro_list s"
  "timers (log_upd src l f p n m s) = timers s"
  "timer_privs (log_upd src l f p n m s) = timer_privs s"
  "polls (log_upd src l f p n m s) = polls s"
  "poll_privs (log_upd src l f p n m s) = poll_privs s"
  by (simp_all add: log_upd_def)

section \<open>Linked segments\<close>

fun seg :: "(nat \<Rightarrow> run_once_list) \<Rightarrow> nat \<Rightarrow> nat list \<Rightarrow> bool" where
  "seg h p [] \<longleftrightarrow> p = 0"
| "seg h p (a # as) \<longleftrightarrow> p = a \<and> a \<noteq> 0 \<and> seg h (rl_next (h a)) as"

lemma seg_cong: "(\<And>a. a \<in> set as \<Longrightarrow> h a = h' a) \<Longrightarrow> seg h p as = seg h' p as"
  by (induction as arbitrary: p) auto

lemma seg_append_node:
  assumes "seg h p (as @ [l])" "b \<noteq> 0" "b \<notin> set (as @ [l])" "l \<notin> set as" "rl_next (h b) = 0"
  shows "seg (h(l := (h l)\<lparr>rl_next := b\<rparr>)) p (as @ [l, b])"
  using assms
proof (induction as arbitrary: p)
  case Nil
  then show ?case by auto
next
  case (Cons a as)
  then show ?case by auto
qed

definition node_jobs :: "('w, 'cb, 'z) runloop_state_scheme \<Rightarrow> nat list \<Rightarrow> 'cb run_once_private list" where
  "node_jobs s ns = map (\<lambda>a. ro_jobs s (rl_run (ro_list s a))) ns"

definition node_runs :: "('w, 'cb, 'z) runloop_state_scheme \<Rightarrow> nat list \<Rightarrow> nat list" where
  "node_runs s ns = map (\<lambda>a. rl_run (ro_list s a)) ns"

definition nodes_rep ::
  "('w, 'cb, 'z) runloop_state_scheme \<Rightarrow> nat \<Rightarrow> nat list \<Rightarrow> 'cb run_once_private list \<Rightarrow> bool" where
  "nodes_rep s p ns js \<longleftrightarrow>
     seg (ro_list s) p ns \<and> distinct (ns @ node_runs s ns) \<and>
     set (ns @ node_runs s ns) \<subseteq> live s \<and> node_jobs s ns = js \<and>
     (ns \<noteq> [] \<longrightarrow> run_once_last s = last ns)"

definition queue_rep ::
  "('w, 'cb, 'z) runloop_state_scheme \<Rightarrow> nat \<Rightarrow> 'cb run_once_private list \<Rightarrow> bool" where
  "queue_rep s p js \<longleftrightarrow>
     (\<exists>ns. nodes_rep s p ns js) \<and> (run_once_queue s = 0 \<longleftrightarrow> p = 0)"

definition the_job :: "'cb \<Rightarrow> nat \<Rightarrow> 'cb run_once_private" where
  "the_job cb context = \<lparr>ro_should_run = True, ro_cb = cb, ro_context = context\<rparr>"

section \<open>Scheduling a job\<close>

text \<open>The state after \<open>runloop_run_later\<close>.\<close>

definition later_upd ::
  "'w libuv \<Rightarrow> 'cb \<Rightarrow> nat \<Rightarrow> ('w, 'cb, 'z) runloop_state_scheme \<Rightarrow> ('w, 'cb, 'z) runloop_state_scheme" where
  "later_upd uv cb context s =
     (let a = brk s; b = Suc (brk s); q = run_once_queue s; l = run_once_last s;
          h = (ro_list s)(b := \<lparr>rl_run = a, rl_next = 0\<rparr>);
          s1 = log_msg log_level_trace ''scheduled job to run at the next runloop iteration''
                 (s\<lparr>brk := Suc b, live := insert b (insert a (live s))\<rparr>)
      in s1\<lparr>world := (if run_once_prepare_started s then world s
                      else uv_prepare_start uv (run_once_prepare s) (world s)),
             run_once_queue := (if q = 0 then b else q),
             run_once_last := b,
             ro_jobs := (ro_jobs s)(a := the_job cb context),
             ro_list := (if q = 0 then h else h(l := (h l)\<lparr>rl_next := b\<rparr>))\<rparr>)"

lemma run_later_eq:
  assumes "ready s" and "run_once_queue s \<noteq> 0 \<Longrightarrow> run_once_last s \<in> live s"
  shows "runloop_run_later uv cb context s =
    (Inr \<lparr>r1_cb = cb, r1_context = context, r1_private = brk s\<rparr>, later_upd uv cb context s)"
proof -
  have l: "run_once_queue s \<noteq> 0 \<Longrightarrow> run_once_last s \<noteq> 0"
    using assms readyD(8) by metis
  show ?thesis
  proof (cases "run_once_queue s = 0")
    case True
    then show ?thesis using assms(1)
      by (simp add: runloop_run_later_def whenE_def uv_do_def
        ret_def modify_def later_upd_def Let_def the_job_def)
  next
    case False
    then show ?thesis using assms l
      by (simp add: runloop_run_later_def whenE_def uv_do_def deref_def
        ret_def modify_def later_upd_def Let_def the_job_def)
  qed
qed

lemma later_upd_ready [simp]:
  assumes "ready s"
  shows "ready (later_upd uv cb context s)"
  using assms
  by (auto simp: later_upd_def Let_def ready_def heap_inv_def mem_ok_def simp del: readyD)

lemma later_upd_rep:
  assumes r: "ready s" and n: "nodes_rep s p ns js" and q: "run_once_queue s = 0 \<longleftrightarrow> p = 0"
  shows "nodes_rep (later_upd uv cb context s) (if p = 0 then Suc (brk s) else p)
    (ns @ [Suc (brk s)]) (js @ [the_job cb context])"
proof -
  let ?t = "later_upd uv cb context s" and ?a = "brk s" and ?b = "Suc (brk s)"
  have fresh: "x < ?a" if "x \<in> live s" for x
    using r that by (auto simp: ready_def heap_inv_def simp del: readyD)
  have sub: "set ns \<subseteq> live s" "set (node_runs s ns) \<subseteq> live s"
    using n by (auto simp: nodes_rep_def)
  then have lt: "x \<in> set ns \<Longrightarrow> x < ?a" "x \<in> set (node_runs s ns) \<Longrightarrow> x < ?a" for x
    using fresh by auto
  have lst: "rl_run (ro_list ?t a) = rl_run (ro_list s a)" if "a \<in> set ns" for a
    using lt(1) [OF that] by (auto simp: later_upd_def Let_def)
  have jb: "ro_jobs ?t r = ro_jobs s r" if "r \<in> set (node_runs s ns)" for r
    using lt(2) [OF that] by (auto simp: later_upd_def Let_def)
  have runs: "node_runs ?t ns = node_runs s ns"
    using lst by (simp add: node_runs_def)
  have jobs: "node_jobs ?t ns = js"
    using n lst jb by (auto simp: nodes_rep_def node_jobs_def node_runs_def)
  have new: "rl_run (ro_list ?t ?b) = ?a" "ro_jobs ?t ?a = the_job cb context"
    "run_once_last ?t = ?b" "live ?t = insert ?b (insert ?a (live s))"
    by (auto simp: later_upd_def Let_def)
  have seg: "seg (ro_list ?t) (if p = 0 then ?b else p) (ns @ [?b])"
  proof (cases ns rule: rev_cases)
    case Nil
    with n q show ?thesis by (auto simp: nodes_rep_def later_upd_def Let_def)
  next
    case (snoc as l)
    let ?h = "(ro_list s)(?b := \<lparr>rl_run = ?a, rl_next = 0\<rparr>)"
    have p0: "p \<noteq> 0" using n snoc by (cases as) (auto simp: nodes_rep_def)
    have "seg (ro_list s) p ns" using n by (simp add: nodes_rep_def)
    moreover have nb: "?b \<notin> set ns" using lt(1) [of ?b] by auto
    ultimately have "seg ?h p ns"
      by (subst seg_cong [of _ _ "ro_list s"]) auto
    moreover have "l \<notin> set as" "last ns = l" "run_once_last s = l"
      using n snoc by (auto simp: nodes_rep_def)
    moreover have "?b \<notin> set (as @ [l])" using nb snoc by simp
    ultimately have "seg (?h(l := (?h l)\<lparr>rl_next := ?b\<rparr>)) p (as @ [l, ?b])"
      using snoc by (intro seg_append_node) auto
    then show ?thesis
      using p0 q snoc \<open>run_once_last s = l\<close> by (simp add: later_upd_def Let_def)
  qed
  have dist: "distinct ((ns @ [?b]) @ node_runs s ns @ [?a])"
    using n lt by (fastforce simp: nodes_rep_def)
  have nr: "node_runs ?t (ns @ [?b]) = node_runs s ns @ [?a]"
    using runs new(1) by (simp add: node_runs_def)
  have nj: "node_jobs ?t (ns @ [?b]) = js @ [the_job cb context]"
    using jobs new(1,2) by (simp add: node_jobs_def)
  show ?thesis
    unfolding nodes_rep_def nr nj using seg dist sub new(3,4) by auto
qed

lemma run_later_state:
  assumes "ready s" "queue_rep s p js"
  shows "runloop_run_later uv cb context s =
    (Inr \<lparr>r1_cb = cb, r1_context = context, r1_private = brk s\<rparr>, later_upd uv cb context s)"
proof (rule run_later_eq [OF assms(1)])
  assume q: "run_once_queue s \<noteq> 0"
  from assms(2) obtain ns where n: "nodes_rep s p ns js" and z: "run_once_queue s = 0 \<longleftrightarrow> p = 0"
    by (auto simp: queue_rep_def)
  then have "ns \<noteq> []" using q by (auto simp: nodes_rep_def)
  then show "run_once_last s \<in> live s" using n by (auto simp: nodes_rep_def)
qed

lemma run_later_queue:
  assumes r: "ready s" and q: "queue_rep s p js"
  shows "\<exists>x t p'. runloop_run_later uv cb context s = (Inr x, t) \<and> t = later_upd uv cb context s \<and> ready t \<and>
    queue_rep t p' (js @ [the_job cb context]) \<and> (js \<noteq> [] \<longrightarrow> p' = p)"
proof -
  from q obtain ns where n: "nodes_rep s p ns js" and z: "run_once_queue s = 0 \<longleftrightarrow> p = 0"
    by (auto simp: queue_rep_def)
  let ?p = "if p = 0 then Suc (brk s) else p"
  have "(run_once_queue (later_upd uv cb context s) = 0) = (?p = 0)"
    using z by (simp add: later_upd_def Let_def)
  then have "queue_rep (later_upd uv cb context s) ?p (js @ [the_job cb context])"
    unfolding queue_rep_def using later_upd_rep [OF r n z, of uv cb "context"] by blast
  moreover have "js \<noteq> [] \<Longrightarrow> ?p = p"
    using n by (cases ns) (auto simp: nodes_rep_def node_jobs_def)
  ultimately show ?thesis
    using run_later_state [OF r q] later_upd_ready [OF r] by blast
qed

section \<open>Running the jobs\<close>

text \<open>
  The order in which a queue is worked off when running the job \<open>j\<close> appends the jobs
  \<open>spawn j\<close>: first in, first out.
\<close>

inductive fifo_order :: "('j \<Rightarrow> 'j list) \<Rightarrow> 'j list \<Rightarrow> 'j list \<Rightarrow> bool" for spawn where
  none: "fifo_order spawn [] []"
| run: "fifo_order spawn (js @ spawn j) xs \<Longrightarrow> fifo_order spawn (j # js) (j # xs)"

inductive_cases fifo_order_NilE: "fifo_order spawn [] xs"
inductive_cases fifo_order_ConsE: "fifo_order spawn (j # js) xs"

lemma fifo_order_det: "fifo_order spawn js xs \<Longrightarrow> fifo_order spawn js ys \<Longrightarrow> xs = ys"
  by (induction arbitrary: ys rule: fifo_order.induct)
    (blast elim: fifo_order_NilE fifo_order_ConsE)+

lemma fifo_order_plain: "(\<And>j. j \<in> set js \<Longrightarrow> spawn j = []) \<Longrightarrow> fifo_order spawn js js"
  by (induction js) (auto intro: fifo_order.intros)

text \<open>One generation of children that spawn nothing runs after all the parents.\<close>

lemma fifo_order_two_generations:
  "(\<And>j k. j \<in> set js \<Longrightarrow> k \<in> set (spawn j) \<Longrightarrow> spawn k = []) \<Longrightarrow>
   (\<And>k. k \<in> set ks \<Longrightarrow> spawn k = []) \<Longrightarrow>
   fifo_order spawn (js @ ks) (js @ ks @ concat (map spawn js))"
proof (induction js arbitrary: ks)
  case Nil
  then show ?case by (simp add: fifo_order_plain)
next
  case (Cons j js)
  have "fifo_order spawn (js @ (ks @ spawn j)) (js @ (ks @ spawn j) @ concat (map spawn js))"
    by (rule Cons.IH) (use Cons.prems in auto)
  then show ?case by (auto intro: fifo_order.run)
qed

text \<open>The state in which the loop goes on after it has released the node of a job.\<close>

definition release_upd :: "nat \<Rightarrow> ('w, 'cb, 'z) runloop_state_scheme \<Rightarrow> ('w, 'cb, 'z) runloop_state_scheme" where
  "release_upd n s =
     (let t = log_msg log_level_trace ''running a run_once job'' s
      in t\<lparr>live := live s - {rl_run (ro_list s n)} - {n}\<rparr>)"

lemma release_upd_ready: "ready s \<Longrightarrow> ready (release_upd n s)"
  by (auto simp: release_upd_def Let_def ready_def heap_inv_def mem_ok_def simp del: readyD)

lemma node_Cons [simp]:
  "node_runs s (a # ns) = rl_run (ro_list s a) # node_runs s ns"
  "node_jobs s (a # ns) = ro_jobs s (rl_run (ro_list s a)) # node_jobs s ns"
  by (simp_all add: node_runs_def node_jobs_def)

lemma nodes_rep_hd: "nodes_rep s p ns (j # js) \<Longrightarrow> \<exists>ms. ns = p # ms \<and> p \<noteq> 0"
  by (cases ns) (auto simp: nodes_rep_def node_jobs_def)

lemma nodes_rep_release:
  assumes "nodes_rep s p (p # ms) (j # js)"
  shows "nodes_rep (release_upd p s) (rl_next (ro_list s p)) ms js"
proof -
  have "node_runs (release_upd p s) ms = node_runs s ms"
    "node_jobs (release_upd p s) ms = node_jobs s ms"
    by (simp_all add: node_runs_def node_jobs_def release_upd_def Let_def)
  with assms show ?thesis
    by (auto simp: nodes_rep_def) (auto simp: release_upd_def Let_def)
qed

lemma run_jobs_step:
  assumes r: "ready s" "ready t" and s: "nodes_rep s p ns (j # js)" and t: "nodes_rep t p ms (j' # js')"
    and c: "call (ro_cb j) (ro_should_run j) (ro_context j) s = (Inr (), t)"
  shows "run_jobs call (Suc fuel) p s = run_jobs call fuel (rl_next (ro_list t p)) (release_upd p t)"
proof -
  from nodes_rep_hd [OF s] obtain ns' where ns: "ns = p # ns'" "p \<noteq> 0" by blast
  from nodes_rep_hd [OF t] obtain ms' where ms: "ms = p # ms'" by blast
  let ?r = "rl_run (ro_list s p)" and ?r' = "rl_run (ro_list t p)"
  have live_s: "p \<in> live s" "?r \<in> live s" "ro_jobs s ?r = j"
    using s ns by (auto simp: nodes_rep_def node_jobs_def)
  have live_t: "p \<in> live t" "?r' \<in> live t" "?r' \<noteq> p"
    using t ms by (auto simp: nodes_rep_def)
  have "?r \<noteq> 0" "?r' \<noteq> 0" using live_s live_t r readyD(8) by metis+
  then show ?thesis
    using live_s live_t ns r c
    by (subst run_jobs.simps) (simp add: deref_def c_free_def release_upd_def Let_def)
qed

text \<open>A queue whose blocks are none of the addresses \<open>keep\<close> that belong to the client.\<close>

definition queue_off ::
  "nat set \<Rightarrow> ('w, 'cb, 'z) runloop_state_scheme \<Rightarrow> nat \<Rightarrow> 'cb run_once_private list \<Rightarrow> bool" where
  "queue_off keep s p js \<longleftrightarrow>
     (\<exists>ns. nodes_rep s p ns js \<and> set (ns @ node_runs s ns) \<inter> keep = {}) \<and>
     (run_once_queue s = 0 \<longleftrightarrow> p = 0)"

lemma queue_off_empty [simp]: "queue_off {} s p js = queue_rep s p js"
  by (simp add: queue_off_def queue_rep_def)

text \<open>
  The interface between the loop and the code behind the job callbacks. \<open>call\<close> is that
  code, \<open>spawn j\<close> the jobs that running \<open>j\<close> schedules, \<open>J\<close> the jobs that the client puts
  into the queue, and \<open>I done s\<close> what the client wants to know once the jobs \<open>done\<close> have
  run. A callback must return and may use the queue only by appending jobs of the client to
  it; \<open>I\<close> may speak of the addresses \<open>keep\<close> but not of the nodes that the loop releases.
\<close>

locale job_bodies =
  fixes call :: "(('w, 'cb, 'z) runloop_state_scheme, 'cb) cb_call"
    and spawn :: "'cb run_once_private \<Rightarrow> 'cb run_once_private list"
    and keep :: "nat set"
    and J :: "'cb run_once_private \<Rightarrow> bool"
    and I :: "'cb run_once_private list \<Rightarrow> ('w, 'cb, 'z) runloop_state_scheme \<Rightarrow> bool"
  assumes body:
    "I past s \<Longrightarrow> ready s \<Longrightarrow> J j \<Longrightarrow> queue_off keep s p (j # js) \<Longrightarrow>
     \<exists>t. call (ro_cb j) (ro_should_run j) (ro_context j) s = (Inr (), t) \<and> I (past @ [j]) t \<and>
       ready t \<and> queue_off keep t p (j # js @ spawn j)"
  and release:
    "I past s \<Longrightarrow> ready s \<Longrightarrow> p \<notin> keep \<Longrightarrow> rl_run (ro_list s p) \<notin> keep \<Longrightarrow> I past (release_upd p s)"
  and spawned: "J j \<Longrightarrow> k \<in> set (spawn j) \<Longrightarrow> J k"
begin

lemma run_jobs_fifo:
  assumes "fifo_order spawn js xs" "I past s" "ready s" "nodes_rep s p ns js"
    "set (ns @ node_runs s ns) \<inter> keep = {}" "\<forall>j \<in> set js. J j"
    "p \<noteq> 0 \<Longrightarrow> run_once_queue s \<noteq> 0" "length xs \<le> fuel"
  shows "\<exists>t. run_jobs call fuel p s = (Inr (), t) \<and> I (past @ xs) t \<and> ready t"
  using assms
proof (induction arbitrary: past s p ns fuel rule: fifo_order.induct)
  case none
  then have "p = 0" by (cases ns) (auto simp: nodes_rep_def)
  with none show ?case by (subst run_jobs.simps) (simp add: ret_def)
next
  case (run js j xs)
  from nodes_rep_hd [OF run.prems(3)] have p: "p \<noteq> 0" by blast
  then have "queue_off keep s p (j # js)"
    unfolding queue_off_def using run.prems(3,4,6) by blast
  moreover have "J j" using run.prems(5) by simp
  ultimately obtain t where
    t: "call (ro_cb j) (ro_should_run j) (ro_context j) s = (Inr (), t)"
       "I (past @ [j]) t" "ready t" "queue_off keep t p (j # js @ spawn j)"
    using body [OF run.prems(1,2)] by blast
  then obtain ms where ms: "nodes_rep t p ms (j # js @ spawn j)" "run_once_queue t \<noteq> 0"
      "set (ms @ node_runs t ms) \<inter> keep = {}"
    using p by (auto simp: queue_off_def)
  then obtain ns' where ns': "nodes_rep t p (p # ns') (j # js @ spawn j)" "ms = p # ns'"
    using nodes_rep_hd by blast
  obtain fuel' where f: "fuel = Suc fuel'" "length xs \<le> fuel'"
    using run.prems(7) by (cases fuel) auto
  have "\<exists>u. run_jobs call fuel' (rl_next (ro_list t p)) (release_upd p t) = (Inr (), u) \<and>
      I ((past @ [j]) @ xs) u \<and> ready u"
  proof (rule run.IH)
    show "I (past @ [j]) (release_upd p t)" by (rule release [OF t(2,3)]) (use ms(3) ns'(2) in auto)
    show "ready (release_upd p t)" by (rule release_upd_ready [OF t(3)])
    show "nodes_rep (release_upd p t) (rl_next (ro_list t p)) ns' (js @ spawn j)"
      by (rule nodes_rep_release [OF ns'(1)])
    show "run_once_queue (release_upd p t) \<noteq> 0"
      using ms(2) by (simp add: release_upd_def Let_def)
    show "set (ns' @ node_runs (release_upd p t) ns') \<inter> keep = {}"
      using ms(3) ns'(2) by (auto simp: node_runs_def release_upd_def Let_def)
    show "\<forall>j \<in> set (js @ spawn j). J j"
      using run.prems(5) spawned by auto
  qed (rule f(2))
  then show ?case
    using run_jobs_step [where call = call and fuel = fuel', OF run.prems(2) t(3) run.prems(3) ms(1) t(1)] f(1)
    by simp
qed

text \<open>The whole prepare handler: the jobs run in order, the queue is empty afterwards and
  the handle is stopped.\<close>

lemma prepare_cb_fifo:
  assumes "fifo_order spawn js xs" "I [] (log_msg log_level_trace ''Inside the run once prepare handler'' s)"
    "ready s" "queue_off keep s (run_once_queue s) js" "\<forall>j \<in> set js. J j" "length xs \<le> fuel"
  shows "\<exists>t. run_once_prepare_cb uv call fuel h s =
      (Inr (), t\<lparr>run_once_queue := 0, world := uv_prepare_stop uv h (world t),
                 run_once_prepare_started := False\<rparr>) \<and> I xs t \<and> ready t"
proof -
  let ?s = "log_msg log_level_trace ''Inside the run once prepare handler'' s"
  from assms(4) obtain ns where ns: "nodes_rep s (run_once_queue s) ns js"
      "set (ns @ node_runs s ns) \<inter> keep = {}"
    by (auto simp: queue_off_def)
  then have ns': "nodes_rep ?s (run_once_queue s) ns js" "set (ns @ node_runs ?s ns) \<inter> keep = {}"
    by (simp_all add: nodes_rep_def node_runs_def node_jobs_def)
  have r: "ready ?s" using assms(3)
    by (auto simp: ready_def heap_inv_def mem_ok_def simp del: readyD)
  obtain t where "run_jobs call fuel (run_once_queue s) ?s = (Inr (), t)" "I ([] @ xs) t" "ready t"
    using run_jobs_fifo [OF assms(1,2) r ns' assms(5) _ assms(6)] by auto
  then show ?thesis
    using assms(3) by (intro exI [of _ t]) (simp add: run_once_prepare_cb_def uv_do_def modify_def)
qed

end

section \<open>Properties\<close>

text \<open>Scheduling several jobs one after the other, as \<open>main\<close> does for the sections.\<close>

fun run_later_all ::
  "'w libuv \<Rightarrow> ('cb \<times> nat) list \<Rightarrow> (('w, 'cb, 'z) runloop_state_scheme, unit) prog" where
  "run_later_all uv [] = ret ()"
| "run_later_all uv ((cb, ctx) # js) =
     bindE (runloop_run_later uv cb ctx) (\<lambda>_. run_later_all uv js)"

lemma run_later_all_rep:
  assumes "ready s" "queue_rep s p js"
  shows "\<exists>t q. run_later_all uv jobs s = (Inr (), t) \<and> ready t \<and>
    queue_rep t q (js @ map (\<lambda>(cb, ctx). the_job cb ctx) jobs) \<and> (js \<noteq> [] \<longrightarrow> q = p)"
  using assms
proof (induction jobs arbitrary: s p js)
  case Nil
  then show ?case by (auto simp: ret_def)
next
  case (Cons j jobs)
  obtain cb ctx where j: "j = (cb, ctx)" by (cases j)
  from run_later_queue [OF Cons.prems, of uv cb ctx] obtain x t p' where
    t: "runloop_run_later uv cb ctx s = (Inr x, t)" "ready t"
      "queue_rep t p' (js @ [the_job cb ctx])" "js \<noteq> [] \<longrightarrow> p' = p" by blast
  from Cons.IH [OF t(2,3)] t j show ?case by auto
qed

lemma queue_rep_empty: "run_once_queue s = 0 \<Longrightarrow> queue_rep s 0 []"
  by (auto simp: queue_rep_def nodes_rep_def node_runs_def node_jobs_def intro!: exI [of _ "[]"])

lemma queue_rep_head: "queue_rep s p js \<Longrightarrow> js = [] \<longleftrightarrow> p = 0"
  by (auto simp: queue_rep_def nodes_rep_def node_jobs_def elim: seg.elims)


text \<open>A small libuv, a table of handles with their two flags, on which the properties are
  applied.\<close>

type_synonym 'e table_world = "(nat \<Rightarrow> bool \<times> bool) \<times> 'e"

definition set_handle :: "nat \<Rightarrow> bool \<Rightarrow> bool \<Rightarrow> 'e table_world \<Rightarrow> 'e table_world" where
  "set_handle h a c w = ((fst w)(h := (a, c)), snd w)"

definition table_uv :: "'e table_world libuv" where
  "table_uv = \<lparr>
     uv_loop_init = (\<lambda>l w. w),
     uv_loop_close = (\<lambda>l w. (0, w)),
     uv_stop = (\<lambda>l w. w),
     uv_prepare_init = (\<lambda>l h. set_handle h False False),
     uv_prepare_start = (\<lambda>h w. set_handle h True (snd (fst w h)) w),
     uv_prepare_stop = (\<lambda>h w. set_handle h False (snd (fst w h)) w),
     uv_timer_init = (\<lambda>l h. set_handle h False False),
     uv_timer_start = (\<lambda>h i r w. set_handle h True (snd (fst w h)) w),
     uv_timer_stop = (\<lambda>h w. set_handle h False (snd (fst w h)) w),
     uv_poll_init = (\<lambda>l h fd. set_handle h False False),
     uv_poll_start = (\<lambda>h m w. set_handle h (m \<noteq> 0) (snd (fst w h)) w),
     uv_signal_init = (\<lambda>l h. set_handle h False False),
     uv_signal_start = (\<lambda>h w. set_handle h True (snd (fst w h)) w),
     uv_signal_stop = (\<lambda>h w. set_handle h False (snd (fst w h)) w),
     uv_close = (\<lambda>h c. set_handle h False True),
     uv_is_active = (\<lambda>h w. fst (fst w h)),
     uv_is_closing = (\<lambda>h w. snd (fst w h)),
     uv_strerror = (\<lambda>_. []),
     UV_EBUSY = -16,
     UV_READABLE = 1,
     UV_WRITABLE = 2,
     UV_PRIORITIZED = 8\<rparr>"

definition no_handles :: "'e \<Rightarrow> 'e table_world" where
  "no_handles e = (\<lambda>_. (False, False), e)"

text \<open>A program that has just set up its loop.\<close>

definition sample_loop :: "'w \<Rightarrow> ('w, 'cb) runloop_state" where
  "sample_loop w = world_state.extend (sample_world w)
     \<lparr>thread_loop = 1, in_runloop_context = False, run_once_queue = 0, run_once_last = 0,
      run_once_prepare = 1, run_once_prepare_started = False, int_signal = 0,
      ro_jobs = (\<lambda>_. \<lparr>ro_should_run = False, ro_cb = undefined, ro_context = 0\<rparr>),
      ro_list = (\<lambda>_. \<lparr>rl_run = 0, rl_next = 0\<rparr>),
      timers = (\<lambda>_. \<lparr>rt_cb = undefined, rt_context = 0, rt_private = 0\<rparr>),
      timer_privs = (\<lambda>_. \<lparr>tp_data = 0, tp_initial = 0, tp_repeat = 0\<rparr>),
      polls = (\<lambda>_. \<lparr>rp_cb = undefined, rp_context = 0, rp_private = 0\<rparr>),
      poll_privs = (\<lambda>_. \<lparr>pp_data = 0, pp_fd = 0\<rparr>)\<rparr>"

lemmas sample_loop_defs = sample_loop_def sample_world_def sample_log_def log_state.defs
  world_state.defs

lemma sample_loop_ready: "ready (sample_loop w)"
  by (simp add: sample_loop_defs ready_def mem_ok_def heap_inv_def del: readyD)


end
