(* ===== verification/Runloop_Handles.thy ===== *)
theory Runloop_Handles
  imports Runloop_Queue
begin

text \<open>
  Timers and poll handles of \<^verbatim>\<open>src/runloop.c\<close>: what the code relies on from libuv
  (\<open>uv_contract\<close>), the life cycle that the two kinds of handle share (the locale
  \<open>loop_handle\<close>, interpreted for both), the restart values of a timer, the release of a
  closed handle, and the translation of event masks.
\<close>

section \<open>Event masks\<close>

definition uv_masks_ok :: "'w libuv \<Rightarrow> bool" where
  "uv_masks_ok uv \<longleftrightarrow>
     UV_READABLE uv \<noteq> 0 \<and> UV_WRITABLE uv \<noteq> 0 \<and> UV_PRIORITIZED uv \<noteq> 0 \<and>
     UV_READABLE uv AND UV_WRITABLE uv = 0 \<and> UV_READABLE uv AND UV_PRIORITIZED uv = 0 \<and>
     UV_WRITABLE uv AND UV_PRIORITIZED uv = 0"

lemma and_flag:
  fixes e :: "'a::len word"
  shows "e AND push_bit n 1 = (if bit e n then push_bit n 1 else 0)"
  by (rule bit_word_eqI) (auto simp: bit_simps)

lemma pevent_bits:
  "e AND PEVENT_READ = (if bit e 1 then PEVENT_READ else 0)"
  "e AND PEVENT_WRITE = (if bit e 2 then PEVENT_WRITE else 0)"
  "e AND PEVENT_PRIO = (if bit e 3 then PEVENT_PRIO else 0)"
  "PEVENT_READ \<noteq> 0" "PEVENT_WRITE \<noteq> 0" "PEVENT_PRIO \<noteq> 0"
  unfolding pevent_defs by (rule and_flag | simp)+

lemma uv_of_pevents_bits:
  "uv_of_pevents uv e =
     (if bit e 1 then UV_READABLE uv else 0) OR (if bit e 2 then UV_WRITABLE uv else 0)
     OR (if bit e 3 then UV_PRIORITIZED uv else 0)"
  by (simp add: uv_of_pevents_def pevent_bits or.assoc)

lemma uv_of_pevents_flags:
  assumes "uv_masks_ok uv"
  shows "uv_of_pevents uv e AND UV_READABLE uv \<noteq> 0 \<longleftrightarrow> bit e 1"
    "uv_of_pevents uv e AND UV_WRITABLE uv \<noteq> 0 \<longleftrightarrow> bit e 2"
    "uv_of_pevents uv e AND UV_PRIORITIZED uv \<noteq> 0 \<longleftrightarrow> bit e 3"
proof -
  note d = assms [unfolded uv_masks_ok_def]
  have c: "UV_WRITABLE uv AND UV_READABLE uv = 0" "UV_PRIORITIZED uv AND UV_READABLE uv = 0"
    "UV_PRIORITIZED uv AND UV_WRITABLE uv = 0"
    using d by (simp_all only: and.commute)
  show "uv_of_pevents uv e AND UV_READABLE uv \<noteq> 0 \<longleftrightarrow> bit e 1"
    "uv_of_pevents uv e AND UV_WRITABLE uv \<noteq> 0 \<longleftrightarrow> bit e 2"
    "uv_of_pevents uv e AND UV_PRIORITIZED uv \<noteq> 0 \<longleftrightarrow> bit e 3"
    unfolding uv_of_pevents_bits bit.conj_disj_distrib2
    using c d by (cases "bit e 1"; cases "bit e 2"; cases "bit e 3"; simp)+
qed

lemma pevents_roundtrip:
  assumes "uv_masks_ok uv"
  shows "pevents_of_uv uv (uv_of_pevents uv e) = e AND (PEVENT_READ OR PEVENT_WRITE OR PEVENT_PRIO)"
  using uv_of_pevents_flags [OF assms, of e]
  by (simp add: pevents_of_uv_def bit.conj_disj_distrib pevent_bits or.assoc)

lemma pevents_never_error: "pevents_of_uv uv u AND PEVENT_ERROR = 0"
  by (simp add: pevents_of_uv_def pevent_defs bit.conj_disj_distrib2)
section \<open>What the code relies on from libuv\<close>

definition uv_same :: "'w libuv \<Rightarrow> nat \<Rightarrow> 'w \<Rightarrow> 'w \<Rightarrow> bool" where
  "uv_same uv k w w' \<longleftrightarrow>
     uv_is_active uv k w' = uv_is_active uv k w \<and> uv_is_closing uv k w' = uv_is_closing uv k w"

definition uv_idle :: "'w libuv \<Rightarrow> nat \<Rightarrow> 'w \<Rightarrow> bool" where
  "uv_idle uv h w \<longleftrightarrow> \<not> uv_is_active uv h w \<and> \<not> uv_is_closing uv h w"

definition uv_busy :: "'w libuv \<Rightarrow> nat \<Rightarrow> 'w \<Rightarrow> bool" where
  "uv_busy uv h w \<longleftrightarrow> uv_is_active uv h w \<and> \<not> uv_is_closing uv h w"

text \<open>
  From the libuv documentation: an initialised handle is neither active nor closing;
  starting a handle that is not closing makes it active (a poll handle only with a
  non-empty mask), stopping it makes it inactive; closing a handle makes it inactive and
  closing; and no call changes the state of another handle.
\<close>

definition uv_contract :: "'w libuv \<Rightarrow> bool" where
  "uv_contract uv \<longleftrightarrow>
     (\<forall>l h w. uv_idle uv h (uv_timer_init uv l h w)) \<and>
     (\<forall>l h fd w. uv_idle uv h (uv_poll_init uv l h fd w)) \<and>
     (\<forall>h i r w. \<not> uv_is_closing uv h w \<longrightarrow> uv_busy uv h (uv_timer_start uv h i r w)) \<and>
     (\<forall>h m w. \<not> uv_is_closing uv h w \<longrightarrow> m \<noteq> 0 \<longrightarrow> uv_busy uv h (uv_poll_start uv h m w)) \<and>
     (\<forall>h w. \<not> uv_is_closing uv h w \<longrightarrow> uv_idle uv h (uv_timer_stop uv h w)) \<and>
     (\<forall>h c w. \<not> uv_is_active uv h (uv_close uv h c w) \<and> uv_is_closing uv h (uv_close uv h c w)) \<and>
     (\<forall>k h w. k \<noteq> h \<longrightarrow>
        (\<forall>l. uv_same uv k w (uv_timer_init uv l h w)) \<and>
        (\<forall>l fd. uv_same uv k w (uv_poll_init uv l h fd w)) \<and>
        (\<forall>i r. uv_same uv k w (uv_timer_start uv h i r w)) \<and>
        (\<forall>m. uv_same uv k w (uv_poll_start uv h m w)) \<and>
        (\<forall>c. uv_same uv k w (uv_close uv h c w)) \<and>
        uv_same uv k w (uv_timer_stop uv h w) \<and>
        uv_same uv k w (uv_prepare_start uv h w) \<and>
        uv_same uv k w (uv_prepare_stop uv h w))"

lemma uv_contract_facts:
  assumes "uv_contract uv"
  shows "uv_idle uv h (uv_timer_init uv l h w)"
    "uv_idle uv h (uv_poll_init uv l h fd w)"
    "\<not> uv_is_closing uv h w \<Longrightarrow> uv_busy uv h (uv_timer_start uv h i r w)"
    "\<not> uv_is_closing uv h w \<Longrightarrow> m \<noteq> 0 \<Longrightarrow> uv_busy uv h (uv_poll_start uv h m w)"
    "\<not> uv_is_closing uv h w \<Longrightarrow> uv_idle uv h (uv_timer_stop uv h w)"
    "k \<noteq> h \<Longrightarrow> uv_same uv k w (uv_prepare_start uv h w)"
    "k \<noteq> h \<Longrightarrow> uv_same uv k w (uv_prepare_stop uv h w)"
    "k \<noteq> h \<Longrightarrow> uv_same uv k w (uv_poll_init uv l h fd w)"
    "k \<noteq> h \<Longrightarrow> uv_same uv k w (uv_poll_start uv h m w)"
  using assms by (simp_all add: uv_contract_def)

section \<open>Timers\<close>

definition timer_ok :: "'w libuv \<Rightarrow> ('w, 'cb, 'z) runloop_state_scheme \<Rightarrow> nat \<Rightarrow> bool" where
  "timer_ok uv s timer \<longleftrightarrow>
     uv_contract uv \<and> ready s \<and> timer \<in> live s \<and> rt_private (timers s timer) \<in> live s \<and>
     rt_private (timers s timer) \<noteq> timer \<and>
     tp_data (timer_privs s (rt_private (timers s timer))) = timer \<and>
     \<not> uv_is_closing uv (rt_private (timers s timer)) (world s)"

definition timer_active :: "'w libuv \<Rightarrow> ('w, 'cb, 'z) runloop_state_scheme \<Rightarrow> nat \<Rightarrow> bool" where
  "timer_active uv s timer \<longleftrightarrow> uv_is_active uv (rt_private (timers s timer)) (world s)"

lemma live_nonzero: "ready s \<Longrightarrow> p \<in> live s \<Longrightarrow> p \<noteq> 0"
  using readyD(8) by metis

lemma timer_private_ok [simp]:
  assumes "timer_ok uv s timer"
  shows "timer_private timer s = (Inr (rt_private (timers s timer)), s)"
proof -
  have l: "ready s" "timer \<in> live s" "rt_private (timers s timer) \<in> live s"
    using assms by (simp_all add: timer_ok_def)
  note live_nonzero [OF l(1,2)] live_nonzero [OF l(1,3)]
  with l show ?thesis by (simp add: timer_private_def deref_def ret_def)
qed

lemma ready_world_upd [simp]: "ready (s\<lparr>world := w\<rparr>) = ready s"
  by (simp add: ready_def mem_ok_def heap_inv_def del: readyD)

lemma timer_create_ok:
  assumes "ready s" "uv_contract uv"
  shows "\<exists>timer t. runloop_timer_create uv cb ctx s = (Inr timer, t) \<and> timer_ok uv t timer \<and>
    \<not> timer_active uv t timer \<and> rt_cb (timers t timer) = cb \<and> rt_context (timers t timer) = ctx \<and>
    live t = insert (brk s) (insert (Suc (brk s)) (live s))"
proof -
  let ?t = "snd (runloop_timer_create uv cb ctx s)"
  have eq: "runloop_timer_create uv cb ctx s = (Inr (brk s),
     s\<lparr>brk := Suc (Suc (brk s)), live := insert (Suc (brk s)) (insert (brk s) (live s)),
       world := uv_timer_init uv (thread_loop s) (Suc (brk s)) (world s),
       timers := (timers s)(brk s := \<lparr>rt_cb = cb, rt_context = ctx, rt_private = Suc (brk s)\<rparr>),
       timer_privs := (timer_privs s)(Suc (brk s) := \<lparr>tp_data = brk s, tp_initial = 0, tp_repeat = 0\<rparr>)\<rparr>)"
    using assms(1) by (simp add: runloop_timer_create_def uv_do_def modify_def ret_def)
  have "ready ?t"
    using assms(1) unfolding eq by (auto simp: ready_def heap_inv_def mem_ok_def simp del: readyD)
  then have "timer_ok uv ?t (brk s) \<and> \<not> timer_active uv ?t (brk s)"
    using assms(2) uv_contract_facts(1) [OF assms(2), of "Suc (brk s)" "thread_loop s" "world s"]
    unfolding eq by (simp add: timer_ok_def timer_active_def uv_idle_def)
  then show ?thesis unfolding eq by (auto simp: insert_commute)
qed

lemma timer_schedule_ok:
  assumes "timer_ok uv s timer"
  shows "\<exists>t. runloop_timer_schedule uv timer i r s = (Inr (), t) \<and> timer_ok uv t timer \<and>
    timer_active uv t timer \<and> live t = live s \<and> timers t = timers s \<and>
    world t = uv_timer_start uv (rt_private (timers s timer)) i r (world s) \<and>
    tp_initial (timer_privs t (rt_private (timers s timer))) = i \<and>
    tp_repeat (timer_privs t (rt_private (timers s timer))) = r"
proof -
  let ?p = "rt_private (timers s timer)"
  let ?t = "s\<lparr>timer_privs := (timer_privs s)(?p := (timer_privs s ?p)\<lparr>tp_initial := i, tp_repeat := r\<rparr>),
              world := uv_timer_start uv ?p i r (world s)\<rparr>"
  have "runloop_timer_schedule uv timer i r s = (Inr (), ?t)"
    using assms by (simp add: runloop_timer_schedule_def uv_do_def modify_def)
  moreover have "uv_busy uv ?p (uv_timer_start uv ?p i r (world s))"
    using assms by (intro uv_contract_facts(3)) (auto simp: timer_ok_def)
  moreover have "ready ?t"
    using assms by (auto simp: timer_ok_def ready_def heap_inv_def mem_ok_def simp del: readyD)
  ultimately show ?thesis
    using assms by (auto simp: timer_ok_def timer_active_def uv_busy_def)
qed

lemma timer_ok_buf: "timer_ok uv s timer \<Longrightarrow> message_buf s \<noteq> 0"
  by (simp add: timer_ok_def)

lemma timer_destroy_active:
  assumes "timer_ok uv s timer" "timer_active uv s timer"
  shows "runloop_timer_destroy uv timer s =
    (Inl (Exited exit_fatal), log_msg log_level_fatal ''attempt to destroy a timer that is active'' s)"
  using assms timer_ok_buf [OF assms(1)]
  by (simp add: runloop_timer_destroy_def timer_active_def whenE_def)

lemma timer_destroy_idle:
  assumes "timer_ok uv s timer" "\<not> timer_active uv s timer"
  shows "runloop_timer_destroy uv timer s =
    (Inr (), s\<lparr>world := uv_close uv (rt_private (timers s timer)) Runloop_timer_close_cb (world s)\<rparr>)"
  using assms
  by (simp add: runloop_timer_destroy_def timer_active_def whenE_def uv_do_def modify_def)

lemma timer_reset_eq:
  assumes "timer_ok uv s timer"
  shows "runloop_timer_reset uv timer s =
    (if timer_active uv s timer
     then let p = rt_private (timers s timer); tp = timer_privs s p
          in (Inr (), s\<lparr>world := uv_timer_start uv p (tp_initial tp) (tp_repeat tp) (world s)\<rparr>)
     else (Inl (Exited exit_fatal), log_msg log_level_fatal ''attempt to reset a timer that is not active'' s))"
  using assms timer_ok_buf [OF assms]
  by (simp add: runloop_timer_reset_def timer_active_def whenE_def uv_do_def modify_def Let_def)

lemma timer_cancel_eq:
  assumes "timer_ok uv s timer"
  shows "runloop_timer_cancel uv timer s =
    (if timer_active uv s timer
     then (Inr (), s\<lparr>world := uv_timer_stop uv (rt_private (timers s timer)) (world s)\<rparr>)
     else (Inl (Exited exit_fatal), log_msg log_level_fatal ''Attempt to cancel a timer that is not active'' s))"
  using assms timer_ok_buf [OF assms]
  by (simp add: runloop_timer_cancel_def timer_active_def whenE_def uv_do_def modify_def)

text \<open>The close callback tells the owner (with \<open>False\<close>) while the timer is still
  allocated, and then releases both blocks.\<close>

lemma timer_close_frees:
  assumes s: "ready s" "p \<in> live s" "tp_data (timer_privs s p) = timer" "timer \<in> live s" "timer \<noteq> p"
    and c: "call (rt_cb (timers s timer)) False timer s = (Inr (), t)"
    and t: "timer \<in> live t" "p \<in> live t" "rt_private (timers t timer) = p"
  shows "runloop_timer_close_cb call p s = (Inr (), t\<lparr>live := live t - {p} - {timer}\<rparr>)"
proof -
  note live_nonzero [OF s(1,2)] live_nonzero [OF s(1,4)]
  then show ?thesis using s c t
    by (simp add: runloop_timer_close_cb_def deref_def c_free_def)
qed

section \<open>Poll handles\<close>

definition poll_ok :: "'w libuv \<Rightarrow> ('w, 'cb, 'z) runloop_state_scheme \<Rightarrow> nat \<Rightarrow> bool" where
  "poll_ok uv s poll \<longleftrightarrow>
     uv_contract uv \<and> ready s \<and> poll \<in> live s \<and> rp_private (polls s poll) \<in> live s \<and>
     rp_private (polls s poll) \<noteq> poll \<and>
     pp_data (poll_privs s (rp_private (polls s poll))) = poll \<and>
     \<not> uv_is_closing uv (rp_private (polls s poll)) (world s)"

definition poll_active :: "'w libuv \<Rightarrow> ('w, 'cb, 'z) runloop_state_scheme \<Rightarrow> nat \<Rightarrow> bool" where
  "poll_active uv s poll \<longleftrightarrow> uv_is_active uv (rp_private (polls s poll)) (world s)"

lemma poll_ok_buf: "poll_ok uv s poll \<Longrightarrow> message_buf s \<noteq> 0"
  by (simp add: poll_ok_def)

lemma poll_private_ok [simp]:
  assumes "poll_ok uv s poll"
  shows "poll_private poll s = (Inr (rp_private (polls s poll)), s)"
proof -
  have l: "ready s" "poll \<in> live s" "rp_private (polls s poll) \<in> live s"
    using assms by (simp_all add: poll_ok_def)
  note live_nonzero [OF l(1,2)] live_nonzero [OF l(1,3)]
  with l show ?thesis by (simp add: poll_private_def deref_def ret_def)
qed

lemma poll_start_ok:
  assumes "poll_ok uv s poll" "uv_of_pevents uv events \<noteq> 0"
  shows "runloop_poll_start uv poll events s =
      (Inr (), s\<lparr>world := uv_poll_start uv (rp_private (polls s poll)) (uv_of_pevents uv events) (world s)\<rparr>) \<and>
    poll_ok uv (s\<lparr>world := uv_poll_start uv (rp_private (polls s poll)) (uv_of_pevents uv events) (world s)\<rparr>) poll \<and>
    poll_active uv (s\<lparr>world := uv_poll_start uv (rp_private (polls s poll)) (uv_of_pevents uv events) (world s)\<rparr>) poll"
proof -
  let ?p = "rp_private (polls s poll)" and ?m = "uv_of_pevents uv events"
  have "uv_busy uv ?p (uv_poll_start uv ?p ?m (world s))"
    using assms by (intro uv_contract_facts(4)) (auto simp: poll_ok_def)
  with assms show ?thesis
    by (simp add: runloop_poll_start_def uv_do_def modify_def)
      (simp add: poll_ok_def poll_active_def uv_busy_def)
qed

lemma poll_destroy_active:
  assumes "poll_ok uv s poll" "poll_active uv s poll"
  shows "runloop_poll_destroy uv poll s =
    (Inl (Exited exit_fatal), log_msg log_level_fatal ''attempt to destroy a poll handle that is active'' s)"
  using assms poll_ok_buf [OF assms(1)]
  by (simp add: runloop_poll_destroy_def poll_active_def whenE_def)

lemma poll_destroy_idle:
  assumes "poll_ok uv s poll" "\<not> poll_active uv s poll"
  shows "runloop_poll_destroy uv poll s =
    (Inr (), s\<lparr>world := uv_close uv (rp_private (polls s poll)) Runloop_poll_close_cb (world s)\<rparr>)"
  using assms
  by (simp add: runloop_poll_destroy_def poll_active_def whenE_def uv_do_def modify_def)

section \<open>The shared life cycle\<close>

text \<open>
  What the users of the two kinds of handle rely on: a started handle is active, and
  destroying an active handle ends the program. The lemma is the rule the modules must
  follow: nothing that was started may be destroyed before it has been stopped.
\<close>

locale loop_handle =
  fixes okay :: "'s \<Rightarrow> nat \<Rightarrow> bool"
    and active :: "'s \<Rightarrow> nat \<Rightarrow> bool"
    and start :: "nat \<Rightarrow> ('s, unit) prog"
    and destroy :: "nat \<Rightarrow> ('s, unit) prog"
  assumes start: "okay s h \<Longrightarrow> \<exists>t. start h s = (Inr (), t) \<and> okay t h \<and> active t h"
    and destroy_active: "okay s h \<Longrightarrow> active s h \<Longrightarrow> fst (destroy h s) = Inl (Exited exit_fatal)"
    and destroy_idle: "okay s h \<Longrightarrow> \<not> active s h \<Longrightarrow> fst (destroy h s) = Inr ()"
begin

lemma destroy_returns_iff: "okay s h \<Longrightarrow> isl (fst (destroy h s)) \<longleftrightarrow> active s h"
  using destroy_active destroy_idle by (cases "active s h") auto

lemma start_then_destroy: "okay s h \<Longrightarrow> fst (seqE (start h) (destroy h) s) = Inl (Exited exit_fatal)"
  using start destroy_active by fastforce

lemma start_many_then_destroy:
  "okay s h \<Longrightarrow> 0 < n \<Longrightarrow>
   fst (seqE (((\<lambda>m. seqE (start h) m) ^^ n) (ret ())) (destroy h) s) = Inl (Exited exit_fatal)"
proof (induction n arbitrary: s)
  case 0
  then show ?case by simp
next
  case (Suc n)
  from start [OF Suc.prems(1)] obtain t where
    t: "start h s = (Inr (), t)" "okay t h" "active t h" by blast
  show ?case
  proof (cases "n = 0")
    case True
    with t destroy_active show ?thesis by (simp add: seqE_def bindE_def ret_def)
  next
    case False
    have "seqE (seqE (start h) m) (destroy h) s = seqE m (destroy h) t" for m
      using t(1) by (simp add: seqE_def bindE_def)
    with Suc.IH [OF t(2)] False show ?thesis by simp
  qed
qed

end

interpretation timer_handle: loop_handle "timer_ok uv :: ('w, 'cb, 'z) runloop_state_scheme \<Rightarrow> nat \<Rightarrow> bool" "timer_active uv"
  "\<lambda>h. runloop_timer_schedule uv h i r" "runloop_timer_destroy uv" for uv :: "'w libuv" and i r
proof
  show "\<exists>t. runloop_timer_schedule uv h i r s = (Inr (), t) \<and> timer_ok uv t h \<and> timer_active uv t h"
    if "timer_ok uv s h" for s :: "('w, 'cb, 'z) runloop_state_scheme" and h
    using timer_schedule_ok [OF that] by blast
qed (simp_all add: timer_destroy_active timer_destroy_idle)

definition poll_ready :: "'w libuv \<Rightarrow> 64 word \<Rightarrow> ('w, 'cb, 'z) runloop_state_scheme \<Rightarrow> nat \<Rightarrow> bool" where
  "poll_ready uv events s poll \<longleftrightarrow> poll_ok uv s poll \<and> uv_of_pevents uv events \<noteq> 0"

interpretation poll_handle: loop_handle "poll_ready uv events :: ('w, 'cb, 'z) runloop_state_scheme \<Rightarrow> nat \<Rightarrow> bool" "poll_active uv"
  "\<lambda>h. runloop_poll_start uv h events" "runloop_poll_destroy uv" for uv :: "'w libuv" and events
proof
  show "\<exists>t. runloop_poll_start uv h events s = (Inr (), t) \<and> poll_ready uv events t h \<and> poll_active uv t h"
    if "poll_ready uv events s h" for s :: "('w, 'cb, 'z) runloop_state_scheme" and h
    using poll_start_ok [of uv s h events] that by (auto simp: poll_ready_def)
qed (simp_all add: poll_ready_def poll_destroy_active poll_destroy_idle)

lemma poll_create_ok:
  assumes "ready s" "uv_contract uv"
  shows "\<exists>poll t. runloop_poll_create uv fd cb s = (Inr poll, t) \<and> poll_ok uv t poll \<and>
    \<not> poll_active uv t poll \<and> rp_cb (polls t poll) = cb \<and>
    pp_fd (poll_privs t (rp_private (polls t poll))) = fd"
proof -
  let ?s = "log_msg log_level_info ''creating a poll dohicky'' s"
  let ?t = "?s\<lparr>brk := Suc (Suc (brk s)), live := insert (Suc (brk s)) (insert (brk s) (live s)),
       world := uv_poll_init uv (thread_loop s) (Suc (brk s)) fd (world s),
       polls := (polls s)(brk s := \<lparr>rp_cb = cb, rp_context = 0, rp_private = Suc (brk s)\<rparr>),
       poll_privs := (poll_privs s)(Suc (brk s) := \<lparr>pp_data = brk s, pp_fd = fd\<rparr>)\<rparr>"
  have eq: "runloop_poll_create uv fd cb s = (Inr (brk s), ?t)"
    using assms(1) by (simp add: runloop_poll_create_def uv_do_def modify_def ret_def)
  have "ready ?t"
    using assms(1) by (auto simp: ready_def heap_inv_def mem_ok_def simp del: readyD)
  then have "poll_ok uv ?t (brk s)" "\<not> poll_active uv ?t (brk s)"
    using assms(2) uv_contract_facts(2) [OF assms(2), of "Suc (brk s)" "thread_loop s" fd "world s"]
    by (simp_all add: poll_ok_def poll_active_def uv_idle_def)
  then show ?thesis unfolding eq by (intro exI [of _ "brk s"] exI [of _ ?t]) simp
qed

section \<open>A small libuv\<close>

text \<open>The table of handles meets the contract.\<close>

lemma table_uv_contract: "uv_contract table_uv"
  by (simp add: uv_contract_def table_uv_def set_handle_def uv_same_def uv_idle_def uv_busy_def)

lemma table_uv_masks: "uv_masks_ok table_uv"
  by (simp add: uv_masks_ok_def table_uv_def)

section \<open>Properties\<close>

text \<open>Event masks survive the two translations: asking libuv for the events of a mask and
  translating the answer back gives the mask, restricted to the three events libuv has.\<close>

theorem poll_mask_roundtrip:
  assumes "uv_masks_ok uv"
  shows "pevents_of_uv uv (uv_of_pevents uv e) = e AND (PEVENT_READ OR PEVENT_WRITE OR PEVENT_PRIO)"
  by (rule pevents_roundtrip [OF assms])

theorem poll_mask_roundtrip_witness:
  "pevents_of_uv (table_uv :: unit table_world libuv)
     (uv_of_pevents (table_uv :: unit table_world libuv) (PEVENT_READ OR PEVENT_PRIO OR PEVENT_ERROR)) =
   (PEVENT_READ OR PEVENT_PRIO OR PEVENT_ERROR) AND (PEVENT_READ OR PEVENT_WRITE OR PEVENT_PRIO)"
  by (rule poll_mask_roundtrip [OF table_uv_masks])





text \<open>C32. A poll handle that has been started any number of times and is then destroyed always
  ends the program with the fatal status: the interface has no way to stop one.\<close>

theorem started_poll_cannot_be_destroyed:
  assumes "poll_ok uv s poll" "uv_of_pevents uv events \<noteq> 0" "0 < n"
  shows "fst (seqE (((\<lambda>m. seqE (runloop_poll_start uv poll events) m) ^^ n) (ret ()))
      (runloop_poll_destroy uv poll) s) = Inl (Exited exit_fatal)"
  using poll_handle.start_many_then_destroy [of uv events s poll n] assms by (simp add: poll_ready_def)

theorem started_poll_cannot_be_destroyed_witness:
  "\<exists>poll s. runloop_poll_create table_uv 3 ''cb'' (sample_loop (no_handles ())) = (Inr poll, s) \<and>
    fst (seqE (((\<lambda>m. seqE (runloop_poll_start table_uv poll PEVENT_READ) m) ^^ 1) (ret ()))
      (runloop_poll_destroy table_uv poll) s) = Inl (Exited exit_fatal)"
proof -
  obtain poll s where s: "runloop_poll_create table_uv 3 ''cb'' (sample_loop (no_handles ())) = (Inr poll, s)"
    "poll_ok table_uv s poll"
    using poll_create_ok [OF sample_loop_ready table_uv_contract, where fd = 3 and cb = "''cb''"] by blast
  have "uv_of_pevents (table_uv :: unit table_world libuv) PEVENT_READ \<noteq> 0"
    by (simp add: uv_of_pevents_def pevent_defs table_uv_def)
  from started_poll_cannot_be_destroyed [OF s(2) this zero_less_one] s(1) show ?thesis by blast
qed

end
