(* ===== verification/Utf8.thy ===== *)
theory Utf8
  imports Prelude
begin

unbundle bit_operations_syntax

text \<open>
  Model of the two UTF-8 functions of \<^verbatim>\<open>src/external/toml.c\<close>. Code points are the
  \<open>int64_t\<close> values of the code, bytes are \<open>8 word\<close>. The decoder is given the memory that
  starts at its argument; reading past it is the fault \<open>OutOfBounds\<close>.
\<close>

section \<open>Encoding\<close>

definition byte :: "int \<Rightarrow> 8 word" where
  "byte i = word_of_int i"

text \<open>\<open>None\<close> is the return value \<open>-1\<close>; the length of the list is the return value otherwise.\<close>

definition toml_ucs_to_utf8 :: "int \<Rightarrow> 8 word list option" where
  "toml_ucs_to_utf8 code =
     (if 0xd800 \<le> code \<and> code \<le> 0xdfff then None
      else if 0xfffe \<le> code \<and> code \<le> 0xffff then None
      else if code < 0 then None
      else if code \<le> 0x7F then Some [byte code]
      else if code \<le> 0x7FF then
        Some [byte (0xc0 OR drop_bit 6 code), byte (0x80 OR (code AND 0x3f))]
      else if code \<le> 0xFFFF then
        Some [byte (0xe0 OR drop_bit 12 code), byte (0x80 OR (drop_bit 6 code AND 0x3f)),
              byte (0x80 OR (code AND 0x3f))]
      else if code \<le> 0x1FFFFF then
        Some [byte (0xf0 OR drop_bit 18 code), byte (0x80 OR (drop_bit 12 code AND 0x3f)),
              byte (0x80 OR (drop_bit 6 code AND 0x3f)), byte (0x80 OR (code AND 0x3f))]
      else if code \<le> 0x3FFFFFF then
        Some [byte (0xf8 OR drop_bit 24 code), byte (0x80 OR (drop_bit 18 code AND 0x3f)),
              byte (0x80 OR (drop_bit 12 code AND 0x3f)), byte (0x80 OR (drop_bit 6 code AND 0x3f)),
              byte (0x80 OR (code AND 0x3f))]
      else if code \<le> 0x7FFFFFFF then
        Some [byte (0xfc OR drop_bit 30 code), byte (0x80 OR (drop_bit 24 code AND 0x3f)),
              byte (0x80 OR (drop_bit 18 code AND 0x3f)), byte (0x80 OR (drop_bit 12 code AND 0x3f)),
              byte (0x80 OR (drop_bit 6 code AND 0x3f)), byte (0x80 OR (code AND 0x3f))]
      else None)"

section \<open>Decoding\<close>

text \<open>
  The loop of the multi-byte cases: \<open>k\<close> is the offset of \<open>buf\<close>, advanced before each read.
  The result is a fault, \<open>None\<close> for \<open>-1\<close>, or the code point and the return value.
\<close>

fun utf8_tail :: "8 word list \<Rightarrow> nat \<Rightarrow> nat \<Rightarrow> int \<Rightarrow> fault + (int \<times> nat) option" where
  "utf8_tail mem k 0 v = Inr (Some (v, k))"
| "utf8_tail mem k (Suc j) v =
     (if Suc k < length mem then
        (let i = uint (mem ! Suc k)
         in if drop_bit 6 i \<noteq> 2 then Inr None
            else utf8_tail mem (Suc k) j (push_bit 6 v OR (i AND 0x3f)))
      else Inl OutOfBounds)"

definition toml_utf8_to_ucs :: "8 word list \<Rightarrow> int \<Rightarrow> fault + (int \<times> nat) option" where
  "toml_utf8_to_ucs mem len =
     (if mem = [] then Inl OutOfBounds
      else let i = uint (mem ! 0); buf = 1
      in if drop_bit 7 i = 0 then (if len < 1 then Inr None else Inr (Some (i, 1)))
         else if drop_bit 5 i = 0x6 then
           (if len < 2 then Inr None else utf8_tail mem buf 1 (i AND 0x1f))
         else if drop_bit 4 i = 0xE then
           (if len < 3 then Inr None else utf8_tail mem buf 2 (i AND 0x0F))
         else if drop_bit 3 i = 0x1E then
           (if len < 4 then Inr None else utf8_tail mem buf 3 (i AND 0x07))
         else if drop_bit 2 i = 0x3E then
           (if len < 5 then Inr None else utf8_tail mem buf 4 (i AND 0x03))
         else if drop_bit 1 i = 0x7e then
           (if len < 6 then Inr None else utf8_tail mem buf 5 (i AND 0x01))
         else Inr None)"

section \<open>The encoding that the comments of the code describe\<close>

text \<open>
  The bit patterns of the comments as arithmetic: a lead byte with its base and payload, and
  continuation bytes \<open>10xxxxxx\<close>. \<open>utf8_value\<close> reads exactly the given bytes.
\<close>

definition lead_base :: "nat \<Rightarrow> int" where
  "lead_base n = (if n \<le> 1 then 0 else if n = 2 then 0xc0 else if n = 3 then 0xe0
     else if n = 4 then 0xf0 else if n = 5 then 0xf8 else 0xfc)"

fun cont_value :: "int \<Rightarrow> 8 word list \<Rightarrow> int option" where
  "cont_value v [] = Some v"
| "cont_value v (b # bs) =
     (if 0x80 \<le> uint b \<and> uint b < 0xc0 then cont_value (v * 64 + (uint b - 0x80)) bs else None)"

definition utf8_value :: "8 word list \<Rightarrow> int option" where
  "utf8_value bs = (case bs of [] \<Rightarrow> None | b # cs \<Rightarrow> cont_value (uint b - lead_base (length bs)) cs)"

text \<open>The number of bytes of the shortest encoding.\<close>

definition utf8_len :: "int \<Rightarrow> nat" where
  "utf8_len c = (if c < 0x80 then 1 else if c < 0x800 then 2 else if c < 0x10000 then 3
     else if c < 0x200000 then 4 else if c < 0x4000000 then 5 else 6)"

definition ucs_encodable :: "int \<Rightarrow> bool" where
  "ucs_encodable c \<longleftrightarrow> 0 \<le> c \<and> c \<le> 0x7FFFFFFF \<and> \<not> (0xd800 \<le> c \<and> c \<le> 0xdfff) \<and>
     \<not> (0xfffe \<le> c \<and> c \<le> 0xffff)"

section \<open>Arithmetic of the bit patterns\<close>

lemma or_base:
  fixes x :: int
  assumes "0 \<le> x" "x < 2 ^ n"
  shows "push_bit n b OR x = push_bit n b + x"
proof -
  have x: "x = take_bit n x" using assms by (simp add: take_bit_int_eq_self)
  have "push_bit n b AND take_bit n x = 0"
    by (rule bit_eqI) (auto simp: bit_simps)
  with x have "push_bit n b AND x = 0" by simp
  then show ?thesis by (simp add: disjunctive_add_eq_or)
qed

lemma lead_or:
  fixes x :: int
  shows "0 \<le> x \<Longrightarrow> x < 32 \<Longrightarrow> 0xc0 OR x = 0xc0 + x"
    "0 \<le> x \<Longrightarrow> x < 16 \<Longrightarrow> 0xe0 OR x = 0xe0 + x"
    "0 \<le> x \<Longrightarrow> x < 8 \<Longrightarrow> 0xf0 OR x = 0xf0 + x"
    "0 \<le> x \<Longrightarrow> x < 4 \<Longrightarrow> 0xf8 OR x = 0xf8 + x"
    "0 \<le> x \<Longrightarrow> x < 2 \<Longrightarrow> 0xfc OR x = 0xfc + x"
    "0 \<le> x \<Longrightarrow> x < 64 \<Longrightarrow> 0x80 OR x = 0x80 + x"
  using or_base [of x 5 6] or_base [of x 4 14] or_base [of x 3 30] or_base [of x 2 62]
    or_base [of x 1 126] or_base [of x 6 2]
  by (simp_all add: push_bit_eq_mult)

lemma and_3f: "(x :: int) AND 0x3f = x mod 64"
  using take_bit_eq_mask [of 6 x] by (simp add: take_bit_eq_mod mask_eq_exp_minus_1)

lemma cont_byte: "0x80 OR ((x :: int) AND 0x3f) = 0x80 + x mod 64"
  by (simp add: and_3f lead_or)

lemma uint_byte: "0 \<le> i \<Longrightarrow> i < 256 \<Longrightarrow> uint (byte i) = i"
  by (simp add: byte_def uint_word_of_int)

lemma uint_cont: "uint (byte (0x80 + x mod 64)) = 0x80 + x mod 64"
proof -
  have "0 \<le> x mod 64" "x mod 64 < 64" by simp_all
  then have "0x80 + x mod 64 < 256" by linarith
  then show ?thesis by (simp add: uint_byte)
qed

text \<open>The encoding with its bits as arithmetic.\<close>

lemma toml_ucs_to_utf8_arith:
  assumes "ucs_encodable c"
  shows "toml_ucs_to_utf8 c =
    Some (if c < 0x80 then [byte c]
      else if c < 0x800 then [byte (0xc0 + c div 64), byte (0x80 + c mod 64)]
      else if c < 0x10000 then
        [byte (0xe0 + c div 4096), byte (0x80 + c div 64 mod 64), byte (0x80 + c mod 64)]
      else if c < 0x200000 then
        [byte (0xf0 + c div 262144), byte (0x80 + c div 4096 mod 64), byte (0x80 + c div 64 mod 64),
         byte (0x80 + c mod 64)]
      else if c < 0x4000000 then
        [byte (0xf8 + c div 16777216), byte (0x80 + c div 262144 mod 64),
         byte (0x80 + c div 4096 mod 64), byte (0x80 + c div 64 mod 64), byte (0x80 + c mod 64)]
      else
        [byte (0xfc + c div 1073741824), byte (0x80 + c div 16777216 mod 64),
         byte (0x80 + c div 262144 mod 64), byte (0x80 + c div 4096 mod 64),
         byte (0x80 + c div 64 mod 64), byte (0x80 + c mod 64)])"
  using assms
  by (auto simp: toml_ucs_to_utf8_def ucs_encodable_def drop_bit_eq_div cont_byte lead_or)

lemma cont_value_step [simp]: "cont_value (x div 64) (byte (0x80 + x mod 64) # bs) = cont_value x bs"
proof -
  have "0 \<le> x mod 64" "x mod 64 < 64" by simp_all
  moreover have "x div 64 * 64 + x mod 64 = x" by simp
  ultimately show ?thesis by (simp add: uint_cont)
qed

lemma cont_value_steps:
  "cont_value (c div 4096) (byte (0x80 + c div 64 mod 64) # bs) = cont_value (c div 64) bs"
  "cont_value (c div 262144) (byte (0x80 + c div 4096 mod 64) # bs) = cont_value (c div 4096) bs"
  "cont_value (c div 16777216) (byte (0x80 + c div 262144 mod 64) # bs) = cont_value (c div 262144) bs"
  "cont_value (c div 1073741824) (byte (0x80 + c div 16777216 mod 64) # bs) =
     cont_value (c div 16777216) bs"
proof -
  have d: "c div 4096 = c div 64 div 64" "c div 262144 = c div 4096 div 64"
    "c div 16777216 = c div 262144 div 64" "c div 1073741824 = c div 16777216 div 64"
    by (simp_all flip: zdiv_zmult2_eq)
  show "cont_value (c div 4096) (byte (0x80 + c div 64 mod 64) # bs) = cont_value (c div 64) bs"
    unfolding d(1) by (rule cont_value_step)
  show "cont_value (c div 262144) (byte (0x80 + c div 4096 mod 64) # bs) = cont_value (c div 4096) bs"
    unfolding d(2) by (rule cont_value_step)
  show "cont_value (c div 16777216) (byte (0x80 + c div 262144 mod 64) # bs) = cont_value (c div 262144) bs"
    unfolding d(3) by (rule cont_value_step)
  show "cont_value (c div 1073741824) (byte (0x80 + c div 16777216 mod 64) # bs) =
     cont_value (c div 16777216) bs"
    unfolding d(4) by (rule cont_value_step)
qed

lemma utf8_value_lead:
  "uint (byte (b + x)) = b + x \<Longrightarrow> lead_base (Suc (length cs)) = b \<Longrightarrow>
   utf8_value (byte (b + x) # cs) = cont_value x cs"
  by (simp add: utf8_value_def)

lemma lead_base_simps [simp]:
  "lead_base (Suc (Suc 0)) = 0xc0" "lead_base (Suc (Suc (Suc 0))) = 0xe0"
  "lead_base (Suc (Suc (Suc (Suc 0)))) = 0xf0" "lead_base (Suc (Suc (Suc (Suc (Suc 0))))) = 0xf8"
  "lead_base (Suc (Suc (Suc (Suc (Suc (Suc 0)))))) = 0xfc"
  by (simp_all add: lead_base_def)

lemma ucs_to_utf8_total:
  "toml_ucs_to_utf8 c = None \<longleftrightarrow> \<not> ucs_encodable c"
  by (auto simp: toml_ucs_to_utf8_def ucs_encodable_def)

lemma ucs_to_utf8_value:
  assumes "ucs_encodable c" "toml_ucs_to_utf8 c = Some bs"
  shows "utf8_value bs = Some c" "length bs = utf8_len c"
proof -
  have range: "0 \<le> c" "c \<le> 0x7FFFFFFF" using assms(1) by (simp_all add: ucs_encodable_def)
  show "length bs = utf8_len c"
    using assms by (auto simp: toml_ucs_to_utf8_arith utf8_len_def)
  consider "c < 0x80" | "0x80 \<le> c" "c < 0x800" | "0x800 \<le> c" "c < 0x10000"
    | "0x10000 \<le> c" "c < 0x200000" | "0x200000 \<le> c" "c < 0x4000000" | "0x4000000 \<le> c"
    by linarith
  then show "utf8_value bs = Some c"
  proof cases
    case 1
    with assms range show ?thesis
      by (auto simp: toml_ucs_to_utf8_arith utf8_value_def lead_base_def uint_byte)
  next
    case 2
    have l: "uint (byte (0xc0 + c div 64)) = 0xc0 + c div 64"
      using range 2 by (intro uint_byte) linarith+
    have bs: "bs = [byte (0xc0 + c div 64), byte (0x80 + c mod 64)]"
      using assms 2 by (simp add: toml_ucs_to_utf8_arith)
    show ?thesis
      unfolding bs by (subst utf8_value_lead [OF l])
        (simp_all only: list.size lead_base_simps cont_value_steps cont_value_step cont_value.simps(1) add_0 add_Suc_right add_0_right)
  next
    case 3
    have l: "uint (byte (0xe0 + c div 4096)) = 0xe0 + c div 4096"
      using range 3 by (intro uint_byte) linarith+
    have bs: "bs = [byte (0xe0 + c div 4096), byte (0x80 + c div 64 mod 64), byte (0x80 + c mod 64)]"
      using assms 3 by (simp add: toml_ucs_to_utf8_arith)
    show ?thesis
      unfolding bs by (subst utf8_value_lead [OF l])
        (simp_all only: list.size lead_base_simps cont_value_steps cont_value_step cont_value.simps(1) add_0 add_Suc_right add_0_right)
  next
    case 4
    have l: "uint (byte (0xf0 + c div 262144)) = 0xf0 + c div 262144"
      using range 4 by (intro uint_byte) linarith+
    have bs: "bs = [byte (0xf0 + c div 262144), byte (0x80 + c div 4096 mod 64), byte (0x80 + c div 64 mod 64), byte (0x80 + c mod 64)]"
      using assms 4 by (simp add: toml_ucs_to_utf8_arith)
    show ?thesis
      unfolding bs by (subst utf8_value_lead [OF l])
        (simp_all only: list.size lead_base_simps cont_value_steps cont_value_step cont_value.simps(1) add_0 add_Suc_right add_0_right)
  next
    case 5
    have l: "uint (byte (0xf8 + c div 16777216)) = 0xf8 + c div 16777216"
      using range 5 by (intro uint_byte) linarith+
    have bs: "bs = [byte (0xf8 + c div 16777216), byte (0x80 + c div 262144 mod 64), byte (0x80 + c div 4096 mod 64), byte (0x80 + c div 64 mod 64), byte (0x80 + c mod 64)]"
      using assms 5 by (simp add: toml_ucs_to_utf8_arith)
    show ?thesis
      unfolding bs by (subst utf8_value_lead [OF l])
        (simp_all only: list.size lead_base_simps cont_value_steps cont_value_step cont_value.simps(1) add_0 add_Suc_right add_0_right)
  next
    case 6
    have l: "uint (byte (0xfc + c div 1073741824)) = 0xfc + c div 1073741824"
      using range 6 by (intro uint_byte) linarith+
    have bs: "bs = [byte (0xfc + c div 1073741824), byte (0x80 + c div 16777216 mod 64), byte (0x80 + c div 262144 mod 64), byte (0x80 + c div 4096 mod 64), byte (0x80 + c div 64 mod 64), byte (0x80 + c mod 64)]"
      using assms 6 by (simp add: toml_ucs_to_utf8_arith)
    show ?thesis
      unfolding bs by (subst utf8_value_lead [OF l])
        (simp_all only: list.size lead_base_simps cont_value_steps cont_value_step cont_value.simps(1) add_0 add_Suc_right add_0_right)
  qed
qed

text \<open>The decoder inspects the bytes at offsets \<open>2\<close> to \<open>n\<close> of an \<open>n\<close>-byte sequence, so it
  looks at the byte after the sequence.\<close>

lemma utf8_tail_past:
  assumes "Suc k + j \<le> length mem" "0 < j" "\<And>i. i < length mem \<Longrightarrow> i = k + j \<Longrightarrow> uint (mem ! i) < 0x80 \<or> 0xc0 \<le> uint (mem ! i)"
  shows "Suc k + j \<le> length mem \<Longrightarrow> utf8_tail mem k j v = Inr None"
  using assms
proof (induction j arbitrary: k v)
  case 0
  then show ?case by simp
next
  case (Suc j)
  have lt: "Suc k < length mem" using Suc.prems by simp
  show ?case
  proof (cases j)
    case 0
    have "uint (mem ! Suc k) < 0x80 \<or> 0xc0 \<le> uint (mem ! Suc k)"
      using Suc.prems(4) [of "Suc k", OF lt] 0 by simp
    then have "drop_bit 6 (uint (mem ! Suc k)) \<noteq> 2"
      by (elim disjE; simp add: drop_bit_eq_div; linarith)
    with lt 0 show ?thesis by simp
  next
    case (Suc j')
    with Suc.IH [of "Suc k"] Suc.prems lt show ?thesis by (simp add: Let_def)
  qed
qed

lemma decode_dispatch:
  assumes "mem \<noteq> []" "u = uint (mem ! 0)"
  shows "u < 0x80 \<Longrightarrow> 1 \<le> len \<Longrightarrow> toml_utf8_to_ucs mem len = Inr (Some (u, 1))"
    "0xc0 \<le> u \<Longrightarrow> u < 0xe0 \<Longrightarrow> 2 \<le> len \<Longrightarrow> \<exists>v. toml_utf8_to_ucs mem len = utf8_tail mem 1 1 v"
    "0xe0 \<le> u \<Longrightarrow> u < 0xf0 \<Longrightarrow> 3 \<le> len \<Longrightarrow> \<exists>v. toml_utf8_to_ucs mem len = utf8_tail mem 1 2 v"
    "0xf0 \<le> u \<Longrightarrow> u < 0xf8 \<Longrightarrow> 4 \<le> len \<Longrightarrow> \<exists>v. toml_utf8_to_ucs mem len = utf8_tail mem 1 3 v"
    "0xf8 \<le> u \<Longrightarrow> u < 0xfc \<Longrightarrow> 5 \<le> len \<Longrightarrow> \<exists>v. toml_utf8_to_ucs mem len = utf8_tail mem 1 4 v"
    "0xfc \<le> u \<Longrightarrow> u < 0xfe \<Longrightarrow> 6 \<le> len \<Longrightarrow> \<exists>v. toml_utf8_to_ucs mem len = utf8_tail mem 1 5 v"
proof -
  have u0: "0 \<le> u" using assms by simp
  show "u < 0x80 \<Longrightarrow> 1 \<le> len \<Longrightarrow> toml_utf8_to_ucs mem len = Inr (Some (u, 1))"
    using assms u0 by (simp add: toml_utf8_to_ucs_def drop_bit_eq_div)
  show "\<exists>v. toml_utf8_to_ucs mem len = utf8_tail mem 1 1 v" if "0xc0 \<le> u" "u < 0xe0" "2 \<le> len"
  proof -
    have "u div 128 = 1" "u div 32 = 6" using that by linarith+
    with that assms show ?thesis by (auto simp: toml_utf8_to_ucs_def drop_bit_eq_div Let_def
      simp del: utf8_tail.simps)
  qed
  show "\<exists>v. toml_utf8_to_ucs mem len = utf8_tail mem 1 2 v" if "0xe0 \<le> u" "u < 0xf0" "3 \<le> len"
  proof -
    have "u div 128 = 1" "u div 32 = 7" "u div 16 = 14" using that by linarith+
    with that assms show ?thesis by (auto simp: toml_utf8_to_ucs_def drop_bit_eq_div Let_def
      simp del: utf8_tail.simps)
  qed
  show "\<exists>v. toml_utf8_to_ucs mem len = utf8_tail mem 1 3 v" if "0xf0 \<le> u" "u < 0xf8" "4 \<le> len"
  proof -
    have "u div 128 = 1" "u div 32 = 7" "u div 16 = 15" "u div 8 = 30" using that by linarith+
    with that assms show ?thesis by (auto simp: toml_utf8_to_ucs_def drop_bit_eq_div Let_def
      simp del: utf8_tail.simps)
  qed
  show "\<exists>v. toml_utf8_to_ucs mem len = utf8_tail mem 1 4 v" if "0xf8 \<le> u" "u < 0xfc" "5 \<le> len"
  proof -
    have "u div 128 = 1" "u div 32 = 7" "u div 16 = 15" "u div 8 = 31" "u div 4 = 62"
      using that by linarith+
    with that assms show ?thesis by (auto simp: toml_utf8_to_ucs_def drop_bit_eq_div Let_def
      simp del: utf8_tail.simps)
  qed
  show "\<exists>v. toml_utf8_to_ucs mem len = utf8_tail mem 1 5 v" if "0xfc \<le> u" "u < 0xfe" "6 \<le> len"
  proof -
    have "u div 128 = 1" "u div 32 = 7" "u div 16 = 15" "u div 8 = 31" "u div 4 = 63" "u div 2 = 126"
      using that by linarith+
    with that assms show ?thesis by (auto simp: toml_utf8_to_ucs_def drop_bit_eq_div Let_def
      simp del: utf8_tail.simps)
  qed
qed

text \<open>How an encoded code point of more than one byte is dispatched.\<close>

lemma decode_encoded:
  assumes c: "ucs_encodable c" "toml_ucs_to_utf8 c = Some bs" "0x80 \<le> c"
  shows "\<exists>v. toml_utf8_to_ucs (bs @ more) (int (length bs)) = utf8_tail (bs @ more) 1 (length bs - 1) v"
proof -
  have r: "0 \<le> c" "c \<le> 0x7FFFFFFF" using c(1) by (simp_all add: ucs_encodable_def)
  consider "c < 0x800" | "0x800 \<le> c" "c < 0x10000" | "0x10000 \<le> c" "c < 0x200000"
    | "0x200000 \<le> c" "c < 0x4000000" | "0x4000000 \<le> c"
    by linarith
  then show ?thesis
  proof cases
    case 1
    then have b: "bs ! 0 = byte (0xc0 + c div 64)" "length bs = 2"
      using c by (auto simp: toml_ucs_to_utf8_arith)
    have "uint (byte (0xc0 + c div 64)) = 0xc0 + c div 64"
      using r 1 by (intro uint_byte) linarith+
    then have u: "0xc0 \<le> uint (bs ! 0)" "uint (bs ! 0) < 0xe0"
      unfolding b(1) using r 1 by linarith+
    have "(bs @ more) ! 0 = bs ! 0" "bs @ more \<noteq> []" using b(2) by (auto simp: nth_append)
    with decode_dispatch(2) [of "bs @ more" "uint (bs ! 0)" "int (length bs)"] u b(2)
    show ?thesis by (simp del: utf8_tail.simps)
  next
    case 2
    then have b: "bs ! 0 = byte (0xe0 + c div 4096)" "length bs = 3"
      using c by (auto simp: toml_ucs_to_utf8_arith)
    have "uint (byte (0xe0 + c div 4096)) = 0xe0 + c div 4096"
      using r 2 by (intro uint_byte) linarith+
    then have u: "0xe0 \<le> uint (bs ! 0)" "uint (bs ! 0) < 0xf0"
      unfolding b(1) using r 2 by linarith+
    have "(bs @ more) ! 0 = bs ! 0" "bs @ more \<noteq> []" using b(2) by (auto simp: nth_append)
    with decode_dispatch(3) [of "bs @ more" "uint (bs ! 0)" "int (length bs)"] u b(2)
    show ?thesis by (simp del: utf8_tail.simps)
  next
    case 3
    then have b: "bs ! 0 = byte (0xf0 + c div 262144)" "length bs = 4"
      using c by (auto simp: toml_ucs_to_utf8_arith)
    have "uint (byte (0xf0 + c div 262144)) = 0xf0 + c div 262144"
      using r 3 by (intro uint_byte) linarith+
    then have u: "0xf0 \<le> uint (bs ! 0)" "uint (bs ! 0) < 0xf8"
      unfolding b(1) using r 3 by linarith+
    have "(bs @ more) ! 0 = bs ! 0" "bs @ more \<noteq> []" using b(2) by (auto simp: nth_append)
    with decode_dispatch(4) [of "bs @ more" "uint (bs ! 0)" "int (length bs)"] u b(2)
    show ?thesis by (simp del: utf8_tail.simps)
  next
    case 4
    then have b: "bs ! 0 = byte (0xf8 + c div 16777216)" "length bs = 5"
      using c by (auto simp: toml_ucs_to_utf8_arith)
    have "uint (byte (0xf8 + c div 16777216)) = 0xf8 + c div 16777216"
      using r 4 by (intro uint_byte) linarith+
    then have u: "0xf8 \<le> uint (bs ! 0)" "uint (bs ! 0) < 0xfc"
      unfolding b(1) using r 4 by linarith+
    have "(bs @ more) ! 0 = bs ! 0" "bs @ more \<noteq> []" using b(2) by (auto simp: nth_append)
    with decode_dispatch(5) [of "bs @ more" "uint (bs ! 0)" "int (length bs)"] u b(2)
    show ?thesis by (simp del: utf8_tail.simps)
  next
    case 5
    then have b: "bs ! 0 = byte (0xfc + c div 1073741824)" "length bs = 6"
      using c by (auto simp: toml_ucs_to_utf8_arith)
    have "uint (byte (0xfc + c div 1073741824)) = 0xfc + c div 1073741824"
      using r 5 by (intro uint_byte) linarith+
    then have u: "0xfc \<le> uint (bs ! 0)" "uint (bs ! 0) < 0xfe"
      unfolding b(1) using r 5 by linarith+
    have "(bs @ more) ! 0 = bs ! 0" "bs @ more \<noteq> []" using b(2) by (auto simp: nth_append)
    with decode_dispatch(6) [of "bs @ more" "uint (bs ! 0)" "int (length bs)"] u b(2)
    show ?thesis by (simp del: utf8_tail.simps)
  qed
qed

lemma decode_multibyte_fails:
  assumes "ucs_encodable c" "toml_ucs_to_utf8 c = Some bs" "0x80 \<le> c"
    and "uint x < 0x80 \<or> 0xc0 \<le> uint x"
  shows "toml_utf8_to_ucs (bs @ x # rest) (int (length bs)) = Inr None"
proof -
  have n: "2 \<le> length bs" using ucs_to_utf8_value(2) [OF assms(1,2)] assms(3) by (simp add: utf8_len_def)
  obtain v where v: "toml_utf8_to_ucs (bs @ x # rest) (int (length bs)) =
      utf8_tail (bs @ x # rest) 1 (length bs - 1) v"
    using decode_encoded [OF assms(1-3)] by blast
  have "utf8_tail (bs @ x # rest) 1 (length bs - 1) v = Inr None"
  proof (rule utf8_tail_past)
    show "uint ((bs @ x # rest) ! i) < 0x80 \<or> 0xc0 \<le> uint ((bs @ x # rest) ! i)"
      if "i = 1 + (length bs - 1)" for i
    proof -
      have "i = length bs" using that n by simp
      then show ?thesis using assms(4) by simp
    qed
  qed (use n in auto)
  with v show ?thesis by simp
qed

lemma decode_ascii:
  assumes "0 \<le> c" "c < 0x80"
  shows "toml_ucs_to_utf8 c = Some [byte c]"
    "toml_utf8_to_ucs (byte c # rest) 1 = Inr (Some (c, 1))"
proof -
  show "toml_ucs_to_utf8 c = Some [byte c]" using assms by (simp add: toml_ucs_to_utf8_def)
  have "uint (byte c) = c" using assms by (intro uint_byte) auto
  then show "toml_utf8_to_ucs (byte c # rest) 1 = Inr (Some (c, 1))"
    using decode_dispatch(1) [of "byte c # rest" c 1] assms by simp
qed

section \<open>Properties\<close>

text \<open>C24. Encoding a code point: the call fails exactly on negative values, values above
  \<open>0x7FFFFFFF\<close>, the surrogates and the two noncharacters; otherwise the bytes are the encoding
  that the comments of the code describe (reading them back gives the code point), in the
  shortest form, which fits the six bytes of the caller's buffer.\<close>

theorem ucs_to_utf8_roundtrip:
  "case toml_ucs_to_utf8 c of
     None \<Rightarrow> \<not> ucs_encodable c
   | Some bs \<Rightarrow> ucs_encodable c \<and> utf8_value bs = Some c \<and> length bs = utf8_len c \<and> length bs \<le> 6"
proof (cases "toml_ucs_to_utf8 c")
  case None
  then show ?thesis using ucs_to_utf8_total [of c] by simp
next
  case (Some bs)
  then have c: "ucs_encodable c" using ucs_to_utf8_total [of c] by auto
  with ucs_to_utf8_value [OF c Some] Some show ?thesis
    by (simp add: utf8_len_def)
qed

text \<open>C36. The decoder rejects correct multi-byte input: the encoding of any code point above
  \<open>0x7F\<close> is refused whenever the byte after it is not a continuation byte, because the decoder
  skips the second byte and looks at the one after the sequence.\<close>

theorem utf8_decoder_rejects_multibyte:
  assumes "toml_ucs_to_utf8 c = Some bs" "0x80 \<le> c" "uint x < 0x80 \<or> 0xc0 \<le> uint x"
  shows "utf8_value bs = Some c \<and> toml_utf8_to_ucs (bs @ x # rest) (int (length bs)) = Inr None"
proof -
  have c: "ucs_encodable c" using ucs_to_utf8_total [of c] assms(1) by auto
  from ucs_to_utf8_value [OF c assms(1)] decode_multibyte_fails [OF c assms] show ?thesis by blast
qed

theorem utf8_decoder_rejects_multibyte_witness:
  "utf8_value [0xC3, 0xA9] = Some 0xE9 \<and> toml_utf8_to_ucs [0xC3, 0xA9, 0x22] 2 = Inr None"
proof -
  have "toml_ucs_to_utf8 0xE9 = Some [0xC3, 0xA9]"
    by (simp add: toml_ucs_to_utf8_def drop_bit_eq_div byte_def)
  from utf8_decoder_rejects_multibyte [OF this, of "0x22" "[]"] show ?thesis by simp
qed

end
