(* ===== verification/Toml_String.thy ===== *)
theory Toml_String
  imports Utf8
begin

text \<open>
  Model of the string functions of \<^verbatim>\<open>src/external/toml.c\<close>: \<open>normalize_string\<close> with its growing
  buffer, \<open>kill_line_ending_backslash\<close> and \<open>toml_rtos\<close>. A pointer into a NUL-terminated string
  is the list of characters from there to the terminator; \<open>peek\<close> reads the terminator where
  the list ends. A \<open>const char *\<close> result is the list up to the first NUL (\<open>cstr\<close>).
\<close>

definition cstr :: "string \<Rightarrow> string" where
  "cstr s = takeWhile (\<lambda>c. c \<noteq> CHR 0x00) s"

definition peek :: "string \<Rightarrow> nat \<Rightarrow> char" where
  "peek s k = (if k < length s then s ! k else CHR 0x00)"

abbreviation BS :: char where "BS \<equiv> CHR 0x5C"
abbreviation DQ :: char where "DQ \<equiv> CHR 0x22"
abbreviation SQ :: char where "SQ \<equiv> CHR 0x27"
abbreviation LF :: char where "LF \<equiv> CHR 0x0A"
abbreviation CR :: char where "CR \<equiv> CHR 0x0D"
abbreviation TAB :: char where "TAB \<equiv> CHR 0x09"

text \<open>The characters of \<open>strspn(p, " \<close>\<^verbatim>\<open>\t\r\n\<close>\<open>")\<close>.\<close>

definition is_space :: "char \<Rightarrow> bool" where
  "is_space c \<longleftrightarrow> c = CHR '' '' \<or> c = TAB \<or> c = CR \<or> c = LF"

section \<open>normalize\_string\<close>

datatype norm = Norm_fault fault | Norm_error string | Norm_ok string

definition hex_value :: "char \<Rightarrow> int" where
  "hex_value ch =
     (let k = int (of_char ch) in
      if 48 \<le> k \<and> k \<le> 57 then k - 48 else if 65 \<le> k \<and> k \<le> 70 then k - 65 + 10 else -1)"

text \<open>\<open>ch\<close> is the variable of the code, which the loop overwrites; \<open>n\<close> is \<open>sq - sp\<close>.\<close>

fun read_hex :: "nat \<Rightarrow> nat \<Rightarrow> char \<Rightarrow> string \<Rightarrow> nat \<Rightarrow> int \<Rightarrow> string + int \<times> string \<times> nat" where
  "read_hex nhex 0 ch sp n ucs = Inr (ucs, sp, n)"
| "read_hex nhex (Suc i) ch sp n ucs =
     (if n = 0 then Inl ([BS, ch] @ '' expects '' @ show_nat nhex @ '' hex chars'')
      else let ch = peek sp 0; v = hex_value ch
        in if v = -1 then Inl (''invalid hex chars for '' @ [BS] @ ''u or '' @ [BS] @ ''U'')
           else read_hex nhex i ch (tl sp) (n - 1) (ucs * 16 + v))"

lemma read_hex_shrinks: "read_hex nhex i ch sp n ucs = Inr (u, sp', n') \<Longrightarrow> n' \<le> n"
  by (induction nhex i ch sp n ucs rule: read_hex.induct) (fastforce simp: Let_def split: if_splits)+

definition escape_char :: "char \<Rightarrow> char option" where
  "escape_char ch =
     (if ch = CHR ''b'' then Some (CHR 0x08)
      else if ch = CHR ''t'' then Some TAB
      else if ch = CHR ''n'' then Some LF
      else if ch = CHR ''f'' then Some (CHR 0x0C)
      else if ch = CHR ''r'' then Some CR
      else if ch = DQ then Some DQ
      else if ch = BS then Some BS
      else None)"

definition chars_of :: "8 word list \<Rightarrow> string" where
  "chars_of bs = map (\<lambda>b. char_of (unat b)) bs"

text \<open>
  One iteration per step; \<open>dst\<close> is what has been written (its length is \<open>off\<close>), \<open>max\<close> the
  size of the buffer, and every write is checked against it.
\<close>

function normalize_loop :: "bool \<Rightarrow> string \<Rightarrow> nat \<Rightarrow> nat \<Rightarrow> string \<Rightarrow> norm" where
  "normalize_loop kill sp n max0 dst =
     (let off = length dst;
          max = (if int max0 - 10 \<le> int off then max0 + 100 else max0)
      in
      if n = 0 then (if off < max then Norm_ok dst else Norm_fault OutOfBounds)
      else if peek sp 0 \<noteq> BS then
        (if off < max then normalize_loop kill (tl sp) (n - 1) max (dst @ [peek sp 0])
         else Norm_fault OutOfBounds)
      else let sp1 = tl sp; n1 = n - 1 in
      if n1 = 0 then Norm_error ''last backslash is invalid''
      else if kill \<and> (peek sp1 0 = LF \<or> (peek sp1 0 = CR \<and> peek sp1 1 = LF)) then
        (let k = length (takeWhile is_space sp1)
         in normalize_loop kill (drop k sp1) (n1 - k) max dst)
      else let ch = peek sp1 0; sp2 = tl sp1; n2 = n1 - 1 in
      if ch = CHR ''u'' \<or> ch = CHR ''U'' then
        (let nhex = (if ch = CHR ''u'' then 4 else 8)
         in case read_hex nhex nhex ch sp2 n2 0 of
              Inl e \<Rightarrow> Norm_error e
            | Inr (ucs, sp3, n3) \<Rightarrow>
                (case toml_ucs_to_utf8 ucs of
                   None \<Rightarrow> Norm_error (''illegal ucs code in '' @ [BS] @ ''u or '' @ [BS] @ ''U'')
                 | Some bs \<Rightarrow>
                     if off + length bs \<le> max
                     then normalize_loop kill sp3 n3 max (dst @ chars_of bs)
                     else Norm_fault OutOfBounds))
      else (case escape_char ch of
              None \<Rightarrow> Norm_error (''illegal escape char '' @ [BS, ch])
            | Some c \<Rightarrow>
                if off < max then normalize_loop kill sp2 n2 max (dst @ [c])
                else Norm_fault OutOfBounds))"
  by pat_completeness auto
termination
  by (relation "measure (\<lambda>(kill, sp, n, max, dst). n)") (auto dest!: read_hex_shrinks)

declare normalize_loop.simps [simp del]

definition normalize_string :: "string \<Rightarrow> nat \<Rightarrow> bool \<Rightarrow> norm" where
  "normalize_string src srclen kill = normalize_loop kill src srclen 0 []"

section \<open>kill\_line\_ending\_backslash\<close>

text \<open>
  One of the two passes: find \<open>pat\<close> from the current position on, drop the backslash and the
  white space after it, and go on from there.
\<close>

definition prefix_of :: "string \<Rightarrow> string \<Rightarrow> bool" where
  "prefix_of pat s \<longleftrightarrow> take (length pat) s = pat"

function kill_pass :: "string \<Rightarrow> string \<Rightarrow> string" where
  "kill_pass pat [] = []"
| "kill_pass pat (c # p) =
     (if prefix_of pat (c # p) then kill_pass pat (dropWhile is_space p) else c # kill_pass pat p)"
  by pat_completeness auto
termination
  by (relation "measure (\<lambda>(pat, s). length s)") (auto simp: length_dropWhile_le less_Suc_eq_le)

definition kill_line_ending_backslash :: "string \<Rightarrow> string" where
  "kill_line_ending_backslash str = kill_pass [BS, CR, LF] (kill_pass [BS, LF] str)"

section \<open>toml\_rtos\<close>

text \<open>
  \<open>src\<close> is a NUL-terminated string (no NUL in it). \<open>None\<close> is the return value \<open>-1\<close>. The two
  pointers \<open>sp\<close> and \<open>sq\<close> are offsets; \<open>sp <= sq\<close> is a test on signed differences.
\<close>

definition skip_newline :: "string \<Rightarrow> nat \<Rightarrow> nat" where
  "skip_newline src sp =
     (if peek src sp = LF then sp + 1
      else if peek src sp = CR \<and> peek src (sp + 1) = LF then sp + 2
      else sp)"

definition strndup_range :: "string \<Rightarrow> nat \<Rightarrow> nat \<Rightarrow> string" where
  "strndup_range src sp sq = take (sq - sp) (drop sp src)"

definition toml_rtos :: "string \<Rightarrow> norm option" where
  "toml_rtos src =
     (if peek src 0 \<noteq> SQ \<and> peek src 0 \<noteq> DQ then None
      else let srclen = length src in
      if peek src 0 = SQ then
        (if prefix_of [SQ, SQ, SQ] src then
           (if 6 \<le> srclen \<and> drop (srclen - 3) src = [SQ, SQ, SQ]
            then Some (Norm_ok (kill_line_ending_backslash
                   (strndup_range src (skip_newline src 3) (srclen - 3))))
            else None)
         else (if 2 \<le> srclen \<and> peek src (srclen - 1) = SQ
               then Some (Norm_ok (strndup_range src 1 (srclen - 1))) else None))
      else
        (let normal = (\<lambda>sp sq. case normalize_string (drop sp src) (sq - sp) True of
                           Norm_error _ \<Rightarrow> None
                         | Norm_fault f \<Rightarrow> Some (Norm_fault f)
                         | Norm_ok s \<Rightarrow> Some (Norm_ok (cstr s)))
         in if prefix_of [DQ, DQ, DQ] src then
              (if 6 \<le> srclen \<and> drop (srclen - 3) src = [DQ, DQ, DQ]
               then normal (skip_newline src 3) (srclen - 3) else None)
            else (if 2 \<le> srclen \<and> peek src (srclen - 1) = DQ
                  then normal 1 (srclen - 1) else None)))"

section \<open>The buffer\<close>

lemma ucs_to_utf8_length: "toml_ucs_to_utf8 c = Some bs \<Longrightarrow> length bs \<le> 6"
  by (auto simp: toml_ucs_to_utf8_def split: if_splits)

text \<open>The size of the buffer in one iteration: there is room for more than any one iteration
  writes.\<close>

definition grow :: "nat \<Rightarrow> nat \<Rightarrow> nat" where
  "grow off max0 = (if int max0 - 10 \<le> int off then max0 + 100 else max0)"

lemma grow_room: "off \<le> max0 \<Longrightarrow> off + 10 < grow off max0"
  by (auto simp: grow_def)

text \<open>The iterations by the kind of character they meet.\<close>

lemma normalize_loop_end: "length dst \<le> max0 \<Longrightarrow> normalize_loop kill sp 0 max0 dst = Norm_ok dst"
  using grow_room [of "length dst" max0]
  by (subst normalize_loop.simps) (simp add: Let_def grow_def [symmetric])

lemma normalize_loop_plain:
  assumes "length dst \<le> max0" "c \<noteq> BS"
  shows "normalize_loop kill (c # sp) (Suc n) max0 dst =
    normalize_loop kill sp n (grow (length dst) max0) (dst @ [c])"
  using grow_room [OF assms(1)] assms(2)
  by (subst normalize_loop.simps) (simp add: Let_def grow_def [symmetric] peek_def)

lemma normalize_loop_escape:
  assumes "length dst \<le> max0" "escape_char e = Some c" "0 < n"
  shows "normalize_loop kill (BS # e # sp) (Suc n) max0 dst =
    normalize_loop kill sp (n - 1) (grow (length dst) max0) (dst @ [c])"
proof -
  have "e \<noteq> LF" "e \<noteq> CR" "e \<noteq> CHR ''u''" "e \<noteq> CHR ''U''" using assms(2) by (auto simp: escape_char_def)
  then show ?thesis
    using grow_room [OF assms(1)] assms(2,3)
    by (subst normalize_loop.simps) (simp add: Let_def grow_def [symmetric] peek_def)
qed

lemma normalize_loop_unicode:
  assumes "length dst \<le> max0" "e = CHR ''u'' \<and> k = 4 \<or> e = CHR ''U'' \<and> k = 8" "0 < n"
    and "read_hex k k e sp (n - 1) 0 = Inr (ucs, sp', n')" "toml_ucs_to_utf8 ucs = Some bs"
  shows "normalize_loop kill (BS # e # sp) (Suc n) max0 dst =
    normalize_loop kill sp' n' (grow (length dst) max0) (dst @ chars_of bs)"
proof -
  have "e \<noteq> LF" "e \<noteq> CR" using assms(2) by auto
  then show ?thesis
    using grow_room [OF assms(1)] ucs_to_utf8_length [OF assms(5)] assms(2-5)
    by (subst normalize_loop.simps) (auto simp add: Let_def grow_def [symmetric] peek_def)
qed

lemma normalize_loop_no_fault:
  "length dst \<le> max0 \<Longrightarrow> normalize_loop kill sp n max0 dst \<noteq> Norm_fault f"
proof (induction n arbitrary: sp max0 dst rule: less_induct)
  case (less n)
  let ?m = "grow (length dst) max0"
  note room = grow_room [OF less.prems]
  have IH: "normalize_loop kill sp' n' ?m dst' \<noteq> Norm_fault f" if "n' < n" "length dst' \<le> length dst + 6" for sp' n' dst'
    using that room by (intro less.IH) auto
  show ?case
  proof (cases "n = 0 \<or> peek sp 0 \<noteq> BS \<or> n - 1 = 0")
    case True
    then show ?thesis using room
      by (subst normalize_loop.simps) (auto simp: Let_def grow_def [symmetric] IH)
  next
    case False
    then have n: "\<not> n = 0" "peek sp 0 = BS" "\<not> n - 1 = 0" by auto
    have shrink: "n' < n" if "read_hex a b e s (n - Suc (Suc 0)) 0 = Inr (u, s', n')" for a b e s u s' n'
      using read_hex_shrinks [OF that] n by simp
    have len: "length bs \<le> 6" if "toml_ucs_to_utf8 u = Some bs" for u bs
      by (rule ucs_to_utf8_length [OF that])
    have kill: "n - Suc 0 - length (takeWhile is_space (tl sp)) < n" using n by simp
    let ?ch = "peek (tl sp) 0" and ?sp2 = "tl (tl sp)"
    let ?k = "length (takeWhile is_space (tl sp))" and ?h = "if ?ch = CHR ''u'' then 4 else 8 :: nat"
    let ?eol = "kill \<and> (?ch = LF \<or> (?ch = CR \<and> peek (tl sp) 1 = LF))"
    have eq: "normalize_loop kill sp n max0 dst =
      (if ?eol then normalize_loop kill (drop ?k (tl sp)) (n - Suc 0 - ?k) ?m dst
       else if ?ch = CHR ''u'' \<or> ?ch = CHR ''U'' then
         (case read_hex ?h ?h ?ch ?sp2 (n - Suc (Suc 0)) 0 of Inl e \<Rightarrow> Norm_error e
          | Inr (ucs, sp3, n3) \<Rightarrow>
             (case toml_ucs_to_utf8 ucs of
                None \<Rightarrow> Norm_error (''illegal ucs code in '' @ [BS] @ ''u or '' @ [BS] @ ''U'')
              | Some bs \<Rightarrow> if length dst + length bs \<le> ?m
                  then normalize_loop kill sp3 n3 ?m (dst @ chars_of bs) else Norm_fault OutOfBounds))
       else (case escape_char ?ch of None \<Rightarrow> Norm_error (''illegal escape char '' @ [BS, ?ch])
             | Some c \<Rightarrow> if length dst < ?m then normalize_loop kill ?sp2 (n - Suc (Suc 0)) ?m (dst @ [c])
                 else Norm_fault OutOfBounds))"
      using n by (subst normalize_loop.simps) (auto simp: Let_def grow_def [symmetric])
    consider ?eol | "\<not> ?eol" "?ch = CHR ''u'' \<or> ?ch = CHR ''U''" | "\<not> ?eol" "\<not> (?ch = CHR ''u'' \<or> ?ch = CHR ''U'')"
      by blast
    then show ?thesis
    proof cases
      case 1
      then show ?thesis unfolding eq if_P [OF 1] by (intro IH) (use kill in simp_all)
    next
      case 2
      show ?thesis
      proof (cases "read_hex ?h ?h ?ch ?sp2 (n - Suc (Suc 0)) 0")
        case (Inl e)
        then show ?thesis unfolding eq if_not_P [OF 2(1)] if_P [OF 2(2)] by simp
      next
        case (Inr r)
        obtain ucs sp3 n3 where r: "r = (ucs, sp3, n3)" by (cases r)
        have "n3 < n" using read_hex_shrinks [OF Inr [unfolded r]] n by simp
        then show ?thesis
          unfolding eq if_not_P [OF 2(1)] if_P [OF 2(2)] Inr r using room len [of ucs]
          by (auto simp: chars_of_def IH split: option.split)
      qed
    next
      case 3
      then show ?thesis unfolding eq if_not_P [OF 3(1)] if_not_P [OF 3(2)]
        using room n by (auto simp: IH split: option.split)
    qed
  qed
qed

section \<open>Quoting\<close>

text \<open>The inverse of the escapes: how a string is written between double quotes.\<close>

definition quote_char :: "char \<Rightarrow> string" where
  "quote_char c =
     (if c = DQ \<or> c = BS then [BS, c]
      else if c = LF then [BS, CHR ''n''] else if c = CR then [BS, CHR ''r'']
      else if c = TAB then [BS, CHR ''t''] else [c])"

definition quote_basic :: "string \<Rightarrow> string" where
  "quote_basic s = [DQ] @ concat (map quote_char s) @ [DQ]"

lemma quote_char_cases:
  obtains "quote_char c = [c]" "c \<noteq> BS" | e where "quote_char c = [BS, e]" "escape_char e = Some c"
  unfolding quote_char_def escape_char_def by (cases "c = DQ"; cases "c = BS"; cases "c = LF"; cases "c = CR"; cases "c = TAB") auto

lemma normalize_quoted:
  "length dst \<le> max0 \<Longrightarrow>
   normalize_loop kill (concat (map quote_char s) @ rest) (length (concat (map quote_char s))) max0 dst =
     Norm_ok (dst @ s)"
proof (induction s arbitrary: max0 dst)
  case Nil
  then show ?case by (simp add: normalize_loop_end)
next
  case (Cons c s)
  let ?q = "concat (map quote_char s)"
  have le: "length (dst @ [c]) \<le> grow (length dst) max0"
    using grow_room [OF Cons.prems] by simp
  show ?case
  proof (rule quote_char_cases [of c])
    assume c: "quote_char c = [c]" "c \<noteq> BS"
    then have "normalize_loop kill (concat (map quote_char (c # s)) @ rest)
        (length (concat (map quote_char (c # s)))) max0 dst =
      normalize_loop kill (?q @ rest) (length ?q) (grow (length dst) max0) (dst @ [c])"
      using normalize_loop_plain [OF Cons.prems c(2), of kill "?q @ rest" "length ?q"] by simp
    then show ?thesis using Cons.IH [OF le] by simp
  next
    fix e assume c: "quote_char c = [BS, e]" "escape_char e = Some c"
    then have "normalize_loop kill (concat (map quote_char (c # s)) @ rest)
        (length (concat (map quote_char (c # s)))) max0 dst =
      normalize_loop kill (?q @ rest) (length ?q) (grow (length dst) max0) (dst @ [c])"
      using normalize_loop_escape [OF Cons.prems c(2), of "Suc (length ?q)" kill "?q @ rest"] by simp
    then show ?thesis using Cons.IH [OF le] by simp
  qed
qed

lemma quote_not_triple: "\<not> prefix_of [DQ, DQ, DQ] (quote_basic s)"
proof (cases s)
  case Nil
  then show ?thesis by (simp add: quote_basic_def prefix_of_def)
next
  case (Cons c t)
  have "hd (quote_char c) \<noteq> DQ" "quote_char c \<noteq> []" by (auto simp: quote_char_def)
  then obtain d ds where "quote_char c = d # ds" "d \<noteq> DQ" by (cases "quote_char c") auto
  then show ?thesis by (simp add: Cons quote_basic_def prefix_of_def)
qed

lemma peek_append_last: "peek (xs @ [c]) (length xs) = c"
  by (simp add: peek_def)

lemma toml_rtos_basic:
  "toml_rtos (quote_basic s) = Some (Norm_ok (cstr s))"
proof -
  let ?q = "concat (map quote_char s)"
  have len: "length (quote_basic s) = Suc (Suc (length ?q))" by (simp add: quote_basic_def)
  have hd: "peek (quote_basic s) 0 = DQ" by (simp add: quote_basic_def peek_def)
  have lst: "peek (quote_basic s) (Suc (length ?q)) = DQ"
    using peek_append_last [of "DQ # ?q" DQ] by (simp add: quote_basic_def)
  have "normalize_string (drop 1 (quote_basic s)) (length ?q) True = Norm_ok s"
    using normalize_quoted [of "[]" 0 True s "[DQ]"] by (simp add: normalize_string_def quote_basic_def)
  then show ?thesis
    using quote_not_triple [of s] by (simp add: toml_rtos_def len hd lst Let_def)
qed

lemma toml_rtos_literal:
  assumes "SQ \<notin> set s"
  shows "toml_rtos ([SQ] @ s @ [SQ]) = Some (Norm_ok s)"
proof -
  have "\<not> prefix_of [SQ, SQ, SQ] ([SQ] @ s @ [SQ])"
    using assms by (cases s) (auto simp: prefix_of_def)
  moreover have "peek ([SQ] @ s @ [SQ]) (Suc (length s)) = SQ"
    using peek_append_last [of "SQ # s" SQ] by simp
  ultimately show ?thesis
    by (simp add: toml_rtos_def peek_def strndup_range_def)
qed

section \<open>Unicode escapes\<close>

definition hex_digit :: "nat \<Rightarrow> char" where
  "hex_digit d = char_of (if d < 10 then 48 + d else 55 + d)"

definition hex4 :: "int \<Rightarrow> string" where
  "hex4 c = [hex_digit (nat (c div 4096 mod 16)), hex_digit (nat (c div 256 mod 16)),
     hex_digit (nat (c div 16 mod 16)), hex_digit (nat (c mod 16))]"

lemma hex_value_digit: "d < 16 \<Longrightarrow> hex_value (hex_digit d) = int d"
  by (auto simp: hex_value_def hex_digit_def Let_def)

lemma read_hex_step:
  "d < 16 \<Longrightarrow> read_hex k (Suc i) e (hex_digit d # s) (Suc n) u = read_hex k i (hex_digit d) s n (u * 16 + int d)"
  by (simp add: peek_def hex_value_digit Let_def)

lemma read_hex4:
  assumes "0 \<le> c" "c < 0x10000"
  shows "read_hex k (Suc (Suc (Suc (Suc 0)))) e (hex4 c @ rest) (Suc (Suc (Suc (Suc n)))) 0 = Inr (c, rest, n)"
proof -
  have d: "nat (x mod 16) < 16" "int (nat (x mod 16)) = x mod 16" for x :: int
    by (simp_all add: nat_less_iff)
  have "((c div 4096 mod 16 * 16 + c div 256 mod 16) * 16 + c div 16 mod 16) * 16 + c mod 16 = c"
  proof -
    have "c div 4096 = c div 16 div 16 div 16" "c div 256 = c div 16 div 16"
      by (simp_all flip: zdiv_zmult2_eq)
    moreover have "c div 4096 mod 16 = c div 4096" using assms by (simp add: mod_pos_pos_trivial)
    moreover have "x div 16 * 16 + x mod 16 = x" for x :: int by simp
    ultimately show ?thesis by metis
  qed
  then show ?thesis
    by (simp only: hex4_def append.simps read_hex_step d read_hex.simps(1) mult_zero_left add_0)
qed

lemma toml_rtos_unicode:
  assumes "0 \<le> c" "c < 0x10000"
  shows "toml_rtos ([DQ, BS, CHR ''u''] @ hex4 c @ [DQ]) =
    map_option (\<lambda>bs. Norm_ok (cstr (chars_of bs))) (toml_ucs_to_utf8 c)"
proof -
  let ?src = "[DQ, BS, CHR ''u''] @ hex4 c @ [DQ]"
  have len: "length ?src = 8" "length (hex4 c) = 4" by (simp_all add: hex4_def)
  have lst: "peek ?src 7 = DQ"
    using peek_append_last [of "[DQ, BS, CHR ''u''] @ hex4 c" DQ] len by simp
  have rh: "read_hex 4 4 (CHR ''u'') (hex4 c @ [DQ]) 4 0 = Inr (c, [DQ], 0)"
    using read_hex4 [OF assms, of 4 "CHR ''u''" "[DQ]" 0] by (simp add: numeral_eq_Suc del: read_hex.simps)
  have norm: "normalize_string (drop 1 ?src) 6 True = (case toml_ucs_to_utf8 c of
      None \<Rightarrow> Norm_error (''illegal ucs code in '' @ [BS] @ ''u or '' @ [BS] @ ''U'')
    | Some bs \<Rightarrow> Norm_ok (chars_of bs))"
  proof (cases "toml_ucs_to_utf8 c")
    case None
    then show ?thesis unfolding normalize_string_def using rh
      by (subst normalize_loop.simps) (simp add: Let_def peek_def del: read_hex.simps)
  next
    case (Some bs)
    then show ?thesis
      using normalize_loop_unicode [of "[]" 0 "CHR ''u''" 4 5 "hex4 c @ [DQ]" c "[DQ]" 0 bs True] rh
        normalize_loop_end [of "chars_of bs" "grow 0 0" True "[DQ]"] ucs_to_utf8_length [OF Some] grow_room [of 0 0]
      by (simp add: normalize_string_def chars_of_def)
  qed
  have "\<not> prefix_of [DQ, DQ, DQ] ?src" "peek ?src 0 = DQ" by (simp_all add: prefix_of_def peek_def)
  then show ?thesis
    using norm lst len by (simp add: toml_rtos_def Let_def split: option.splits)
qed

text \<open>A string value is either refused or read.\<close>

lemma toml_rtos_ok: "toml_rtos src = Some n \<Longrightarrow> \<exists>t. n = Norm_ok t"
proof -
  have "normalize_string sp n kill \<noteq> Norm_fault g" for sp n kill g
    unfolding normalize_string_def by (rule normalize_loop_no_fault) simp
  then show "toml_rtos src = Some n \<Longrightarrow> \<exists>t. n = Norm_ok t"
    by (auto simp: toml_rtos_def Let_def split: norm.splits if_splits)
qed

section \<open>Properties\<close>


text \<open>C23. Quoting and reading are inverse: a string without NUL, written between double quotes
  with the escapes of the format, is read back unchanged, and so is a string without a single
  quote written between single quotes.\<close>

theorem toml_rtos_roundtrip:
  assumes "CHR 0x00 \<notin> set s"
  shows "toml_rtos (quote_basic s) = Some (Norm_ok s) \<and>
    (SQ \<in> set s \<or> toml_rtos ([SQ] @ s @ [SQ]) = Some (Norm_ok s))"
proof -
  have "cstr s = s" unfolding cstr_def takeWhile_eq_all_conv using assms by auto
  then show ?thesis using toml_rtos_basic [of s] toml_rtos_literal [of s] by auto
qed

theorem toml_rtos_roundtrip_witness:
  "toml_rtos (quote_basic (''a '' @ [DQ, BS, LF, TAB] @ ''z'')) = Some (Norm_ok (''a '' @ [DQ, BS, LF, TAB] @ ''z''))"
  using toml_rtos_roundtrip [of "''a '' @ [DQ, BS, LF, TAB] @ ''z''"] by auto



end
