(* ===== verification/Toml_Lex.thy ===== *)
theory Toml_Lex
  imports Toml_String
begin

text \<open>
  The lexer of \<^verbatim>\<open>src/external/toml.c\<close>: \<open>scan_string\<close>, \<open>next_token\<close> and \<open>normalize_key\<close>. The
  text is a string without NUL; \<open>ctx->start\<close> is position 0 and \<open>ctx->stop\<close> its length, a
  pointer into the text is a position. A function that calls \<open>e_syntax_error\<close> answers with the
  line and the message instead; the parser turns that into the jump.
\<close>

datatype tokentype = INVALID | DOT | COMMA | EQUAL | LBRACE | RBRACE | NEWLINE | LBRACKET | RBRACKET | STRING

record token =
  tk_tok :: tokentype
  tk_lineno :: int
  tk_ptr :: nat
  tk_len :: nat
  tk_eof :: bool

text \<open>The characters of a token.\<close>

definition tk_text :: "string \<Rightarrow> token \<Rightarrow> string" where
  "tk_text conf t = take (tk_len t) (drop (tk_ptr t) conf)"

section \<open>scan\_string\<close>

text \<open>\<open>strstr(p, pat)\<close>: how far behind \<open>p\<close> the first occurrence starts.\<close>

fun strstr :: "string \<Rightarrow> string \<Rightarrow> nat option" where
  "strstr [] pat = (if pat = [] then Some 0 else None)"
| "strstr (c # p) pat = (if prefix_of pat (c # p) then Some 0 else map_option Suc (strstr p pat))"

text \<open>The two states of an escape sequence: after the backslash, and with hex digits to come.
  Each loop returns the number of characters it has stepped over, or the error message.\<close>

definition bad_escape :: string where "bad_escape = ''bad escape char''"
definition expect_hex :: string where "expect_hex = ''expect hex char''"

definition simple_escape :: "char \<Rightarrow> bool" where
  "simple_escape c \<longleftrightarrow> c \<in> {CHR ''b'', CHR ''t'', CHR ''n'', CHR ''f'', CHR ''r'', DQ, BS}"

definition hex_upper :: "char \<Rightarrow> bool" where
  "hex_upper c \<longleftrightarrow> hex_value c \<noteq> -1"

text \<open>Between triple double quotes; \<open>qcnt\<close> counts quotes and the result has the last count.\<close>

fun scan_triple :: "bool \<Rightarrow> nat \<Rightarrow> nat \<Rightarrow> string \<Rightarrow> string + nat \<times> nat" where
  "scan_triple escape hexreq qcnt [] = Inr (0, qcnt)"
| "scan_triple escape hexreq qcnt (c # p) =
     (let step = (\<lambda>r. map_sum id (\<lambda>(n, q). (Suc n, q)) r) in
      if 3 \<le> qcnt then Inr (0, qcnt)
      else if escape then
        (if simple_escape c then step (scan_triple False hexreq qcnt p)
         else if c = CHR ''u'' then step (scan_triple False 4 qcnt p)
         else if c = CHR ''U'' then step (scan_triple False 8 qcnt p)
         else if c = LF then step (scan_triple False hexreq qcnt p)
         else Inl bad_escape)
      else if 0 < hexreq then
        (if hex_upper c then step (scan_triple False (hexreq - 1) qcnt p) else Inl expect_hex)
      else if c = BS then step (scan_triple True hexreq qcnt p)
      else step (scan_triple False hexreq (if c = DQ then Suc qcnt else 0) p))"

text \<open>Between double quotes: up to the character at which the loop stops.\<close>

fun scan_double :: "bool \<Rightarrow> nat \<Rightarrow> string \<Rightarrow> string + nat" where
  "scan_double escape hexreq [] = Inr 0"
| "scan_double escape hexreq (c # p) =
     (let step = map_sum id Suc in
      if escape then
        (if simple_escape c then step (scan_double False hexreq p)
         else if c = CHR ''u'' then step (scan_double False 4 p)
         else if c = CHR ''U'' then step (scan_double False 8 p)
         else Inl bad_escape)
      else if 0 < hexreq then
        (if hex_upper c then step (scan_double False (hexreq - 1) p) else Inl expect_hex)
      else if c = BS then step (scan_double True hexreq p)
      else if c = LF then Inr 0
      else if c = DQ then Inr 0
      else step (scan_double False hexreq p))"

definition bare_char :: "bool \<Rightarrow> char \<Rightarrow> bool" where
  "bare_char dotisspecial c \<longleftrightarrow>
     \<not> (c = CHR ''.'' \<and> dotisspecial) \<and>
     ((let k = of_char c :: nat in 65 \<le> k \<and> k \<le> 90 \<or> 97 \<le> k \<and> k \<le> 122 \<or> 48 \<le> k \<and> k \<le> 57) \<or>
      c \<in> {CHR ''+'', CHR ''-'', CHR ''_'', CHR ''.'', CHR '':''})"

text \<open>The length of the token that starts with \<open>p\<close>, or the message.\<close>

definition scan_string :: "string \<Rightarrow> bool \<Rightarrow> string + nat" where
  "scan_string p dotisspecial =
     (if prefix_of [SQ, SQ, SQ] p then
        (case strstr (drop 3 p) [SQ, SQ, SQ] of
           None \<Rightarrow> Inl ''unterminated triple-s-quote''
         | Some k \<Rightarrow> Inr (3 + k + 3))
      else if prefix_of [DQ, DQ, DQ] p then
        (case scan_triple False 0 0 (drop 3 p) of
           Inl e \<Rightarrow> Inl e
         | Inr (k, qcnt) \<Rightarrow> if qcnt \<noteq> 3 then Inl ''unterminated triple-quote'' else Inr (3 + k))
      else if peek p 0 = SQ then
        (let k = length (takeWhile (\<lambda>c. c \<noteq> LF \<and> c \<noteq> SQ) (tl p))
         in if peek p (1 + k) \<noteq> SQ then Inl ''unterminated s-quote'' else Inr (1 + k + 1))
      else if peek p 0 = DQ then
        (case scan_double False 0 (tl p) of
           Inl e \<Rightarrow> Inl e
         | Inr k \<Rightarrow> if peek p (1 + k) \<noteq> DQ then Inl ''unterminated quote'' else Inr (1 + k + 1))
      else Inr (length (takeWhile (bare_char dotisspecial) p)))"

section \<open>next\_token\<close>

definition ret_token :: "tokentype \<Rightarrow> int \<Rightarrow> nat \<Rightarrow> nat \<Rightarrow> token" where
  "ret_token tok lineno p len = \<lparr>tk_tok = tok, tk_lineno = lineno, tk_ptr = p, tk_len = len, tk_eof = False\<rparr>"

definition ret_eof :: "string \<Rightarrow> int \<Rightarrow> token" where
  "ret_eof conf lineno = (ret_token NEWLINE lineno (length conf) 0)\<lparr>tk_eof := True\<rparr>"

definition special_char :: "char \<Rightarrow> tokentype option" where
  "special_char c =
     (if c = CHR '','' then Some COMMA
      else if c = CHR ''='' then Some EQUAL
      else if c = CHR ''{'' then Some LBRACE
      else if c = CHR ''}'' then Some RBRACE
      else if c = CHR ''['' then Some LBRACKET
      else if c = CHR '']'' then Some RBRACKET
      else if c = LF then Some NEWLINE
      else None)"

text \<open>The loop that makes the next token; \<open>p\<close> is a position. The error is a line and a
  message.\<close>

function make_token :: "string \<Rightarrow> bool \<Rightarrow> int \<Rightarrow> nat \<Rightarrow> int \<times> string + token" where
  "make_token conf dotisspecial lineno p =
     (if p < length conf then
        (let c = conf ! p in
         if c = CHR ''#'' then
           make_token conf dotisspecial lineno (p + 1 + length (takeWhile (\<lambda>c. c \<noteq> LF) (drop (p + 1) conf)))
         else if dotisspecial \<and> c = CHR ''.'' then Inr (ret_token DOT lineno p 1)
         else case special_char c of
           Some t \<Rightarrow> Inr (ret_token t lineno p 1)
         | None \<Rightarrow>
             if c = CR \<or> c = CHR '' '' \<or> c = TAB then make_token conf dotisspecial lineno (p + 1)
             else (case scan_string (drop p conf) dotisspecial of
                     Inl e \<Rightarrow> Inl (lineno, e)
                   | Inr len \<Rightarrow> Inr (ret_token STRING lineno p len)))
      else Inr (ret_eof conf lineno))"
  by pat_completeness auto
termination
  by (relation "measure (\<lambda>(conf, d, l, p). length conf - p)") auto

declare make_token.simps [simp del]

definition next_tok :: "string \<Rightarrow> bool \<Rightarrow> token \<Rightarrow> int \<times> string + token" where
  "next_tok conf dotisspecial t =
     make_token conf dotisspecial
       (tk_lineno t + int (length (filter (\<lambda>c. c = LF) (tk_text conf t)))) (tk_ptr t + tk_len t)"

section \<open>normalize\_key\<close>

text \<open>\<open>isalnum\<close> of the C locale.\<close>

definition c_isalnum :: "char \<Rightarrow> bool" where
  "c_isalnum c \<longleftrightarrow> (let k = of_char c :: nat in 65 \<le> k \<and> k \<le> 90 \<or> 97 \<le> k \<and> k \<le> 122 \<or> 48 \<le> k \<and> k \<le> 57)"

text \<open>The three ways to fail, and the key as a C string. The length of the part between the
  quotes must not be negative.\<close>

datatype key_result = Key_fault fault | Key_error string | Key_bad | Key string

definition normalize_key :: "string \<Rightarrow> token \<Rightarrow> key_result" where
  "normalize_key conf t =
     (let sp = drop (tk_ptr t) conf; n = tk_len t; ch = peek sp 0 in
      if ch = SQ \<or> ch = DQ then
        (let d = (if peek sp 1 = ch \<and> peek sp 2 = ch then 3 else 1) in
         if n < 2 * d then Key_fault OutOfBounds
         else
           (case (if ch = SQ then Norm_ok (take (n - 2 * d) (drop d sp))
                  else normalize_string (drop d sp) (n - 2 * d) False) of
              Norm_fault f \<Rightarrow> Key_fault f
            | Norm_error e \<Rightarrow> Key_error e
            | Norm_ok key \<Rightarrow> if LF \<in> set (cstr key) then Key_bad else Key (cstr key)))
      else if (\<forall>k \<in> set (tk_text conf t). c_isalnum k \<or> k = CHR ''_'' \<or> k = CHR ''-'') then Key (tk_text conf t)
      else Key_bad)"

section \<open>Tokens lie in the text\<close>

lemma prefix_of_length: "prefix_of pat s \<Longrightarrow> length pat \<le> length s"
  unfolding prefix_of_def by (drule arg_cong [of _ _ length]) simp

lemma strstr_bound: "strstr p pat = Some k \<Longrightarrow> k + length pat \<le> length p"
  by (induction p arbitrary: k) (auto split: if_splits dest!: prefix_of_length)

lemma scan_triple_bound: "scan_triple e h q p = Inr (k, q') \<Longrightarrow> k \<le> length p"
  by (induction e h q p arbitrary: k q' rule: scan_triple.induct)
    (auto simp: Let_def map_sum_def split: if_splits sum.splits)

text \<open>A closing triple quote takes at least three characters.\<close>

lemma scan_triple_quotes: "scan_triple e h q p = Inr (k, 3) \<Longrightarrow> q \<le> 3 \<Longrightarrow> 3 \<le> q + k"
  by (induction e h q p arbitrary: k rule: scan_triple.induct)
    (force simp: Let_def map_sum_def split: if_splits sum.splits)+

lemma scan_double_bound: "scan_double e h p = Inr k \<Longrightarrow> k \<le> length p"
  by (induction e h p arbitrary: k rule: scan_double.induct)
    (auto simp: Let_def map_sum_def split: if_splits sum.splits)

lemma peek_not_NUL: "peek p k \<noteq> CHR 0x00 \<Longrightarrow> k < length p"
  by (auto simp: peek_def split: if_splits)

definition string_token :: "string \<Rightarrow> nat \<Rightarrow> bool" where
  "string_token p n \<longleftrightarrow> n \<le> length p \<and>
     (peek p 0 = SQ \<or> peek p 0 = DQ \<longrightarrow>
        2 \<le> n \<and> (peek p 1 = peek p 0 \<and> peek p 2 = peek p 0 \<longrightarrow> 6 \<le> n))"

lemma prefix_of_three:
  "prefix_of [c, c, c] p \<longleftrightarrow> peek p 0 = c \<and> peek p 1 = c \<and> peek p 2 = c" if "c \<noteq> CHR 0x00"
proof
  assume "prefix_of [c, c, c] p"
  then obtain r where "p = c # c # c # r" unfolding prefix_of_def
    by (metis append_Cons append_Nil append_take_drop_id list.size(3,4))
  then show "peek p 0 = c \<and> peek p 1 = c \<and> peek p 2 = c" by (simp add: peek_def)
next
  assume a: "peek p 0 = c \<and> peek p 1 = c \<and> peek p 2 = c"
  then have "2 < length p" using that peek_not_NUL [of p 2] by auto
  then obtain x y z r where "p = x # y # z # r"
    by (metis One_nat_def Suc_1 length_0_conv length_Cons less_Suc_eq_0_disj list.exhaust not_less_zero)
  with a show "prefix_of [c, c, c] p" by (simp add: peek_def prefix_of_def)
qed

lemma scan_string_token:
  assumes "scan_string p d = Inr n"
  shows "string_token p n"
proof -
  consider (sq3) "prefix_of [SQ, SQ, SQ] p" | (dq3) "\<not> prefix_of [SQ, SQ, SQ] p" "prefix_of [DQ, DQ, DQ] p"
    | (sq) "\<not> prefix_of [SQ, SQ, SQ] p" "\<not> prefix_of [DQ, DQ, DQ] p" "peek p 0 = SQ"
    | (dq) "\<not> prefix_of [SQ, SQ, SQ] p" "\<not> prefix_of [DQ, DQ, DQ] p" "peek p 0 = DQ"
    | (bare) "\<not> prefix_of [SQ, SQ, SQ] p" "\<not> prefix_of [DQ, DQ, DQ] p" "peek p 0 \<noteq> SQ" "peek p 0 \<noteq> DQ"
    by blast
  then show ?thesis
  proof cases
    case sq3
    then obtain k where "strstr (drop 3 p) [SQ, SQ, SQ] = Some k" "n = 3 + k + 3"
      using assms by (auto simp: scan_string_def split: option.splits)
    with strstr_bound [OF this(1)] prefix_of_length [OF sq3] show ?thesis
      by (simp add: string_token_def)
  next
    case dq3
    then obtain k where k: "scan_triple False 0 0 (drop 3 p) = Inr (k, 3)" "n = 3 + k"
      using assms by (auto simp: scan_string_def split: sum.splits if_splits)
    with scan_triple_bound [OF k(1)] scan_triple_quotes [OF k(1)] prefix_of_length [OF dq3(2)] show ?thesis
      by (simp add: string_token_def)
  next
    case sq
    let ?k = "length (takeWhile (\<lambda>c. c \<noteq> LF \<and> c \<noteq> SQ) (tl p))"
    have "peek p (1 + ?k) = SQ" "n = 1 + ?k + 1"
      using assms sq by (simp_all add: scan_string_def Let_def split: if_splits)
    moreover from this have "1 + ?k < length p" by (intro peek_not_NUL) simp
    ultimately show ?thesis using sq(1,3) prefix_of_three [of SQ p] by (auto simp: string_token_def)
  next
    case dq
    then obtain k where "peek p (1 + k) = DQ" "n = 1 + k + 1"
      using assms by (auto simp: scan_string_def split: sum.splits if_splits)
    moreover from this have "1 + k < length p" by (intro peek_not_NUL) simp
    ultimately show ?thesis using dq(2,3) prefix_of_three [of DQ p] by (auto simp: string_token_def)
  next
    case bare
    then show ?thesis using assms by (auto simp: scan_string_def string_token_def length_takeWhile_le)
  qed
qed

text \<open>What the lexer makes: a token in the text; the token of the end is at the stop, a newline is
  one character otherwise, and a string has the length that its quotes need.\<close>

definition token_ok :: "string \<Rightarrow> token \<Rightarrow> bool" where
  "token_ok conf t \<longleftrightarrow> tk_ptr t + tk_len t \<le> length conf \<and>
     (if tk_eof t then tk_tok t = NEWLINE \<and> tk_ptr t = length conf \<and> tk_len t = 0
      else if tk_tok t = STRING then string_token (drop (tk_ptr t) conf) (tk_len t)
      else tk_len t = 1)"

lemma make_token_ok:
  "make_token conf d l p = Inr t \<Longrightarrow> p \<le> length conf \<Longrightarrow> token_ok conf t \<and> p \<le> tk_ptr t"
proof (induction conf d l p rule: make_token.induct)
  case (1 conf d l p)
  let ?k = "length (takeWhile (\<lambda>c. c \<noteq> LF) (drop (p + 1) conf))"
  have k: "p + 1 + ?k \<le> length conf" if "p < length conf"
    using that length_takeWhile_le [of "\<lambda>c. c \<noteq> LF" "drop (p + 1) conf"] by simp
  consider "length conf \<le> p" | "p < length conf" "conf ! p = CHR ''#''"
    | "p < length conf" "conf ! p \<noteq> CHR ''#''" "d \<and> conf ! p = CHR ''.''"
    | s where "p < length conf" "conf ! p \<noteq> CHR ''#''" "\<not> (d \<and> conf ! p = CHR ''.'')" "special_char (conf ! p) = Some s"
    | "p < length conf" "conf ! p \<noteq> CHR ''#''" "\<not> (d \<and> conf ! p = CHR ''.'')" "special_char (conf ! p) = None"
      "conf ! p = CR \<or> conf ! p = CHR '' '' \<or> conf ! p = TAB"
    | "p < length conf" "conf ! p \<noteq> CHR ''#''" "\<not> (d \<and> conf ! p = CHR ''.'')" "special_char (conf ! p) = None"
      "\<not> (conf ! p = CR \<or> conf ! p = CHR '' '' \<or> conf ! p = TAB)"
    by fastforce
  then show ?case
  proof cases
    case 1
    with \<open>make_token conf d l p = Inr t\<close> \<open>p \<le> length conf\<close> show ?thesis
      by (subst (asm) make_token.simps) (auto simp: ret_eof_def ret_token_def token_ok_def)
  next
    case 2
    then have "make_token conf d l (p + 1 + ?k) = Inr t"
      using "1.prems"(1) by (subst (asm) make_token.simps) simp
    from "1.IH"(1) [OF 2(1) refl 2(2) this k [OF 2(1)]] show ?thesis by simp
  next
    case 3
    then show ?thesis using "1.prems"
      by (subst (asm) make_token.simps) (auto simp: ret_token_def token_ok_def)
  next
    case (4 s)
    then have "s \<noteq> STRING" by (auto simp: special_char_def split: if_splits)
    then show ?thesis using "1.prems" 4
      by (subst (asm) make_token.simps) (auto simp: ret_token_def token_ok_def)
  next
    case 5
    then have "make_token conf d l (p + 1) = Inr t"
      using "1.prems"(1) by (subst (asm) make_token.simps) (auto simp: Let_def)
    with "1.IH"(2) [OF 5(1) refl 5(2,3,4,5)] 5(1) show ?thesis by simp
  next
    case 6
    then obtain n where n: "scan_string (drop p conf) d = Inr n" "t = ret_token STRING l p n"
      using "1.prems"(1) by (subst (asm) make_token.simps) (auto simp: Let_def split: sum.splits)
    from scan_string_token [OF n(1)] n(2) 6(1) show ?thesis
      by (auto simp: token_ok_def ret_token_def string_token_def)
  qed
qed

lemma next_tok_ok:
  assumes "next_tok conf d t = Inr t'" "tk_ptr t + tk_len t \<le> length conf"
  shows "token_ok conf t'" "tk_ptr t + tk_len t \<le> tk_ptr t'"
  using make_token_ok assms unfolding next_tok_def by blast+

text \<open>Keys that come from tokens never reach outside the text.\<close>

lemma normalize_key_no_fault:
  assumes "token_ok conf t" "tk_tok t = STRING"
  shows "normalize_key conf t \<noteq> Key_fault f"
proof -
  let ?sp = "drop (tk_ptr t) conf"
  let ?d = "if peek ?sp 1 = peek ?sp 0 \<and> peek ?sp 2 = peek ?sp 0 then 3 else 1 :: nat"
  have n: "normalize_string sp n kill \<noteq> Norm_fault g" for sp n kill g
    unfolding normalize_string_def by (rule normalize_loop_no_fault) simp
  have "\<not> tk_eof t" "string_token ?sp (tk_len t)"
    using assms by (auto simp: token_ok_def split: if_splits)
  then have "\<not> tk_len t < 2 * ?d" if "peek ?sp 0 = SQ \<or> peek ?sp 0 = DQ"
    using that unfolding string_token_def by (auto simp: not_less split: if_splits)
  then show ?thesis
    unfolding normalize_key_def Let_def
    by (cases "peek ?sp 0 = SQ \<or> peek ?sp 0 = DQ")
      (auto simp: n split: norm.splits simp del: One_nat_def)
qed

end
