(* ===== verification/Toml_Number.thy ===== *)
theory Toml_Number
  imports Toml_String
begin

text \<open>
  Model of the readers of \<^verbatim>\<open>src/external/toml.c\<close> for raw integers and booleans.
  \<open>None\<close> is the return value \<open>-1\<close>. The integer reader copies into a buffer of 100 bytes and
  calls \<open>strtoll\<close> with base 0; \<open>c_strtoll\<close> is that function of the C library (64-bit
  \<open>long long\<close>): the value, the rest of the input, and whether \<open>errno\<close> was set.
\<close>

section \<open>strtoll\<close>

definition digit_value :: "char \<Rightarrow> nat option" where
  "digit_value c =
     (let k = of_char c :: nat in
      if 48 \<le> k \<and> k \<le> 57 then Some (k - 48)
      else if 65 \<le> k \<and> k \<le> 90 then Some (k - 55)
      else if 97 \<le> k \<and> k \<le> 122 then Some (k - 87)
      else None)"

definition in_base :: "nat \<Rightarrow> char \<Rightarrow> bool" where
  "in_base b c = (case digit_value c of None \<Rightarrow> False | Some d \<Rightarrow> d < b)"

definition digits_value :: "nat \<Rightarrow> string \<Rightarrow> nat" where
  "digits_value b ds = foldl (\<lambda>v c. v * b + the (digit_value c)) 0 ds"

definition c_isspace :: "char \<Rightarrow> bool" where
  "c_isspace c \<longleftrightarrow> c = CHR '' '' \<or> (9 \<le> (of_char c :: nat) \<and> of_char c \<le> (13 :: nat))"

definition LLONG_MAX :: int where "LLONG_MAX = 2 ^ 63 - 1"
definition LLONG_MIN :: int where "LLONG_MIN = - (2 ^ 63)"

definition c_strtoll :: "string \<Rightarrow> int \<times> string \<times> bool" where
  "c_strtoll nptr =
     (let s1 = dropWhile c_isspace nptr;
          neg = (peek s1 0 = CHR ''-'');
          s2 = (if peek s1 0 = CHR ''-'' \<or> peek s1 0 = CHR ''+'' then tl s1 else s1);
          hex = (peek s2 0 = CHR ''0'' \<and> (peek s2 1 = CHR ''x'' \<or> peek s2 1 = CHR ''X'')
                 \<and> in_base 16 (peek s2 2));
          b = (if hex then 16 else if peek s2 0 = CHR ''0'' then 8 else 10);
          s3 = (if hex then drop 2 s2 else s2);
          ds = takeWhile (in_base b) s3;
          v = (if neg then - int (digits_value b ds) else int (digits_value b ds))
      in if ds = [] then (0, nptr, False)
         else if v < LLONG_MIN then (LLONG_MIN, drop (length ds) s3, True)
         else if LLONG_MAX < v then (LLONG_MAX, drop (length ds) s3, True)
         else (v, drop (length ds) s3, False))"

section \<open>The readers\<close>

definition toml_rtob :: "string option \<Rightarrow> bool option" where
  "toml_rtob src = (case src of None \<Rightarrow> None
     | Some s \<Rightarrow> if s = ''true'' then Some True else if s = ''false'' then Some False else None)"

text \<open>The copying loop: \<open>p\<close> is what has been written to the buffer of \<open>cap\<close> bytes. The
  result is the rest of the source and the buffer.\<close>

fun strip_underscores :: "nat \<Rightarrow> string \<Rightarrow> string \<Rightarrow> string \<times> string" where
  "strip_underscores cap [] p = ([], p)"
| "strip_underscores cap (ch # s) p =
     (if length p < cap
      then strip_underscores cap s (if ch = CHR ''_'' then p else p @ [ch])
      else (ch # s, p))"

definition toml_rtoi :: "string option \<Rightarrow> int option" where
  "toml_rtoi src = (case src of None \<Rightarrow> None | Some src \<Rightarrow>
     (let (p, s) = (if peek src 0 = CHR ''+'' \<or> peek src 0 = CHR ''-''
                    then ([peek src 0], tl src) else ([], src))
      in if peek s 0 = CHR ''0'' then (if peek s 1 \<noteq> CHR 0x00 then None else Some 0)
         else (let (rest, buf) = strip_underscores 100 s p
               in if rest \<noteq> [] \<or> length buf = 100 then None
                  else (case c_strtoll buf of (v, endp, err) \<Rightarrow>
                          if err \<or> endp \<noteq> [] then None else Some v))))"

section \<open>Decimal integers\<close>

definition is_digit :: "char \<Rightarrow> bool" where
  "is_digit c \<longleftrightarrow> 48 \<le> (of_char c :: nat) \<and> of_char c \<le> (57 :: nat)"

lemma is_digit_value: "is_digit c \<Longrightarrow> digit_value c = Some (of_char c - 48)" "is_digit c \<Longrightarrow> in_base 10 c"
  by (auto simp: is_digit_def digit_value_def in_base_def Let_def)

definition decimal :: "string \<Rightarrow> nat" where
  "decimal ds = foldl (\<lambda>v c. v * 10 + (of_char c - 48)) 0 ds"

lemma digits_value_decimal:
  assumes "\<forall>c \<in> set ds. is_digit c"
  shows "digits_value 10 ds = decimal ds"
proof -
  have "foldl (\<lambda>v c. v * 10 + the (digit_value c)) a ds = foldl (\<lambda>v c. v * 10 + (of_char c - 48)) a ds" for a
    using assms by (induction ds arbitrary: a) (auto simp: is_digit_value)
  then show ?thesis by (simp add: digits_value_def decimal_def)
qed

lemma decimal_snoc: "decimal (ds @ [c]) = decimal ds * 10 + (of_char c - 48)"
  by (simp add: decimal_def)

lemma digit_char_code: "d < 10 \<Longrightarrow> (of_char (digit_char d) :: nat) = 48 + d"
  by (simp add: digit_char_def)

lemma show_nat_digits: "\<forall>c \<in> set (show_nat n). is_digit c"
proof (induction n rule: show_nat.induct)
  case (1 n)
  then show ?case by (subst show_nat.simps) (auto simp: is_digit_def digit_char_code)
qed

lemma decimal_show_nat: "decimal (show_nat n) = n"
proof (induction n rule: show_nat.induct)
  case (1 n)
  then show ?case
    by (subst show_nat.simps) (auto simp: decimal_snoc digit_char_code decimal_def [of "[_]"])
qed

lemma show_nat_not_Nil [simp]: "show_nat n \<noteq> []"
  by (subst show_nat.simps) simp

lemma show_nat_hd: "0 < n \<Longrightarrow> hd (show_nat n) \<noteq> CHR ''0''"
proof (induction n rule: show_nat.induct)
  case (1 n)
  show ?case
  proof (cases "n < 10")
    case True
    have "(of_char (digit_char n) :: nat) \<noteq> of_char (CHR ''0'')"
      using 1(2) True by (simp add: digit_char_code)
    then have "digit_char n \<noteq> CHR ''0''" by metis
    then show ?thesis using True by (subst show_nat.simps) simp
  next
    case False
    then show ?thesis using 1 by (subst show_nat.simps) (simp add: hd_append)
  qed
qed

lemma digit_not:
  "is_digit c \<Longrightarrow> \<not> c_isspace c"
  "is_digit c \<Longrightarrow> c \<noteq> CHR ''-''" "is_digit c \<Longrightarrow> c \<noteq> CHR ''+''" "is_digit c \<Longrightarrow> c \<noteq> CHR ''_''"
  by (auto simp: is_digit_def c_isspace_def)

text \<open>\<open>strtoll\<close> on an optional sign and a decimal number without a leading zero.\<close>

definition signed :: "string \<Rightarrow> nat \<Rightarrow> int" where
  "signed sg n = (if sg = ''-'' then - int n else int n)"

lemma strtoll_decimal:
  assumes "sg \<in> {[], ''+'', ''-''}" "ds \<noteq> []" "\<forall>c \<in> set ds. is_digit c" "hd ds \<noteq> CHR ''0''"
  shows "c_strtoll (sg @ ds) =
    (let v = signed sg (decimal ds) in
     if v < LLONG_MIN then (LLONG_MIN, [], True) else if LLONG_MAX < v then (LLONG_MAX, [], True)
     else (v, [], False))"
proof -
  obtain d es where ds: "ds = d # es" using assms(2) by (cases ds) auto
  then have d: "is_digit d" "d \<noteq> CHR ''0''" using assms by auto
  have "takeWhile (in_base 10) ds = ds"
    using assms(3) by (simp add: takeWhile_eq_all_conv is_digit_value)
  then have tw: "takeWhile (in_base 10) (d # es) = d # es" using ds by simp
  note ns = digit_not [OF d(1)]
  have sp: "\<not> c_isspace (CHR ''+'')" "\<not> c_isspace (CHR ''-'')" by (simp_all add: c_isspace_def)
  have v: "digits_value 10 (d # es) = decimal (d # es)"
    using digits_value_decimal [OF assms(3)] ds by simp
  consider "sg = []" | "sg = ''+''" | "sg = ''-''" using assms(1) by blast
  then show ?thesis
  proof cases
    case 1
    then show ?thesis
      using ds d ns tw v by (simp add: c_strtoll_def peek_def Let_def signed_def)
  next
    case 2
    then show ?thesis
      using ds d ns tw v sp by (simp add: c_strtoll_def peek_def Let_def signed_def)
  next
    case 3
    then show ?thesis
      using ds d ns tw v sp by (simp add: c_strtoll_def peek_def Let_def signed_def)
  qed
qed

lemma strip_underscores_fits:
  "length (p @ filter (\<lambda>c. c \<noteq> CHR ''_'') s) \<le> cap \<Longrightarrow> s = [] \<or> length p < cap \<Longrightarrow> s = [] \<or> last s \<noteq> CHR ''_'' \<Longrightarrow>
   strip_underscores cap s p = ([], p @ filter (\<lambda>c. c \<noteq> CHR ''_'') s)"
proof (induction cap s p rule: strip_underscores.induct)
  case (1 cap p)
  then show ?case by simp
next
  case (2 cap ch s p)
  show ?case
  proof (cases "s = []")
    case True
    with 2 show ?thesis by auto
  next
    case False
    then have "last s \<noteq> CHR ''_''" using 2(4) by simp
    with last_in_set [OF False] have "\<exists>c \<in> set s. c \<noteq> CHR ''_''" by blast
    then have "filter (\<lambda>c. c \<noteq> CHR ''_'') s \<noteq> []" by (auto simp: filter_empty_conv)
    then obtain x xs where "filter (\<lambda>c. c \<noteq> CHR ''_'') s = x # xs"
      by (cases "filter (\<lambda>c. c \<noteq> CHR ''_'') s") auto
    then have "length (if ch = CHR ''_'' then p else p @ [ch]) < cap" using 2(2,3) False by auto
    with 2 False show ?thesis by auto
  qed
qed

text \<open>The buffer is never overrun, and what is left in the source is what did not fit.\<close>

lemma strip_underscores_bound:
  "length p \<le> cap \<Longrightarrow> strip_underscores cap s p = (rest, buf) \<Longrightarrow> length buf \<le> cap"
  by (induction cap s p rule: strip_underscores.induct) (auto split: if_splits)


lemma toml_rtoi_decimal:
  assumes "sg \<in> {[], ''+'', ''-''}" "body \<noteq> []" "\<forall>c \<in> set body. is_digit c \<or> c = CHR ''_''"
    and "is_digit (hd body)" "hd body \<noteq> CHR ''0''" "last body \<noteq> CHR ''_''"
  defines "ds \<equiv> filter (\<lambda>c. c \<noteq> CHR ''_'') body"
  assumes "length sg + length ds < 100"
  shows "toml_rtoi (Some (sg @ body)) =
    (let v = signed sg (decimal ds) in if LLONG_MIN \<le> v \<and> v \<le> LLONG_MAX then Some v else None)"
proof -
  obtain d es where body: "body = d # es" using assms(2) by (cases body) auto
  have d: "is_digit d" "d \<noteq> CHR ''0''" using assms(4,5) body by auto
  have "\<forall>c \<in> set ds. is_digit c" using assms(3) by (auto simp: ds_def)
  moreover have hd: "ds \<noteq> [] \<and> hd ds \<noteq> CHR ''0''" using d digit_not(4) [OF d(1)] by (simp add: ds_def body)
  ultimately have st: "c_strtoll (sg @ ds) = (let v = signed sg (decimal ds) in
     if v < LLONG_MIN then (LLONG_MIN, [], True) else if LLONG_MAX < v then (LLONG_MAX, [], True)
     else (v, [], False))" using strtoll_decimal [OF assms(1)] by blast
  have strip: "strip_underscores 100 body sg = ([], sg @ ds)"
    unfolding ds_def using assms(6,8) by (intro strip_underscores_fits) (auto simp: ds_def)
  have "toml_rtoi (Some (sg @ body)) = (case c_strtoll (sg @ ds) of (v, endp, err) \<Rightarrow>
      if err \<or> endp \<noteq> [] then None else Some v)"
  proof -
    note facts = strip [unfolded body] d(2) digit_not(2,3) [OF d(1)]
    consider "sg = []" | "sg = ''+''" | "sg = ''-''" using assms(1) by blast
    then show ?thesis
      by cases (use facts assms(8) in \<open>simp_all add: body toml_rtoi_def peek_def Let_def del: strip_underscores.simps\<close>)
  qed
  then show ?thesis unfolding st by (auto simp: Let_def LLONG_MIN_def LLONG_MAX_def)
qed

lemma show_nat_length: "n < 10 ^ k \<Longrightarrow> 0 < k \<Longrightarrow> length (show_nat n) \<le> k"
proof (induction n arbitrary: k rule: show_nat.induct)
  case (1 n)
  show ?case
  proof (cases "n < 10")
    case True
    then show ?thesis using 1(3) by (subst show_nat.simps) simp
  next
    case False
    then obtain j where k: "k = Suc j" "0 < j" using 1(2,3) by (cases k; cases "k - 1") auto
    have "n div 10 < 10 ^ j" using 1(2) k by (simp add: less_mult_imp_div_less mult.commute)
    with 1(1) [OF False] k have "length (show_nat (n div 10)) \<le> j" by blast
    then show ?thesis using False k by (subst show_nat.simps) simp
  qed
qed

lemma toml_rtoi_show:
  assumes "LLONG_MIN \<le> i" "i \<le> LLONG_MAX"
  shows "toml_rtoi (Some (show_int i)) = Some i \<and> toml_rtoi (Some (CHR ''+'' # show_nat (nat i))) = Some (max 0 i)"
proof -
  have main: "toml_rtoi (Some (sg @ show_nat n)) = Some (signed sg n)"
    if "sg \<in> {[], ''+'', ''-''}" "LLONG_MIN \<le> signed sg n" "signed sg n \<le> LLONG_MAX" "n \<le> 2 ^ 63" for sg n
  proof (cases "n = 0")
    case True
    have "show_nat 0 = ''0''" by (subst show_nat.simps) (simp add: digit_char_def char_of_def bit_0)
    with True that(1) show ?thesis by (auto simp: toml_rtoi_def peek_def signed_def)
  next
    case False
    have "n < 10 ^ 19" using that(4) by simp
    then have len: "length (show_nat n) \<le> 19" by (rule show_nat_length) simp
    have dg: "\<forall>c \<in> set (show_nat n). is_digit c" by (rule show_nat_digits)
    then have f: "filter (\<lambda>c. c \<noteq> CHR ''_'') (show_nat n) = show_nat n"
      using digit_not(4) by (intro filter_True) blast
    have "is_digit (hd (show_nat n))" "is_digit (last (show_nat n))"
      using dg hd_in_set [of "show_nat n"] last_in_set [of "show_nat n"] by auto
    then show ?thesis
      using toml_rtoi_decimal [OF that(1), of "show_nat n"] that dg f len show_nat_hd [of n] False
        digit_not(4) [of "last (show_nat n)"] decimal_show_nat [of n]
      by (auto simp: Let_def)
  qed
  have "toml_rtoi (Some (show_int i)) = Some i"
  proof (cases "i < 0")
    case True
    then show ?thesis using main [of "''-''" "nat (- i)"] assms
      by (simp add: show_int_def signed_def LLONG_MIN_def LLONG_MAX_def)
  next
    case False
    then show ?thesis using main [of "[]" "nat i"] assms
      by (simp add: show_int_def signed_def LLONG_MIN_def LLONG_MAX_def)
  qed
  moreover have "toml_rtoi (Some (''+'' @ show_nat (nat i))) = Some (max 0 i)"
    using main [of "''+''" "nat i"] assms by (auto simp: signed_def LLONG_MIN_def LLONG_MAX_def max_def)
  ultimately show ?thesis by simp
qed

section \<open>Properties\<close>

text \<open>C25. Decimal integers are read correctly: for an optional sign followed by digits and
  underscores that starts with a non-zero digit and does not end in an underscore, the reader
  drops the underscores and returns the value, or fails exactly when the value does not fit 64
  bits. Fewer than 100 characters are left after dropping.\<close>

theorem toml_rtoi_reads_decimal:
  assumes "sg \<in> {[], ''+'', ''-''}" "body \<noteq> []" "\<forall>c \<in> set body. is_digit c \<or> c = CHR ''_''"
    and "is_digit (hd body)" "hd body \<noteq> CHR ''0''" "last body \<noteq> CHR ''_''"
    and "length sg + length (filter (\<lambda>c. c \<noteq> CHR ''_'') body) < 100"
  shows "toml_rtoi (Some (sg @ body)) =
    (let v = signed sg (decimal (filter (\<lambda>c. c \<noteq> CHR ''_'') body))
     in if LLONG_MIN \<le> v \<and> v \<le> LLONG_MAX then Some v else None)"
  by (rule toml_rtoi_decimal [OF assms])

theorem toml_rtoi_reads_decimal_witness:
  "toml_rtoi (Some ''-9_223_372_036_854_775_808'') = Some (- 9223372036854775808) \<and>
   toml_rtoi (Some ''9223372036854775808'') = None"
  using toml_rtoi_reads_decimal [of "''-''" "''9_223_372_036_854_775_808''"]
    toml_rtoi_reads_decimal [of "[]" "''9223372036854775808''"]
  by (simp add: is_digit_def signed_def decimal_def LLONG_MIN_def LLONG_MAX_def)

text \<open>C38. Printing and reading are inverse for every 64-bit integer, printed with or without
  an explicit plus sign.\<close>

theorem toml_rtoi_roundtrip:
  assumes "LLONG_MIN \<le> i" "i \<le> LLONG_MAX"
  shows "toml_rtoi (Some (show_int i)) = Some i \<and> toml_rtoi (Some (CHR ''+'' # show_nat (nat i))) = Some (max 0 i)"
  by (rule toml_rtoi_show [OF assms])

theorem toml_rtoi_roundtrip_witness: "toml_rtoi (Some (show_int (-42))) = Some (-42)"
  using toml_rtoi_roundtrip [of "-42"] by (simp add: LLONG_MIN_def LLONG_MAX_def)

end
