(* ===== verification/Toml_Value.thy ===== *)
theory Toml_Value
  imports Toml_Number
begin

text \<open>
  The readers of \<^verbatim>\<open>src/external/toml.c\<close> for timestamps and floating point numbers, and
  \<open>valtype\<close>, which classifies a raw value by trying the readers one after the other. A pointer
  is the list of characters from it to the terminator.

  Of \<open>strtod\<close> the program uses only what is left of the input and whether \<open>errno\<close> was set;
  \<open>c_strtod\<close> is that part of the C library, in the C locale, for the 64-bit binary format: the
  exact value of the text is a fraction, and it is out of range when it rounds beyond the
  largest number, or is inexact and below the smallest normal number.
\<close>

section \<open>toml\_rtots\<close>

record timestamp =
  ts_date :: "(int \<times> int \<times> int) option"
  ts_time :: "(int \<times> int \<times> int) option"
  ts_z :: "string option"

definition digit_of :: "char \<Rightarrow> int option" where
  "digit_of c = (if is_digit c then Some (int (of_char c) - 48) else None)"

text \<open>The loop over a fixed number of characters, in which the separator may stand at two
  places; at those places a digit is accepted too.\<close>

fun read_fields :: "char \<Rightarrow> nat set \<Rightarrow> nat \<Rightarrow> nat \<Rightarrow> int \<Rightarrow> string \<Rightarrow> (int \<times> string) option" where
  "read_fields sep places i 0 val p = Some (val, p)"
| "read_fields sep places i (Suc k) val p =
     (if peek p 0 = sep then
        (if i \<in> places then read_fields sep places (Suc i) k val (tl p) else None)
      else case digit_of (peek p 0) of
        None \<Rightarrow> None
      | Some d \<Rightarrow> read_fields sep places (Suc i) k (val * 10 + d) (tl p))"

definition split_fields :: "int \<Rightarrow> int \<times> int \<times> int" where
  "split_fields val = (val div 100 div 100, val div 100 mod 100, val mod 100)"

definition read_date :: "string \<Rightarrow> ((int \<times> int \<times> int) \<times> string) option" where
  "read_date p =
     (case read_fields (CHR ''-'') {4, 7} 0 10 0 p of
        None \<Rightarrow> None
      | Some (val, p) \<Rightarrow>
          if p = [] then Some (split_fields val, p)
          else if peek p 0 \<noteq> CHR ''T'' then None
          else Some (split_fields val, tl p))"

definition two_digits :: "string \<Rightarrow> bool" where
  "two_digits p \<longleftrightarrow> is_digit (peek p 0) \<and> is_digit (peek p 1)"

text \<open>\<open>Some (z, rest)\<close> is the zone that was copied.\<close>

definition read_zone :: "string \<Rightarrow> (string \<times> string) option" where
  "read_zone p =
     (if peek p 0 = CHR ''Z'' then Some (''Z'', tl p)
      else if peek p 0 = CHR ''+'' \<or> peek p 0 = CHR ''-'' then
        (if \<not> two_digits (tl p) then None
         else if peek p 3 = CHR '':'' then
           (if \<not> two_digits (drop 4 p) then None else Some (take 6 p, drop 6 p))
         else Some (take 3 p, drop 3 p))
      else Some ([], p))"

definition toml_rtots :: "string option \<Rightarrow> timestamp option" where
  "toml_rtots src = (case src of None \<Rightarrow> None | Some src \<Rightarrow>
     (case (if 4 < length src \<and> peek src 4 = CHR ''-''
            then map_option (\<lambda>(d, p). (Some d, p)) (read_date src) else Some (None, src)) of
        None \<Rightarrow> None
      | Some (date, p) \<Rightarrow>
          if p = [] then Some \<lparr>ts_date = date, ts_time = None, ts_z = None\<rparr>
          else if length p < 8 then None
          else (case read_fields (CHR '':'') {2, 5} 0 8 0 p of
            None \<Rightarrow> None
          | Some (val, p) \<Rightarrow>
              let p = (if peek p 0 = CHR ''.'' then dropWhile is_digit (tl p) else p) in
              if p = [] then Some \<lparr>ts_date = date, ts_time = Some (split_fields val), ts_z = None\<rparr>
              else (case read_zone p of
                None \<Rightarrow> None
              | Some (z, p) \<Rightarrow>
                  if p = [] then Some \<lparr>ts_date = date, ts_time = Some (split_fields val), ts_z = Some z\<rparr>
                  else None))))"

section \<open>strtod\<close>

text \<open>A number in the base \<open>b\<close> with a radix point: its digits, how many stand behind the point,
  and the rest.\<close>

definition read_mantissa :: "nat \<Rightarrow> string \<Rightarrow> string \<times> nat \<times> string" where
  "read_mantissa b p =
     (let ds = takeWhile (in_base b) p; p1 = drop (length ds) p;
          fs = (if peek p1 0 = CHR ''.'' then takeWhile (in_base b) (tl p1) else []);
          p2 = (if peek p1 0 = CHR ''.'' \<and> ds @ fs \<noteq> [] then drop (Suc (length fs)) p1 else p1)
      in (ds @ fs, length fs, p2))"

definition read_exponent :: "char set \<Rightarrow> string \<Rightarrow> int \<times> string" where
  "read_exponent marks p =
     (if peek p 0 \<notin> marks then (0, p)
      else
        (let q = (if peek p 1 = CHR ''+'' \<or> peek p 1 = CHR ''-'' then drop 2 p else tl p);
             ds = takeWhile is_digit q; e = int (digits_value 10 ds)
         in if ds = [] then (0, p)
            else (if peek p 1 = CHR ''-'' then - e else e, drop (length ds) q)))"

text \<open>Whether the fraction \<open>n / d\<close> is out of range.\<close>

definition out_of_range :: "int \<Rightarrow> int \<Rightarrow> bool" where
  "out_of_range n d \<longleftrightarrow>
     (2 ^ 1024 - 2 ^ 970) * d \<le> n \<or>
     (n \<noteq> 0 \<and> n * 2 ^ 1076 < (2 ^ 54 - 1) * d \<and> (n * 2 ^ 1074) mod d \<noteq> 0)"

definition scaled_out_of_range :: "int \<Rightarrow> int \<Rightarrow> int \<Rightarrow> bool" where
  "scaled_out_of_range m base e =
     (if 0 \<le> e then out_of_range (m * base ^ nat e) 1 else out_of_range m (base ^ nat (- e)))"

definition lower :: "string \<Rightarrow> string" where
  "lower s = map (\<lambda>c. if 65 \<le> (of_char c :: nat) \<and> of_char c \<le> (90 :: nat) then char_of (of_char c + (32 :: nat)) else c) s"

definition nan_chars :: "char \<Rightarrow> bool" where
  "nan_chars c \<longleftrightarrow> in_base 36 c \<or> c = CHR ''_''"

definition c_strtod :: "string \<Rightarrow> string \<times> bool" where
  "c_strtod nptr =
     (let s1 = dropWhile c_isspace nptr;
          s2 = (if peek s1 0 = CHR ''-'' \<or> peek s1 0 = CHR ''+'' then tl s1 else s1)
      in if lower (take 8 s2) = ''infinity'' then (drop 8 s2, False)
         else if lower (take 3 s2) = ''inf'' then (drop 3 s2, False)
         else if lower (take 3 s2) = ''nan'' then
           (let r = drop 3 s2; k = length (takeWhile nan_chars (tl r)) in
            if peek r 0 = CHR ''('' \<and> peek r (Suc k) = CHR '')'' then (drop (k + 2) r, False) else (r, False))
         else if lower (take 2 s2) = ''0x'' \<and>
             (in_base 16 (peek s2 2) \<or> peek s2 2 = CHR ''.'' \<and> in_base 16 (peek s2 3)) then
           (case read_mantissa 16 (drop 2 s2) of (ds, k, p) \<Rightarrow>
            case read_exponent {CHR ''p'', CHR ''P''} p of (e, p) \<Rightarrow>
              (p, scaled_out_of_range (int (digits_value 16 ds)) 2 (e - 4 * int k)))
         else
           (case read_mantissa 10 s2 of (ds, k, p) \<Rightarrow>
            if ds = [] then (nptr, False)
            else case read_exponent {CHR ''e'', CHR ''E''} p of (e, p) \<Rightarrow>
              (p, scaled_out_of_range (int (digits_value 10 ds)) 10 (e - int k))))"

section \<open>toml\_rtod\<close>

text \<open>Whether the text is a floating point number; the value itself is not modelled.\<close>

definition toml_rtod :: "string option \<Rightarrow> bool" where
  "toml_rtod src = (case src of None \<Rightarrow> False | Some src \<Rightarrow>
     (let (p, s) = (if peek src 0 = CHR ''+'' \<or> peek src 0 = CHR ''-''
                    then ([peek src 0], tl src) else ([], src))
      in if peek s 0 = CHR ''.'' then False
         else if peek s 0 = CHR ''0'' \<and> peek s 1 \<noteq> CHR 0x00 \<and> peek s 1 \<noteq> CHR ''.'' then False
         else (let (rest, buf) = strip_underscores 100 s p
               in if rest \<noteq> [] \<or> length buf = 100 then False
                  else if buf \<noteq> [] \<and> last buf = CHR ''.'' then False
                  else (case c_strtod buf of (endp, err) \<Rightarrow> \<not> err \<and> endp = []))))"

section \<open>valtype\<close>

definition valtype :: "string \<Rightarrow> char" where
  "valtype val =
     (if peek val 0 = SQ \<or> peek val 0 = DQ then CHR ''s''
      else if toml_rtob (Some val) \<noteq> None then CHR ''b''
      else if toml_rtoi (Some val) \<noteq> None then CHR ''i''
      else if toml_rtod (Some val) then CHR ''d''
      else case toml_rtots (Some val) of
        Some ts \<Rightarrow> if ts_date ts \<noteq> None \<and> ts_time ts \<noteq> None then CHR ''T''
                   else if ts_date ts \<noteq> None then CHR ''D'' else CHR ''t''
      | None \<Rightarrow> CHR ''u'')"

end
