(* ===== verification/Toml_Table.thy ===== *)
theory Toml_Table
  imports Toml_Number Process
begin

text \<open>
  The data of \<^verbatim>\<open>src/external/toml.c\<close>: key-value pairs, arrays and tables that point to each
  other, in a store of their own (\<open>toml_mem\<close>), with the lookup functions \<open>check_key\<close>,
  \<open>toml_key_in\<close>, \<open>toml_raw_in\<close>, \<open>toml_array_in\<close>, \<open>toml_table_in\<close>, \<open>toml_raw_at\<close>,
  \<open>toml_array_at\<close>, \<open>toml_table_at\<close> and \<open>toml_array_kind\<close>.

  The union of an array is a list of tagged elements; reading an element under another tag
  than it was written with is the fault \<open>WrongUnion\<close>. Counts (\<open>nkval\<close>, \<open>narr\<close>, \<open>ntab\<close>,
  \<open>nelem\<close>) are the lengths of the lists. The null pointer is 0, a fresh structure comes from
  \<open>calloc\<close>, so its pointers are null and its lists empty.
\<close>

record toml_keyval_t =
  kv_key :: string
  kv_val :: "string option"

datatype toml_elem = E_val string | E_arr nat | E_tab nat

record toml_array_t =
  arr_key :: "string option"
  arr_kind :: char
  arr_type :: char
  arr_elems :: "toml_elem list"

record toml_table_t =
  tab_key :: "string option"
  tab_implicit :: bool
  tab_kval :: "toml_keyval_t list"
  tab_arr :: "nat list"
  tab_tab :: "nat list"

abbreviation NUL :: char where "NUL \<equiv> CHR 0x00"

definition fresh_array :: toml_array_t where
  "fresh_array = \<lparr>arr_key = None, arr_kind = NUL, arr_type = NUL, arr_elems = []\<rparr>"

definition fresh_table :: toml_table_t where
  "fresh_table = \<lparr>tab_key = None, tab_implicit = False, tab_kval = [], tab_arr = [], tab_tab = []\<rparr>"

record toml_mem =
  t_alloc_ok :: "nat \<Rightarrow> bool"
  t_brk :: nat
  t_live :: "nat set"
  t_tables :: "nat \<Rightarrow> toml_table_t"
  t_arrays :: "nat \<Rightarrow> toml_array_t"

definition t_deref :: "nat \<Rightarrow> ('z toml_mem_scheme, unit) prog" where
  [prog_simps]: "t_deref p m =
     (if p = 0 then (Inl (Undefined NullDeref), m)
      else if p \<in> t_live m then (Inr (), m)
      else (Inl (Undefined UseAfterFree), m))"

definition the_table :: "nat \<Rightarrow> ('z toml_mem_scheme, toml_table_t) prog" where
  [prog_simps]: "the_table p = seqE (t_deref p) (gets (\<lambda>m. t_tables m p))"

definition the_array :: "nat \<Rightarrow> ('z toml_mem_scheme, toml_array_t) prog" where
  [prog_simps]: "the_array p = seqE (t_deref p) (gets (\<lambda>m. t_arrays m p))"

text \<open>\<open>strcmp\<close> with a key that is the null pointer is undefined; the null key is \<open>None\<close>.\<close>

definition same_key :: "string \<Rightarrow> string option \<Rightarrow> ('z toml_mem_scheme, bool) prog" where
  "same_key key k = (case k of None \<Rightarrow> stop (Undefined NullDeref) | Some k' \<Rightarrow> ret (key = k'))"

section \<open>Lookup\<close>

text \<open>The three loops over the entries of a table, from the first entry on.\<close>

fun find_kval :: "string \<Rightarrow> toml_keyval_t list \<Rightarrow> toml_keyval_t option" where
  "find_kval key [] = None"
| "find_kval key (kv # kvs) = (if key = kv_key kv then Some kv else find_kval key kvs)"

fun find_arr :: "string \<Rightarrow> nat list \<Rightarrow> ('z toml_mem_scheme, nat) prog" where
  "find_arr key [] = ret 0"
| "find_arr key (p # ps) =
     bindE (the_array p) (\<lambda>a. bindE (same_key key (arr_key a)) (\<lambda>eq.
     if eq then ret p else find_arr key ps))"

fun find_tab :: "string \<Rightarrow> nat list \<Rightarrow> ('z toml_mem_scheme, nat) prog" where
  "find_tab key [] = ret 0"
| "find_tab key (p # ps) =
     bindE (the_table p) (\<lambda>t. bindE (same_key key (tab_key t)) (\<lambda>eq.
     if eq then ret p else find_tab key ps))"

datatype key_kind = No_key | Key_val toml_keyval_t | Key_arr nat | Key_tab nat

definition check_key :: "nat \<Rightarrow> string \<Rightarrow> ('z toml_mem_scheme, key_kind) prog" where
  "check_key tab key =
     bindE (the_table tab) (\<lambda>t.
     case find_kval key (tab_kval t) of Some kv \<Rightarrow> ret (Key_val kv)
     | None \<Rightarrow>
         bindE (find_arr key (tab_arr t)) (\<lambda>a.
         if a \<noteq> 0 then ret (Key_arr a)
         else bindE (find_tab key (tab_tab t)) (\<lambda>p.
         if p \<noteq> 0 then ret (Key_tab p) else ret No_key)))"

text \<open>\<open>keyidx\<close> counts through the three lists; a negative index reads before the first one.\<close>

definition toml_key_in :: "nat \<Rightarrow> int \<Rightarrow> ('z toml_mem_scheme, string option) prog" where
  "toml_key_in tab keyidx =
     bindE (the_table tab) (\<lambda>t.
     let nkval = int (length (tab_kval t)); narr = int (length (tab_arr t)); ntab = int (length (tab_tab t))
     in if keyidx < 0 then stop (Undefined OutOfBounds)
        else if keyidx < nkval then ret (Some (kv_key (tab_kval t ! nat keyidx)))
        else let keyidx = keyidx - nkval in
        if keyidx < narr then bindE (the_array (tab_arr t ! nat keyidx)) (\<lambda>a. ret (arr_key a))
        else let keyidx = keyidx - narr in
        if keyidx < ntab then bindE (the_table (tab_tab t ! nat keyidx)) (\<lambda>u. ret (tab_key u))
        else ret None)"

definition toml_raw_in :: "nat \<Rightarrow> string \<Rightarrow> ('z toml_mem_scheme, string option) prog" where
  "toml_raw_in tab key =
     bindE (the_table tab) (\<lambda>t.
     case find_kval key (tab_kval t) of None \<Rightarrow> ret None | Some kv \<Rightarrow> ret (kv_val kv))"

definition toml_array_in :: "nat \<Rightarrow> string \<Rightarrow> ('z toml_mem_scheme, nat) prog" where
  "toml_array_in tab key = bindE (the_table tab) (\<lambda>t. find_arr key (tab_arr t))"

definition toml_table_in :: "nat \<Rightarrow> string \<Rightarrow> ('z toml_mem_scheme, nat) prog" where
  "toml_table_in tab key = bindE (the_table tab) (\<lambda>t. find_tab key (tab_tab t))"

definition elem_at :: "toml_array_t \<Rightarrow> char \<Rightarrow> int \<Rightarrow> toml_elem option" where
  "elem_at a kind idx =
     (if arr_kind a \<noteq> kind then None
      else if \<not> (0 \<le> idx \<and> idx < int (length (arr_elems a))) then None
      else Some (arr_elems a ! nat idx))"

definition toml_raw_at :: "nat \<Rightarrow> int \<Rightarrow> ('z toml_mem_scheme, string option) prog" where
  "toml_raw_at arr idx =
     bindE (the_array arr) (\<lambda>a.
     case elem_at a (CHR ''v'') idx of None \<Rightarrow> ret None
     | Some (E_val v) \<Rightarrow> ret (Some v) | Some _ \<Rightarrow> stop (Undefined WrongUnion))"

definition toml_array_kind :: "nat \<Rightarrow> ('z toml_mem_scheme, char) prog" where
  "toml_array_kind arr = bindE (the_array arr) (\<lambda>a. ret (arr_kind a))"

definition toml_array_at :: "nat \<Rightarrow> int \<Rightarrow> ('z toml_mem_scheme, nat) prog" where
  "toml_array_at arr idx =
     bindE (the_array arr) (\<lambda>a.
     case elem_at a (CHR ''a'') idx of None \<Rightarrow> ret 0
     | Some (E_arr p) \<Rightarrow> ret p | Some _ \<Rightarrow> stop (Undefined WrongUnion))"

definition toml_table_at :: "nat \<Rightarrow> int \<Rightarrow> ('z toml_mem_scheme, nat) prog" where
  "toml_table_at arr idx =
     bindE (the_array arr) (\<lambda>a.
     case elem_at a (CHR ''t'') idx of None \<Rightarrow> ret 0
     | Some (E_tab p) \<Rightarrow> ret p | Some _ \<Rightarrow> stop (Undefined WrongUnion))"

section \<open>Lookup in well-formed tables\<close>

text \<open>A table whose entries are allocated and have keys, which is what the parser builds.\<close>

definition table_ok :: "'z toml_mem_scheme \<Rightarrow> nat \<Rightarrow> bool" where
  "table_ok m p \<longleftrightarrow> p \<noteq> 0 \<and> p \<in> t_live m \<and>
     (\<forall>q \<in> set (tab_arr (t_tables m p)). q \<noteq> 0 \<and> q \<in> t_live m \<and> arr_key (t_arrays m q) \<noteq> None) \<and>
     (\<forall>q \<in> set (tab_tab (t_tables m p)). q \<noteq> 0 \<and> q \<in> t_live m \<and> tab_key (t_tables m q) \<noteq> None)"

text \<open>All keys of a table, in the order in which \<open>toml_key_in\<close> counts them.\<close>

definition table_keys :: "'z toml_mem_scheme \<Rightarrow> nat \<Rightarrow> string list" where
  "table_keys m p =
     map kv_key (tab_kval (t_tables m p)) @
     map (\<lambda>q. the (arr_key (t_arrays m q))) (tab_arr (t_tables m p)) @
     map (\<lambda>q. the (tab_key (t_tables m q))) (tab_tab (t_tables m p))"

definition first_ptr :: "(nat \<Rightarrow> bool) \<Rightarrow> nat list \<Rightarrow> nat" where
  "first_ptr P ps = (case find P ps of None \<Rightarrow> 0 | Some p \<Rightarrow> p)"

lemma the_table_ok [simp]: "p \<noteq> 0 \<Longrightarrow> p \<in> t_live m \<Longrightarrow> bindE (the_table p) f m = f (t_tables m p) m"
  by (simp add: the_table_def t_deref_def seqE_def bindE_def gets_def)

lemma the_array_ok [simp]: "p \<noteq> 0 \<Longrightarrow> p \<in> t_live m \<Longrightarrow> bindE (the_array p) f m = f (t_arrays m p) m"
  by (simp add: the_array_def t_deref_def seqE_def bindE_def gets_def)

lemma find_tab_eq:
  assumes "\<forall>q \<in> set ps. q \<noteq> 0 \<and> q \<in> t_live m \<and> tab_key (t_tables m q) \<noteq> None"
  shows "find_tab key ps m = (Inr (first_ptr (\<lambda>q. tab_key (t_tables m q) = Some key) ps), m)"
  using assms
  by (induction ps) (auto simp: first_ptr_def ret_def same_key_def split: option.splits)

lemma find_arr_eq:
  assumes "\<forall>q \<in> set ps. q \<noteq> 0 \<and> q \<in> t_live m \<and> arr_key (t_arrays m q) \<noteq> None"
  shows "find_arr key ps m = (Inr (first_ptr (\<lambda>q. arr_key (t_arrays m q) = Some key) ps), m)"
  using assms
  by (induction ps) (auto simp: first_ptr_def ret_def same_key_def split: option.splits)

lemma find_kval_Some: "find_kval key kvs = Some kv \<Longrightarrow> kv \<in> set kvs \<and> kv_key kv = key"
  by (induction kvs) (auto split: if_splits)

lemma find_kval_None: "find_kval key kvs = None \<longleftrightarrow> key \<notin> kv_key ` set kvs"
  by (induction kvs) auto

lemma toml_table_in_eq:
  assumes "table_ok m p"
  shows "toml_table_in p key m =
    (Inr (first_ptr (\<lambda>q. tab_key (t_tables m q) = Some key) (tab_tab (t_tables m p))), m)"
  using assms find_tab_eq [of "tab_tab (t_tables m p)" m key] by (simp add: toml_table_in_def table_ok_def)

lemma toml_raw_in_eq:
  assumes "p \<noteq> 0" "p \<in> t_live m"
  shows "toml_raw_in p key m = (Inr (case find_kval key (tab_kval (t_tables m p)) of
    None \<Rightarrow> None | Some kv \<Rightarrow> kv_val kv), m)"
  using assms by (auto simp: toml_raw_in_def ret_def split: option.splits)

lemma first_ptr_pos: "\<forall>q \<in> set ps. q \<noteq> 0 \<Longrightarrow> first_ptr P ps \<noteq> 0 \<longleftrightarrow> (\<exists>q \<in> set ps. P q)"
  by (induction ps) (auto simp: first_ptr_def)

lemma first_ptr_in: "first_ptr P ps \<noteq> 0 \<Longrightarrow> first_ptr P ps \<in> set ps \<and> P (first_ptr P ps)"
  by (induction ps) (auto simp: first_ptr_def split: if_splits)

lemma toml_key_in_eq:
  assumes "table_ok m p" "0 \<le> i"
  shows "toml_key_in p i m =
    (Inr (if nat i < length (table_keys m p) then Some (table_keys m p ! nat i) else None), m)"
proof -
  let ?k = "tab_kval (t_tables m p)" and ?a = "tab_arr (t_tables m p)" and ?t = "tab_tab (t_tables m p)"
  have p: "p \<noteq> 0" "p \<in> t_live m" using assms(1) by (simp_all add: table_ok_def)
  consider "nat i < length ?k" | "length ?k \<le> nat i" "nat i < length ?k + length ?a"
    | "length ?k + length ?a \<le> nat i" "nat i < length ?k + length ?a + length ?t"
    | "length ?k + length ?a + length ?t \<le> nat i" by linarith
  then show ?thesis
  proof cases
    case 1
    then show ?thesis using p assms(2)
      by (simp add: toml_key_in_def table_keys_def nth_append ret_def Let_def nat_less_iff)
  next
    case 2
    let ?j = "nat (i - int (length ?k))"
    have j: "?j < length ?a" "?j = nat i - length ?k" using 2 assms(2) by linarith+
    then have "?a ! ?j \<in> set ?a" by simp
    then have q: "?a ! ?j \<noteq> 0" "?a ! ?j \<in> t_live m" "arr_key (t_arrays m (?a ! ?j)) \<noteq> None"
      using assms(1) by (auto simp: table_ok_def)
    have "\<not> i < int (length ?k)" "i - int (length ?k) < int (length ?a)" using 2 assms(2) by linarith+
    then show ?thesis using p q j 2 assms(2)
      by (auto simp: toml_key_in_def table_keys_def nth_append ret_def Let_def)
  next
    case 3
    let ?j = "nat (i - int (length ?k) - int (length ?a))"
    have j: "?j < length ?t" "?j = nat i - length ?k - length ?a" using 3 assms(2) by linarith+
    then have "?t ! ?j \<in> set ?t" by simp
    then have q: "?t ! ?j \<noteq> 0" "?t ! ?j \<in> t_live m" "tab_key (t_tables m (?t ! ?j)) \<noteq> None"
      using assms(1) by (auto simp: table_ok_def)
    have "\<not> i < int (length ?k)" "\<not> i - int (length ?k) < int (length ?a)"
      "i - int (length ?k) - int (length ?a) < int (length ?t)" using 3 assms(2) by linarith+
    then show ?thesis using p q j 3 assms(2)
      by (auto simp: toml_key_in_def table_keys_def nth_append ret_def Let_def)
  next
    case 4
    then have "\<not> i < int (length ?k)" "\<not> i - int (length ?k) < int (length ?a)"
      "\<not> i - int (length ?k) - int (length ?a) < int (length ?t)" using assms(2) by linarith+
    then show ?thesis using p 4 assms(2)
      by (auto simp: toml_key_in_def table_keys_def ret_def Let_def)
  qed
qed

section \<open>Properties\<close>

text \<open>C28. Counting keys enumerates a table: for every index from 0 on the result is the key at
  that place among the values, then the arrays, then the tables, and null from the first index
  past them on; the store is not changed.\<close>

theorem toml_key_in_enumerates:
  assumes "table_ok m p" "0 \<le> i"
  shows "toml_key_in p i m =
    (Inr (if nat i < length (table_keys m p) then Some (table_keys m p ! nat i) else None), m)"
  by (rule toml_key_in_eq [OF assms])

text \<open>A root table with a value, an array and a table.\<close>

definition sample_store :: toml_mem where
  "sample_store =
     \<lparr>t_alloc_ok = (\<lambda>_. True), t_brk = 4, t_live = {1, 2, 3},
      t_tables = (\<lambda>_. fresh_table)(
        1 := \<lparr>tab_key = None, tab_implicit = False, tab_kval = [\<lparr>kv_key = ''v'', kv_val = Some ''1''\<rparr>],
              tab_arr = [2], tab_tab = [3]\<rparr>,
        3 := \<lparr>tab_key = Some ''sec'', tab_implicit = False,
              tab_kval = [\<lparr>kv_key = ''module.name'', kv_val = Some (quote_basic ''test'')\<rparr>,
                          \<lparr>kv_key = ''hamlib.rigid'', kv_val = Some ''-1''\<rparr>],
              tab_arr = [], tab_tab = []\<rparr>),
      t_arrays = (\<lambda>_. fresh_array)(2 := fresh_array\<lparr>arr_key := Some ''a''\<rparr>)\<rparr>"

lemma sample_store_ok: "table_ok sample_store 1" "table_ok sample_store 3"
  by (simp_all add: table_ok_def sample_store_def)

theorem toml_key_in_enumerates_witness:
  "toml_key_in 1 1 sample_store = (Inr (Some ''a''), sample_store)"
  using toml_key_in_enumerates [OF sample_store_ok(1), of 1]
  by (simp add: table_keys_def sample_store_def)

end
