(* ===== verification/Toml_Parse.thy ===== *)
theory Toml_Parse
  imports Toml_Lex Toml_Value Toml_Table
begin

text \<open>
  The parser of \<^verbatim>\<open>src/external/toml.c\<close>, over the store of tables and arrays extended with the
  parse context. An error routine writes its message and jumps (\<open>Longjmp\<close>), \<open>toml_parse\<close>
  catches the jump. Strings are values; each of their allocations, and each \<open>realloc\<close> of a list
  of pointers, still asks the allocator, so that every out-of-memory path is there.

  The loops and the recursion of the parser are bounded by a number of steps (\<open>fuel\<close>); skipping
  newlines is a partial function, because at the end of the text it never ends.
\<close>

record toml_ctx = toml_mem +
  cx_conf :: string
  cx_errbuf :: string
  cx_errbufsz :: nat
  cx_tok :: token
  cx_root :: nat
  cx_curtab :: nat
  cx_tpath :: "(string \<times> token) list"

type_synonym 'a parser = "(toml_ctx, 'a) prog"

section \<open>Errors\<close>

definition raise_error :: "string \<Rightarrow> 'a parser" where
  "raise_error m =
     seqE (modify (\<lambda>s. s\<lparr>cx_errbuf := take (cx_errbufsz s - 1) m\<rparr>)) (stop Longjmp)"

text \<open>\<open>FLINE\<close> is the place in the source.\<close>

definition fline :: "nat \<Rightarrow> string" where
  "fline n = msg [''external/toml.c:'', show_nat n]"

definition e_outofmemory :: "nat \<Rightarrow> 'a parser" where
  "e_outofmemory n = raise_error (msg [''ERROR: out of memory ('', fline n, '')''])"

definition e_internal_error :: "nat \<Rightarrow> 'a parser" where
  "e_internal_error n = raise_error (msg [''internal error ('', fline n, '')''])"

definition e_syntax_error :: "int \<Rightarrow> string \<Rightarrow> 'a parser" where
  "e_syntax_error lineno m = raise_error (msg [''line '', show_int lineno, '': '', m])"

definition e_bad_key_error :: "int \<Rightarrow> 'a parser" where
  "e_bad_key_error lineno = raise_error (msg [''line '', show_int lineno, '': bad key''])"

definition e_key_exists_error :: "token \<Rightarrow> 'a parser" where
  "e_key_exists_error keytok =
     bindE (gets (\<lambda>s. take 99 (tk_text (cx_conf s) keytok))) (\<lambda>buf.
     raise_error (msg [''line '', show_int (tk_lineno keytok), '': key '', buf, '' exists'']))"

section \<open>Tokens and memory\<close>

definition cur_tok :: "token parser" where
  "cur_tok = gets cx_tok"

definition next_token :: "bool \<Rightarrow> unit parser" where
  "next_token dotisspecial =
     bindE (gets (\<lambda>s. next_tok (cx_conf s) dotisspecial (cx_tok s))) (\<lambda>r.
     case r of
       Inl (lineno, m) \<Rightarrow> e_syntax_error lineno m
     | Inr t \<Rightarrow> modify (\<lambda>s. s\<lparr>cx_tok := t\<rparr>))"

text \<open>The loop of the macro \<open>SKIP_NEWLINES\<close>; no value means that it never ends.\<close>

partial_function (option) skip_loop :: "string \<Rightarrow> token \<Rightarrow> (int \<times> string + token) option" where
  "skip_loop conf t =
     (if tk_tok t \<noteq> NEWLINE then Some (Inr t)
      else case next_tok conf False t of
        Inl e \<Rightarrow> Some (Inl e)
      | Inr t' \<Rightarrow> skip_loop conf t')"

declare skip_loop.simps [code]

definition skip_newlines :: "unit parser" where
  "skip_newlines =
     bindE (gets (\<lambda>s. skip_loop (cx_conf s) (cx_tok s))) (\<lambda>r.
     case r of
       None \<Rightarrow> stop Diverges
     | Some (Inl (lineno, m)) \<Rightarrow> e_syntax_error lineno m
     | Some (Inr t) \<Rightarrow> modify (\<lambda>s. s\<lparr>cx_tok := t\<rparr>))"

definition eat_token :: "tokentype \<Rightarrow> nat \<Rightarrow> unit parser" where
  "eat_token typ n =
     bindE cur_tok (\<lambda>t. if tk_tok t \<noteq> typ then e_internal_error n else next_token False)"

text \<open>An allocation of a block that only its owner knows: a string, or a list of pointers.\<close>

definition t_room :: "bool parser" where
  "t_room s = (Inr (t_alloc_ok s (t_brk s)), s\<lparr>t_brk := Suc (t_brk s)\<rparr>)"

text \<open>The allocation of a structure, or the null pointer.\<close>

definition t_calloc :: "nat parser" where
  "t_calloc s =
     (if t_alloc_ok s (t_brk s)
      then (Inr (t_brk s), s\<lparr>t_brk := Suc (t_brk s), t_live := insert (t_brk s) (t_live s)\<rparr>)
      else (Inr 0, s\<lparr>t_brk := Suc (t_brk s)\<rparr>))"

definition need_room :: "nat \<Rightarrow> unit parser" where
  "need_room n = bindE t_room (\<lambda>ok. if ok then ret () else e_outofmemory n)"

definition new_table :: "nat \<Rightarrow> nat parser" where
  "new_table n =
     bindE t_calloc (\<lambda>p.
     if p = 0 then e_outofmemory n
     else seqE (modify (\<lambda>s. s\<lparr>t_tables := (t_tables s)(p := fresh_table)\<rparr>)) (ret p))"

definition new_array :: "nat \<Rightarrow> nat parser" where
  "new_array n =
     bindE t_calloc (\<lambda>p.
     if p = 0 then e_outofmemory n
     else seqE (modify (\<lambda>s. s\<lparr>t_arrays := (t_arrays s)(p := fresh_array)\<rparr>)) (ret p))"

definition upd_table :: "nat \<Rightarrow> (toml_table_t \<Rightarrow> toml_table_t) \<Rightarrow> unit parser" where
  "upd_table p f = seqE (t_deref p) (modify (\<lambda>s. s\<lparr>t_tables := (t_tables s)(p := f (t_tables s p))\<rparr>))"

definition upd_array :: "nat \<Rightarrow> (toml_array_t \<Rightarrow> toml_array_t) \<Rightarrow> unit parser" where
  "upd_array p f = seqE (t_deref p) (modify (\<lambda>s. s\<lparr>t_arrays := (t_arrays s)(p := f (t_arrays s p))\<rparr>))"

section \<open>Keys\<close>

definition normalized_key :: "token \<Rightarrow> string parser" where
  "normalized_key t =
     bindE (gets (\<lambda>s. normalize_key (cx_conf s) t)) (\<lambda>r.
     case r of
       Key_fault f \<Rightarrow> stop (Undefined f)
     | Key_error e \<Rightarrow> raise_error (msg [''line '', show_int (tk_lineno t), '': '', e])
     | Key_bad \<Rightarrow> e_bad_key_error (tk_lineno t)
     | Key key \<Rightarrow>
         bindE (gets (\<lambda>s. peek (cx_conf s) (tk_ptr t))) (\<lambda>ch.
         bindE t_room (\<lambda>ok.
         if ok then ret key
         else if ch = DQ then raise_error (msg [''line '', show_int (tk_lineno t), '': out of memory''])
         else e_outofmemory (if ch = SQ then 504 else 537))))"

text \<open>The new entry is named by its place in the list of values.\<close>

definition create_keyval_in_table :: "nat \<Rightarrow> token \<Rightarrow> nat parser" where
  "create_keyval_in_table tab keytok =
     bindE (normalized_key keytok) (\<lambda>newkey.
     bindE (check_key tab newkey) (\<lambda>k.
     if k \<noteq> No_key then e_key_exists_error keytok
     else
       seqE (need_room 605)
       (seqE (need_room 612)
       (bindE (the_table tab) (\<lambda>t.
        seqE (upd_table tab (\<lambda>t. t\<lparr>tab_kval := tab_kval t @ [\<lparr>kv_key = newkey, kv_val = None\<rparr>]\<rparr>))
        (ret (length (tab_kval t))))))))"

definition create_keytable_in_table :: "nat \<Rightarrow> token \<Rightarrow> nat parser" where
  "create_keytable_in_table tab keytok =
     bindE (normalized_key keytok) (\<lambda>newkey.
     bindE (check_key tab newkey) (\<lambda>k.
     case k of
       No_key \<Rightarrow>
         seqE (need_room 652)
         (bindE (new_table 659) (\<lambda>dest.
         seqE (upd_table tab (\<lambda>t. t\<lparr>tab_tab := tab_tab t @ [dest]\<rparr>))
         (seqE (upd_table dest (\<lambda>t. t\<lparr>tab_key := Some newkey\<rparr>))
         (ret dest))))
     | Key_tab dest \<Rightarrow>
         bindE (the_table dest) (\<lambda>t.
         if tab_implicit t then
           seqE (upd_table dest (\<lambda>t. t\<lparr>tab_implicit := False\<rparr>)) (ret dest)
         else e_key_exists_error keytok)
     | _ \<Rightarrow> e_key_exists_error keytok))"

definition create_keyarray_in_table :: "nat \<Rightarrow> token \<Rightarrow> bool \<Rightarrow> nat parser" where
  "create_keyarray_in_table tab keytok skip_if_exist =
     bindE (normalized_key keytok) (\<lambda>newkey.
     bindE (check_key tab newkey) (\<lambda>k.
     case k of
       No_key \<Rightarrow>
         seqE (need_room 699)
         (bindE (new_array 706) (\<lambda>dest.
         seqE (upd_table tab (\<lambda>t. t\<lparr>tab_arr := tab_arr t @ [dest]\<rparr>))
         (seqE (upd_array dest (\<lambda>a. a\<lparr>arr_key := Some newkey\<rparr>))
         (ret dest))))
     | _ \<Rightarrow>
         if skip_if_exist then ret (case k of Key_arr dest \<Rightarrow> dest | _ \<Rightarrow> 0)
         else e_key_exists_error keytok))"

text \<open>The list that \<open>realloc\<close> gets must be the one of the union member the array uses.\<close>

definition array_push :: "nat \<Rightarrow> toml_elem \<Rightarrow> unit parser" where
  "array_push arr e = upd_array arr (\<lambda>a. a\<lparr>arr_elems := arr_elems a @ [e]\<rparr>)"

definition create_array_in_array :: "nat \<Rightarrow> nat parser" where
  "create_array_in_array parent =
     seqE (need_room 724)
     (bindE (new_array 730) (\<lambda>p. seqE (array_push parent (E_arr p)) (ret p)))"

definition create_table_in_array :: "nat \<Rightarrow> nat parser" where
  "create_table_in_array parent =
     seqE (need_room 745)
     (bindE (new_table 751) (\<lambda>p. seqE (array_push parent (E_tab p)) (ret p)))"


section \<open>Values\<close>

definition set_kval :: "nat \<Rightarrow> nat \<Rightarrow> string \<Rightarrow> unit parser" where
  "set_kval tab i v =
     upd_table tab (\<lambda>t. t\<lparr>tab_kval := (tab_kval t)[i := (tab_kval t ! i)\<lparr>kv_val := Some v\<rparr>]\<rparr>)"

definition syntax_here :: "string \<Rightarrow> 'a parser" where
  "syntax_here m = bindE cur_tok (\<lambda>t. e_syntax_error (tk_lineno t) m)"

definition expect_token :: "tokentype \<Rightarrow> string \<Rightarrow> unit parser" where
  "expect_token typ m = bindE cur_tok (\<lambda>t. whenE (tk_tok t \<noteq> typ) (e_syntax_error (tk_lineno t) m))"

text \<open>The first entry decides the kind of an array.\<close>

definition set_kind :: "nat \<Rightarrow> char \<Rightarrow> string \<Rightarrow> unit parser" where
  "set_kind arr k m =
     bindE (the_array arr) (\<lambda>a.
     seqE (whenE (arr_kind a = NUL) (upd_array arr (\<lambda>a. a\<lparr>arr_kind := k\<rparr>)))
     (bindE (the_array arr) (\<lambda>a.
     whenE (arr_kind a \<noteq> k) (syntax_here m))))"

text \<open>A value in an array, with the type of the first one.\<close>

definition push_value :: "nat \<Rightarrow> unit parser" where
  "push_value arr =
     bindE cur_tok (\<lambda>t.
     bindE (gets (\<lambda>s. tk_text (cx_conf s) t)) (\<lambda>v.
     seqE (set_kind arr (CHR ''v'') ''a string array can only contain strings'')
     (seqE (need_room 848)
     (seqE (need_room 853)
     (seqE (array_push arr (E_val v))
     (bindE (the_array arr) (\<lambda>a.
     seqE (if length (arr_elems a) = 1 then upd_array arr (\<lambda>a. a\<lparr>arr_type := valtype v\<rparr>)
           else whenE (arr_type a \<noteq> valtype v) (syntax_here ''array type mismatch''))
     (eat_token STRING 866))))))))"

fun parse_table :: "nat \<Rightarrow> nat \<Rightarrow> unit parser"
  and table_loop :: "nat \<Rightarrow> nat \<Rightarrow> unit parser"
  and parse_array :: "nat \<Rightarrow> nat \<Rightarrow> unit parser"
  and array_loop :: "nat \<Rightarrow> nat \<Rightarrow> unit parser"
  and parse_keyval :: "nat \<Rightarrow> nat \<Rightarrow> unit parser" where
  "parse_table fuel tab =
     (case fuel of 0 \<Rightarrow> stop OutOfFuel | Suc f \<Rightarrow>
        seqE (eat_token LBRACE 772)
        (seqE (table_loop f tab)
        (seqE (expect_token RBRACE ''syntax error'')
        (eat_token RBRACE 800))))"
| "table_loop fuel tab =
     (case fuel of 0 \<Rightarrow> stop OutOfFuel | Suc f \<Rightarrow>
        seqE skip_newlines
        (bindE cur_tok (\<lambda>t.
        if tk_tok t = RBRACE then ret ()
        else
          seqE (expect_token STRING ''syntax error'')
          (seqE (parse_keyval f tab)
          (seqE skip_newlines
          (bindE cur_tok (\<lambda>t.
          if tk_tok t = COMMA then seqE (eat_token COMMA 789) (table_loop f tab)
          else ret ())))))))"
| "parse_array fuel arr =
     (case fuel of 0 \<Rightarrow> stop OutOfFuel | Suc f \<Rightarrow>
        seqE (eat_token LBRACKET 822)
        (seqE (array_loop f arr)
        (seqE (expect_token RBRACKET ''syntax error'')
        (eat_token RBRACKET 916))))"
| "array_loop fuel arr =
     (case fuel of 0 \<Rightarrow> stop OutOfFuel | Suc f \<Rightarrow>
        seqE skip_newlines
        (bindE cur_tok (\<lambda>t.
        if tk_tok t = RBRACKET then ret ()
        else
          seqE (case tk_tok t of
              STRING \<Rightarrow> push_value arr
            | LBRACKET \<Rightarrow>
                seqE (set_kind arr (CHR ''a'') ''array type mismatch'')
                (bindE (create_array_in_array arr) (\<lambda>p. parse_array f p))
            | LBRACE \<Rightarrow>
                seqE (set_kind arr (CHR ''t'') ''array type mismatch'')
                (bindE (create_table_in_array arr) (\<lambda>p. parse_table f p))
            | _ \<Rightarrow> syntax_here ''syntax error'')
          (seqE skip_newlines
          (bindE cur_tok (\<lambda>t.
          if tk_tok t = COMMA then seqE (eat_token COMMA 905) (array_loop f arr)
          else ret ()))))))"
| "parse_keyval fuel tab =
     (case fuel of 0 \<Rightarrow> stop OutOfFuel | Suc f \<Rightarrow>
        bindE cur_tok (\<lambda>key.
        if tk_tok key \<noteq> STRING then e_internal_error 929
        else
          seqE (eat_token STRING 935)
          (seqE (expect_token EQUAL ''missing ='')
          (seqE (eat_token EQUAL 941)
          (bindE cur_tok (\<lambda>t.
          case tk_tok t of
            STRING \<Rightarrow>
              bindE (create_keyval_in_table tab key) (\<lambda>i.
              bindE cur_tok (\<lambda>val.
              seqE (need_room 951)
              (bindE (gets (\<lambda>s. tk_text (cx_conf s) val)) (\<lambda>v.
              seqE (set_kval tab i v)
              (eat_token STRING 955)))))
          | LBRACKET \<Rightarrow>
              bindE (create_keyarray_in_table tab key False) (\<lambda>arr. parse_array f arr)
          | LBRACE \<Rightarrow>
              bindE (create_keytable_in_table tab key) (\<lambda>nxttab. parse_table f nxttab)
          | _ \<Rightarrow> syntax_here ''syntax error''))))))"

declare parse_table.simps [simp del] table_loop.simps [simp del] parse_array.simps [simp del]
  array_loop.simps [simp del] parse_keyval.simps [simp del]


section \<open>Table selectors\<close>

text \<open>The loop of \<open>fill_tabpath\<close>; \<open>k\<close> is the room left in the path.\<close>

fun fill_loop :: "int \<Rightarrow> nat \<Rightarrow> unit parser" where
  "fill_loop lineno 0 = e_syntax_error lineno ''table path is too deep; max allowed is 10.''"
| "fill_loop lineno (Suc k) =
     bindE cur_tok (\<lambda>t.
     if tk_tok t \<noteq> STRING then e_syntax_error lineno ''invalid or missing key''
     else
       bindE (normalized_key t) (\<lambda>key.
       seqE (modify (\<lambda>s. s\<lparr>cx_tpath := cx_tpath s @ [(key, t)]\<rparr>))
       (seqE (next_token True)
       (bindE cur_tok (\<lambda>t.
       if tk_tok t = RBRACKET then ret ()
       else if tk_tok t \<noteq> DOT then e_syntax_error lineno ''invalid key''
       else seqE (next_token True) (fill_loop lineno k))))))"

definition fill_tabpath :: "unit parser" where
  "fill_tabpath =
     bindE cur_tok (\<lambda>t.
     seqE (modify (\<lambda>s. s\<lparr>cx_tpath := []\<rparr>)) (fill_loop (tk_lineno t) 10))"

text \<open>The walk from a table along a path.\<close>

fun walk_path :: "(string \<times> token) list \<Rightarrow> nat \<Rightarrow> nat parser" where
  "walk_path [] curtab = ret curtab"
| "walk_path ((key, tok) # path) curtab =
     bindE (check_key curtab key) (\<lambda>k.
     case k of
       Key_tab nexttab \<Rightarrow> walk_path path nexttab
     | Key_arr nextarr \<Rightarrow>
         bindE (the_array nextarr) (\<lambda>a.
         if arr_kind a \<noteq> CHR ''t'' then e_internal_error 1060
         else if arr_elems a = [] then e_internal_error 1064
         else (case last (arr_elems a) of
             E_tab nexttab \<Rightarrow> walk_path path nexttab
           | _ \<Rightarrow> stop (Undefined WrongUnion)))
     | Key_val _ \<Rightarrow> e_key_exists_error tok
     | No_key \<Rightarrow>
         seqE (need_room 1079)
         (bindE (new_table 1085) (\<lambda>nexttab.
         seqE (need_room 1090)
         (seqE (upd_table nexttab (\<lambda>t. t\<lparr>tab_key := Some key\<rparr>))
         (seqE (upd_table curtab (\<lambda>t. t\<lparr>tab_tab := tab_tab t @ [nexttab]\<rparr>))
         (seqE (upd_table nexttab (\<lambda>t. t\<lparr>tab_implicit := True\<rparr>))
         (walk_path path nexttab)))))))"

definition walk_tabpath :: "unit parser" where
  "walk_tabpath =
     bindE (gets (\<lambda>s. (cx_tpath s, cx_root s))) (\<lambda>(path, root).
     bindE (walk_path path root) (\<lambda>curtab.
     modify (\<lambda>s. s\<lparr>cx_curtab := curtab\<rparr>)))"

text \<open>\<open>[[x.y.z]]\<close>: a new table at the end of the array \<open>z\<close>.\<close>

definition add_array_table :: "token \<Rightarrow> nat parser" where
  "add_array_table z =
     bindE (gets cx_curtab) (\<lambda>curtab.
     bindE (create_keyarray_in_table curtab z True) (\<lambda>arr.
     if arr = 0 then e_syntax_error (tk_lineno z) ''key exists''
     else
       bindE (the_array arr) (\<lambda>a.
       seqE (whenE (arr_kind a = NUL) (upd_array arr (\<lambda>a. a\<lparr>arr_kind := CHR ''t''\<rparr>)))
       (bindE (the_array arr) (\<lambda>a.
       if arr_kind a \<noteq> CHR ''t'' then e_syntax_error (tk_lineno z) ''array mismatch''
       else
         seqE (need_room 1159)
         (bindE (new_table 1165) (\<lambda>dest.
         seqE (need_room 1170)
         (seqE (upd_table dest (\<lambda>t. t\<lparr>tab_key := Some ''__anon__''\<rparr>))
         (seqE (array_push arr (E_tab dest))
         (ret dest))))))))))"

text \<open>The table that \<open>[x.y.z]\<close> or \<open>[[x.y.z]]\<close> selects below the current one, and what has to
  follow the path.\<close>

definition select_target :: "bool \<Rightarrow> token \<Rightarrow> nat parser" where
  "select_target double z =
     (if double then add_array_table z
      else bindE (gets cx_curtab) (\<lambda>curtab. create_keytable_in_table curtab z))"

definition close_select :: "bool \<Rightarrow> unit parser" where
  "close_select double =
     seqE (expect_token RBRACKET ''expects ]'')
     (seqE (eat_token RBRACKET 1184)
     (seqE (whenE double
             (seqE (expect_token RBRACKET ''expects ]]'') (eat_token RBRACKET 1191)))
     (expect_token NEWLINE ''extra chars after ] or ]]'')))"

definition parse_select :: "unit parser" where
  "parse_select =
     bindE cur_tok (\<lambda>t.
     if tk_tok t \<noteq> LBRACKET then e_internal_error 1116
     else
       seqE (next_token True)
       (bindE (gets (\<lambda>s. tk_tok (cx_tok s) = LBRACKET)) (\<lambda>double.
       seqE (whenE double (next_token True))
       (seqE fill_tabpath
       (bindE (gets (\<lambda>s. snd (last (cx_tpath s)))) (\<lambda>z.
       seqE (modify (\<lambda>s. s\<lparr>cx_tpath := butlast (cx_tpath s)\<rparr>))
       (seqE walk_tabpath
       (bindE (select_target double z) (\<lambda>dest.
       seqE (modify (\<lambda>s. s\<lparr>cx_curtab := dest\<rparr>))
       (close_select double))))))))))"

section \<open>Releasing a table\<close>

definition t_free :: "nat \<Rightarrow> unit parser" where
  "t_free p s =
     (if p \<in> t_live s then (Inr (), s\<lparr>t_live := t_live s - {p}\<rparr>) else (Inl (Undefined DoubleFree), s))"

fun xfree_arr :: "nat \<Rightarrow> nat \<Rightarrow> unit parser"
  and xfree_elems :: "nat \<Rightarrow> toml_elem list \<Rightarrow> unit parser"
  and xfree_arrs :: "nat \<Rightarrow> nat list \<Rightarrow> unit parser"
  and xfree_tabs :: "nat \<Rightarrow> nat list \<Rightarrow> unit parser"
  and xfree_tab :: "nat \<Rightarrow> nat \<Rightarrow> unit parser" where
  "xfree_arr fuel p =
     (if p = 0 then ret ()
      else case fuel of 0 \<Rightarrow> stop OutOfFuel | Suc f \<Rightarrow>
        bindE (the_array p) (\<lambda>a.
        seqE (if arr_kind a = CHR ''a'' \<or> arr_kind a = CHR ''t'' then xfree_elems f (arr_elems a) else ret ())
        (t_free p)))"
| "xfree_elems fuel [] = ret ()"
| "xfree_elems fuel (e # es) =
     (case fuel of 0 \<Rightarrow> stop OutOfFuel | Suc f \<Rightarrow>
        seqE (case e of E_arr p \<Rightarrow> xfree_arr f p | E_tab p \<Rightarrow> xfree_tab f p | E_val _ \<Rightarrow> stop (Undefined WrongUnion))
        (xfree_elems f es))"
| "xfree_arrs fuel [] = ret ()"
| "xfree_arrs fuel (p # ps) =
     (case fuel of 0 \<Rightarrow> stop OutOfFuel | Suc f \<Rightarrow> seqE (xfree_arr f p) (xfree_arrs f ps))"
| "xfree_tabs fuel [] = ret ()"
| "xfree_tabs fuel (p # ps) =
     (case fuel of 0 \<Rightarrow> stop OutOfFuel | Suc f \<Rightarrow> seqE (xfree_tab f p) (xfree_tabs f ps))"
| "xfree_tab fuel p =
     (if p = 0 then ret ()
      else case fuel of 0 \<Rightarrow> stop OutOfFuel | Suc f \<Rightarrow>
        bindE (the_table p) (\<lambda>t.
        seqE (xfree_arrs f (tab_arr t))
        (seqE (xfree_tabs f (tab_tab t))
        (t_free p))))"

declare xfree_arr.simps [simp del] xfree_tab.simps [simp del]

text \<open>Each step of the walk belongs to one of the structures, and there are at most as many as
  allocations so far.\<close>

definition toml_free :: "nat \<Rightarrow> unit parser" where
  "toml_free tab = bindE (gets t_brk) (\<lambda>n. xfree_tab (2 * n) tab)"

section \<open>toml\_parse\<close>

fun parse_lines :: "nat \<Rightarrow> unit parser" where
  "parse_lines fuel =
     (case fuel of 0 \<Rightarrow> stop OutOfFuel | Suc f \<Rightarrow>
        bindE cur_tok (\<lambda>tok.
        if tk_eof tok then ret ()
        else case tk_tok tok of
            NEWLINE \<Rightarrow> seqE (next_token True) (parse_lines f)
          | STRING \<Rightarrow>
              bindE (gets cx_curtab) (\<lambda>curtab.
              seqE (parse_keyval f curtab)
              (seqE (expect_token NEWLINE ''extra chars after value'')
              (seqE (eat_token NEWLINE 1258)
              (parse_lines f))))
          | LBRACKET \<Rightarrow> seqE parse_select (parse_lines f)
          | _ \<Rightarrow> raise_error (msg [''line '', show_int (tk_lineno tok), '': syntax error''])))"

declare parse_lines.simps [simp del]

text \<open>The context after its initialisation, with an artificial newline of length 0.\<close>

definition init_ctx :: "string \<Rightarrow> nat \<Rightarrow> toml_mem \<Rightarrow> toml_ctx" where
  "init_ctx conf errbufsz m = toml_mem.extend m
     \<lparr>cx_conf = cstr conf, cx_errbuf = [], cx_errbufsz = errbufsz,
      cx_tok = \<lparr>tk_tok = NEWLINE, tk_lineno = 1, tk_ptr = 0, tk_len = 0, tk_eof = False\<rparr>,
      cx_root = 0, cx_curtab = 0, cx_tpath = []\<rparr>"

definition make_root :: "unit parser" where
  "make_root =
     bindE t_calloc (\<lambda>p.
     if p = 0 then raise_error (msg [''ERROR: out of memory ('', fline 1228, '')''])
     else seqE (modify (\<lambda>s. s\<lparr>t_tables := (t_tables s)(p := fresh_table)\<rparr>))
       (modify (\<lambda>s. s\<lparr>cx_root := p, cx_curtab := p\<rparr>)))"

text \<open>Catching the jump: the tables are released (none, when the root was never made).\<close>

definition catch_error :: "unit parser \<Rightarrow> nat parser" where
  "catch_error m s = (case m s of
     (Inr _, t) \<Rightarrow> (Inr (cx_root t), t)
   | (Inl Longjmp, t) \<Rightarrow> seqE (toml_free (cx_root t)) (ret 0) t
   | (Inl h, t) \<Rightarrow> (Inl h, t))"

text \<open>The result is the root table, or the null pointer and the text of the error.\<close>

definition toml_parse :: "nat \<Rightarrow> string \<Rightarrow> nat \<Rightarrow> (toml_mem, nat \<times> string) prog" where
  "toml_parse fuel conf errbufsz m =
     (case catch_error (seqE make_root (parse_lines fuel)) (init_ctx conf errbufsz m) of
        (Inr p, t) \<Rightarrow> (Inr (p, cx_errbuf t), toml_mem.truncate t)
      | (Inl h, t) \<Rightarrow> (Inl h, toml_mem.truncate t))"

section \<open>toml\_parse\_file\<close>

text \<open>An open file: its bytes, and the \<open>errno\<close> with which reading fails after them, if it
  does.\<close>

record c_file =
  f_bytes :: string
  f_failure :: "int option"

text \<open>Room for the buffer of the reader.\<close>

definition m_room :: "(toml_mem, bool) prog" where
  "m_room m = (Inr (t_alloc_ok m (t_brk m)), m\<lparr>t_brk := Suc (t_brk m)\<rparr>)"

text \<open>The reading loop: \<open>buf\<close> has been read into a buffer of \<open>bufsz + 1\<close> bytes, \<open>rest\<close> is to
  come. A short read is the end of the file. The result is the message or the text.\<close>

fun read_file :: "nat \<Rightarrow> (int \<Rightarrow> string) \<Rightarrow> int option \<Rightarrow> nat \<Rightarrow> string \<Rightarrow> string \<Rightarrow> (toml_mem, string + string) prog" where
  "read_file 0 errtext failure bufsz buf rest = stop OutOfFuel"
| "read_file (Suc fuel) errtext failure bufsz buf rest =
     bindE m_room (\<lambda>ok.
     if \<not> ok then ret (Inl ''out of memory'')
     else
       let bufsz = bufsz + 1000; want = bufsz - length buf in
       if length rest < want then
         (case failure of
            Some e \<Rightarrow> ret (Inl (if e \<noteq> 0 then errtext e else ''Error reading file''))
          | None \<Rightarrow> ret (Inr (buf @ rest)))
       else read_file fuel errtext failure bufsz (buf @ take want rest) (drop want rest))"

definition toml_parse_file :: "nat \<Rightarrow> (int \<Rightarrow> string) \<Rightarrow> c_file \<Rightarrow> nat \<Rightarrow> (toml_mem, nat \<times> string) prog" where
  "toml_parse_file fuel errtext fp errbufsz =
     bindE m_room (\<lambda>ok.
     if \<not> ok then ret (0, take (errbufsz - 1) ''out of memory'')
     else
       bindE (read_file fuel errtext (f_failure fp) 1000 [] (f_bytes fp)) (\<lambda>r.
       case r of
         Inl e \<Rightarrow> ret (0, take (errbufsz - 1) e)
       | Inr buf \<Rightarrow> toml_parse fuel buf errbufsz))"

end
