(* ===== verification/Configfile.thy ===== *)
theory Configfile
  imports Runloop_Handles Toml_Parse
begin

text \<open>
  Model of \<^verbatim>\<open>src/configfile.c\<close>: the loaded configuration and its typed lookups. The state is
  the global \<open>toml_root\<close>, the static buffer pointer \<open>buf\<close> of \<open>configfile_gets_section_key\<close>
  (\<open>config_buf\<close>, kept between calls) and the store of TOML structures. Strings that the TOML
  library hands out for good (\<open>toml_rtos\<close>) live on the process heap, where \<open>free\<close> finds them.

  Opening and closing the file are fields of the parameter record \<open>stdio\<close>; an open file is its
  bytes.
\<close>

record 'w stdio =
  os_fopen :: "string \<Rightarrow> 'w \<Rightarrow> c_file option"
  os_fclose :: "string \<Rightarrow> 'w \<Rightarrow> int"

record ('w, 'cb) config_state = "('w, 'cb) runloop_state" +
  toml_store :: toml_mem
  toml_root :: nat
  config_buf :: nat

type_synonym ('w, 'cb, 'z, 'a) config_prog = "(('w, 'cb, 'z) config_state_scheme, 'a) prog"

text \<open>A value between single quotes in a message.\<close>

definition quo :: "string \<Rightarrow> string" where
  "quo s = [SQ] @ s @ [SQ]"

text \<open>A call of the TOML library, which works on its store.\<close>

definition on_toml :: "(toml_mem, 'a) prog \<Rightarrow> ('w, 'cb, 'z, 'a) config_prog" where
  "on_toml m s = (case m (toml_store s) of (r, t) \<Rightarrow> (r, s\<lparr>toml_store := t\<rparr>))"

text \<open>The buffer for the error text has 1024 bytes; \<open>fuel\<close> bounds the steps of the parser.\<close>

definition configfile_load ::
  "'w stdio \<Rightarrow> nat \<Rightarrow> string \<Rightarrow> ('w, 'cb, 'z, unit) config_prog" where
  "configfile_load os fuel path =
     bindE (gets toml_root) (\<lambda>old.
     seqE (whenE (old \<noteq> 0) (util_fatal ''attempt to load config file when a config is already loaded''))
     (bindE (sysread (os_fopen os path)) (\<lambda>fh.
     bindE (case fh of None \<Rightarrow> util_fatal (msg [''could not fopen('', path, ''): %m'']) | Some fh \<Rightarrow> ret fh) (\<lambda>fh.
     bindE (gets strerror) (\<lambda>errtext.
     bindE (on_toml (toml_parse_file fuel errtext fh 1024)) (\<lambda>(root, error).
     seqE (modify (\<lambda>s. s\<lparr>toml_root := root\<rparr>))
     (bindE (sysread (os_fclose os path)) (\<lambda>rc.
     seqE (whenE (rc \<noteq> 0) (util_fatal (msg [''could not fclose('', path, ''): %m''])))
     (whenE (root = 0) (util_fatal (msg [''Could not load '', path, '':'', nl, error, nl, nl])))))))))))"

definition configfile_guard :: "('w, 'cb, 'z, unit) config_prog" where
  "configfile_guard =
     bindE (gets toml_root) (\<lambda>root.
     whenE (root = 0) (util_fatal (msg [''toml_root is NULL'', nl])))"

definition configfile_get_section_name :: "int \<Rightarrow> ('w, 'cb, 'z, string option) config_prog" where
  "configfile_get_section_name num =
     seqE configfile_guard
     (bindE (gets toml_root) (\<lambda>root. on_toml (toml_key_in root num)))"

text \<open>The counting loop; it has no bound of its own, so the first argument gives one.\<close>

fun count_sections :: "nat \<Rightarrow> int \<Rightarrow> ('w, 'cb, 'z, int) config_prog" where
  "count_sections 0 i = stop OutOfFuel"
| "count_sections (Suc fuel) i =
     bindE (configfile_get_section_name i) (\<lambda>p.
     case p of None \<Rightarrow> ret i | Some _ \<Rightarrow> count_sections fuel (i + 1))"

definition configfile_get_section_count :: "nat \<Rightarrow> ('w, 'cb, 'z, int) config_prog" where
  "configfile_get_section_count fuel = seqE configfile_guard (count_sections fuel 0)"

text \<open>
  \<open>toml_rtos\<close> as the caller sees it: it stores the null pointer before it allocates, so the
  buffer pointer changes unless the raw value does not start with a quote; the result tells
  whether it succeeded.
\<close>

definition rtos_into_buf :: "string \<Rightarrow> ('w, 'cb, 'z, bool) config_prog" where
  "rtos_into_buf raw =
     (if peek raw 0 \<noteq> SQ \<and> peek raw 0 \<noteq> DQ then ret False
      else seqE (modify (\<lambda>s. s\<lparr>config_buf := 0\<rparr>))
        (case toml_rtos raw of
           None \<Rightarrow> ret False
         | Some (Norm_fault f) \<Rightarrow> stop (Undefined f)
         | Some (Norm_error _) \<Rightarrow> ret False
         | Some (Norm_ok t) \<Rightarrow>
             bindE c_alloc (\<lambda>p.
             if p = 0 then ret False
             else seqE (modify (\<lambda>s. s\<lparr>strs := (strs s)(p := t), config_buf := p\<rparr>)) (ret True))))"

text \<open>The result is the pointer \<open>buf\<close>, or the null pointer.\<close>

definition configfile_gets_section_key :: "string \<Rightarrow> string \<Rightarrow> ('w, 'cb, 'z, nat) config_prog" where
  "configfile_gets_section_key section key =
     seqE configfile_guard
     (bindE (gets config_buf) (\<lambda>buf.
     seqE (whenE (buf \<noteq> 0) (c_free buf))
     (bindE (gets toml_root) (\<lambda>root.
     bindE (on_toml (toml_table_in root section)) (\<lambda>section_table.
     seqE (whenE (section_table = 0) (util_fatal (msg [''could not find config entry for '', quo section, nl])))
     (seqE (log_lots (msg [''looking up '', quo section, '' '', quo key]))
     (bindE (on_toml (toml_raw_in section_table key)) (\<lambda>raw.
     case raw of
       None \<Rightarrow> seqE (log_lots ''configfile_get_section_key(): nothing found'') (ret 0)
     | Some raw \<Rightarrow>
         seqE (log_lots (msg [''configfile_get_section_key(): raw = '', quo raw]))
         (bindE (rtos_into_buf raw) (\<lambda>ok.
         seqE (whenE (\<not> ok) (util_fatal (msg [''configfile_get_section_key(): toml_rtos() failed'', nl])))
         (bindE (gets config_buf) (\<lambda>buf.
         seqE (deref buf)
         (bindE (gets (\<lambda>s. strs s buf)) (\<lambda>t.
         seqE (log_lots (msg [''configfile_get_section_key(): buf = '', quo t]))
         (ret buf)))))))))))))))"

definition configfile_rgets_section_key :: "string \<Rightarrow> string \<Rightarrow> ('w, 'cb, 'z, nat) config_prog" where
  "configfile_rgets_section_key section key =
     seqE configfile_guard
     (bindE (configfile_gets_section_key section key) (\<lambda>value.
     seqE (whenE (value = 0)
             (util_fatal (msg [''Could not get required key: '', quo key, '' from '', quo section, nl])))
     (ret value)))"

text \<open>\<open>None\<close> is the result \<open>false\<close>.\<close>

definition configfile_geti_section_key :: "string \<Rightarrow> string \<Rightarrow> ('w, 'cb, 'z, int option) config_prog" where
  "configfile_geti_section_key section key =
     seqE configfile_guard
     (bindE (gets toml_root) (\<lambda>root.
     bindE (on_toml (toml_table_in root section)) (\<lambda>section_table.
     seqE (whenE (section_table = 0) (util_fatal (msg [''could not find config entry for '', quo section, nl])))
     (bindE (on_toml (toml_raw_in section_table key)) (\<lambda>raw.
     case raw of None \<Rightarrow> ret None
     | Some raw \<Rightarrow>
         (case toml_rtoi (Some raw) of
            None \<Rightarrow> util_fatal (msg [''could not toml_rtoi()'', nl])
          | Some i \<Rightarrow> ret (Some i)))))))"

definition configfile_rgeti_section_key :: "string \<Rightarrow> string \<Rightarrow> ('w, 'cb, 'z, int) config_prog" where
  "configfile_rgeti_section_key section key =
     seqE configfile_guard
     (bindE (configfile_geti_section_key section key) (\<lambda>result.
     case result of
       None \<Rightarrow> util_fatal (msg [''could not find '', quo key, '' in '', quo section, nl])
     | Some i \<Rightarrow> ret i))"

section \<open>Lookup in a loaded configuration\<close>

lemma bindE_on_toml [simp]:
  "m (toml_store s) = (Inr x, toml_store s) \<Longrightarrow> bindE (on_toml m) f s = f x s"
  by (simp add: on_toml_def bindE_def)

lemma log_upd_config [simp]:
  "toml_store (log_upd src l f p n m s) = toml_store s"
  "toml_root (log_upd src l f p n m s) = toml_root s"
  "config_buf (log_upd src l f p n m s) = config_buf s"
  by (simp_all add: log_upd_def)

text \<open>A configuration has been loaded, and the buffer of the last lookup, if any, is still
  allocated.\<close>

definition config_loaded :: "('w, 'cb, 'z) config_state_scheme \<Rightarrow> bool" where
  "config_loaded s \<longleftrightarrow> ready s \<and> table_ok (toml_store s) (toml_root s)"

definition buf_ok :: "('w, 'cb, 'z) config_state_scheme \<Rightarrow> bool" where
  "buf_ok s \<longleftrightarrow> config_buf s = 0 \<or> config_buf s \<in> live s"

definition section_table :: "('w, 'cb, 'z) config_state_scheme \<Rightarrow> string \<Rightarrow> nat" where
  "section_table s sec =
     first_ptr (\<lambda>q. tab_key (t_tables (toml_store s) q) = Some sec) (tab_tab (t_tables (toml_store s) (toml_root s)))"

text \<open>The raw value of a key: no value when the section is missing, \<open>Some None\<close> when the key is.\<close>

definition config_lookup :: "('w, 'cb, 'z) config_state_scheme \<Rightarrow> string \<Rightarrow> string \<Rightarrow> string option option" where
  "config_lookup s sec key =
     (if section_table s sec = 0 then None
      else Some (case find_kval key (tab_kval (t_tables (toml_store s) (section_table s sec))) of
        None \<Rightarrow> None | Some kv \<Rightarrow> kv_val kv))"

lemma config_loadedD:
  assumes "config_loaded s"
  shows "ready s" "table_ok (toml_store s) (toml_root s)" "toml_root s \<noteq> 0" "message_buf s \<noteq> 0"
  using assms by (auto simp: config_loaded_def table_ok_def)

lemma guard_loaded [simp]: "config_loaded s \<Longrightarrow> configfile_guard s = (Inr (), s)"
  by (simp add: configfile_guard_def whenE_def ret_def config_loadedD)

lemma section_table_eq:
  assumes "config_loaded s"
  shows "toml_table_in (toml_root s) sec (toml_store s) = (Inr (section_table s sec), toml_store s)"
  using toml_table_in_eq [OF config_loadedD(2) [OF assms]] by (simp add: section_table_def)

lemma section_table_live:
  assumes "config_loaded s" "section_table s sec \<noteq> 0"
  shows "section_table s sec \<in> t_live (toml_store s)"
proof -
  have "section_table s sec \<in> set (tab_tab (t_tables (toml_store s) (toml_root s)))"
    using first_ptr_in assms(2) unfolding section_table_def by blast
  then show ?thesis using config_loadedD(2) [OF assms(1)] by (simp add: table_ok_def)
qed

lemma raw_in_eq:
  assumes "config_loaded s" "config_lookup s sec key = Some r"
  shows "toml_raw_in (section_table s sec) key (toml_store s) = (Inr r, toml_store s)"
  using assms section_table_live [OF assms(1)]
  by (auto simp: config_lookup_def toml_raw_in_eq split: if_splits)

text \<open>The state after the buffer of the last lookup has been released.\<close>

definition drop_buf :: "('w, 'cb, 'z) config_state_scheme \<Rightarrow> ('w, 'cb, 'z) config_state_scheme" where
  "drop_buf s = s\<lparr>live := live s - {config_buf s}\<rparr>"

lemma drop_buf_simps [simp]:
  "toml_store (drop_buf s) = toml_store s" "toml_root (drop_buf s) = toml_root s"
  "config_buf (drop_buf s) = config_buf s" "message_buf (drop_buf s) = message_buf s"
  "brk (drop_buf s) = brk s" "live (drop_buf s) = live s - {config_buf s}" "strs (drop_buf s) = strs s"
  "alloc_ok (drop_buf s) = alloc_ok s"
  by (simp_all add: drop_buf_def)

lemma drop_buf_loaded: "config_loaded s \<Longrightarrow> config_loaded (drop_buf s)"
  unfolding config_loaded_def
  by (auto simp: drop_buf_def ready_def heap_inv_def mem_ok_def simp del: readyD)

lemma free_buf:
  assumes "config_loaded s" "buf_ok s"
  shows "seqE (whenE (0 < config_buf s) (c_free (config_buf s))) m s = m (drop_buf s)"
proof (cases "config_buf s = 0")
  case True
  have "0 \<notin> live s" using config_loadedD(1) [OF assms(1)] by simp
  then have "drop_buf s = s" using True by (simp add: drop_buf_def)
  with True show ?thesis by (simp add: whenE_def)
next
  case False
  then show ?thesis using assms(2) by (simp add: whenE_def c_free_def drop_buf_def buf_ok_def)
qed

lemma config_lookup_drop [simp]: "config_lookup (drop_buf s) sec key = config_lookup s sec key"
  by (simp add: config_lookup_def section_table_def)

lemma section_table_drop [simp]: "section_table (drop_buf s) sec = section_table s sec"
  by (simp add: section_table_def)

definition frame_log :: "('w, 'cb, 'z) config_state_scheme \<Rightarrow> ('w, 'cb, 'z) config_state_scheme \<Rightarrow> bool" where
  "frame_log s t \<longleftrightarrow> (\<exists>c m. t = s\<lparr>message_text := m, console := c\<rparr>)"

lemma frame_log_refl: "frame_log s s"
  unfolding frame_log_def by (rule exI [of _ "console s"], rule exI [of _ "message_text s"]) simp

lemma frame_log_log: "frame_log s (log_upd src l f p n m s)"
  unfolding frame_log_def log_upd_def by blast

lemma frame_log_trans: "frame_log s t \<Longrightarrow> frame_log t u \<Longrightarrow> frame_log s u"
  unfolding frame_log_def by force

lemma frame_logD:
  assumes "frame_log s t"
  shows "toml_store t = toml_store s" "toml_root t = toml_root s" "config_buf t = config_buf s"
    "message_buf t = message_buf s" "brk t = brk s" "live t = live s" "strs t = strs s"
    "alloc_ok t = alloc_ok s" "world t = world s" "ready t = ready s"
  using assms by (auto simp: frame_log_def ready_def heap_inv_def mem_ok_def simp del: readyD)

lemma frame_log_loaded: "frame_log s t \<Longrightarrow> config_loaded s \<Longrightarrow> config_loaded t"
  by (simp add: config_loaded_def frame_logD)

section \<open>The string lookup\<close>

lemma gets_no_section:
  assumes "config_loaded s" "buf_ok s" "config_lookup s sec key = None"
  shows "fst (configfile_gets_section_key sec key s) = Inl (Exited exit_fatal)"
  using assms section_table_eq [OF drop_buf_loaded [OF assms(1)], of sec]
    config_loadedD(4) [OF assms(1)]
  by (simp add: configfile_gets_section_key_def config_lookup_def free_buf [OF assms(1,2)] split: if_splits)

text \<open>The common beginning of the other cases: release the old buffer, find the raw value.\<close>

lemma gets_begin:
  assumes "config_loaded s" "buf_ok s" "config_lookup s sec key = Some r"
  defines "t \<equiv> log_msg log_level_lots (msg [''looking up '', quo sec, '' '', quo key]) (drop_buf s)"
  shows "configfile_gets_section_key sec key s =
    (case r of
       None \<Rightarrow> seqE (log_lots ''configfile_get_section_key(): nothing found'') (ret 0)
     | Some raw \<Rightarrow>
         seqE (log_lots (msg [''configfile_get_section_key(): raw = '', quo raw]))
         (bindE (rtos_into_buf raw) (\<lambda>ok.
         seqE (whenE (\<not> ok) (util_fatal (msg [''configfile_get_section_key(): toml_rtos() failed'', nl])))
         (bindE (gets config_buf) (\<lambda>buf.
         seqE (deref buf)
         (bindE (gets (\<lambda>s. strs s buf)) (\<lambda>t.
         seqE (log_lots (msg [''configfile_get_section_key(): buf = '', quo t]))
         (ret buf)))))))) t"
proof -
  have st: "section_table s sec \<noteq> 0" using assms(3) by (auto simp: config_lookup_def split: if_splits)
  have ld: "config_loaded (drop_buf s)" by (rule drop_buf_loaded [OF assms(1)])
  have "config_loaded t" unfolding t_def by (rule frame_log_loaded [OF frame_log_log ld])
  moreover have same: "section_table t sec = section_table s sec" "toml_store t = toml_store s"
    by (simp_all add: t_def section_table_def)
  moreover have "config_lookup t sec key = Some r"
    using assms(3) unfolding config_lookup_def same .
  ultimately have raw: "toml_raw_in (section_table s sec) key (toml_store t) = (Inr r, toml_store t)"
    using raw_in_eq by fastforce
  show ?thesis
    using assms(1) st section_table_eq [OF ld, of sec] raw config_loadedD(4) [OF assms(1)]
    unfolding t_def by (simp add: configfile_gets_section_key_def free_buf [OF assms(1,2)])
qed

lemma gets_missing:
  assumes "config_loaded s" "buf_ok s" "config_lookup s sec key = Some None"
  shows "\<exists>t. configfile_gets_section_key sec key s = (Inr 0, t) \<and> frame_log (drop_buf s) t"
proof -
  let ?a = "msg [''looking up '', quo sec, '' '', quo key]"
  let ?b = "''configfile_get_section_key(): nothing found''"
  let ?t = "log_msg log_level_lots ?a (drop_buf s)"
  have "configfile_gets_section_key sec key s = (Inr 0, log_msg log_level_lots ?b ?t)"
    using gets_begin [OF assms] config_loadedD(4) [OF assms(1)]
    by (simp add: ret_def)
  moreover have "frame_log (drop_buf s) (log_msg log_level_lots ?b ?t)"
    by (rule frame_log_trans [OF frame_log_log frame_log_log])
  ultimately show ?thesis by blast
qed

text \<open>The state after a value has been stored in a new buffer.\<close>

definition new_buf :: "string \<Rightarrow> ('w, 'cb, 'z) config_state_scheme \<Rightarrow> ('w, 'cb, 'z) config_state_scheme" where
  "new_buf text s = s\<lparr>brk := Suc (brk s), live := insert (brk s) (live s - {config_buf s}),
     strs := (strs s)(brk s := text), config_buf := brk s\<rparr>"

lemma rtos_into_buf_ok:
  assumes "ready s" "toml_rtos raw = Some (Norm_ok text)"
  shows "rtos_into_buf raw s = (Inr True, s\<lparr>brk := Suc (brk s), live := insert (brk s) (live s),
    strs := (strs s)(brk s := text), config_buf := brk s\<rparr>)"
proof -
  have "\<not> (peek raw 0 \<noteq> SQ \<and> peek raw 0 \<noteq> DQ)"
    using assms(2) by (auto simp: toml_rtos_def split: if_splits)
  then show ?thesis
    using assms by (simp add: rtos_into_buf_def c_alloc_def bindE_def seqE_def modify_def ret_def)
qed

lemma frame_log_obtain:
  assumes "frame_log s t"
  obtains c m where "t = s\<lparr>message_text := m, console := c\<rparr>"
  using assms by (auto simp: frame_log_def)

lemma gets_found:
  assumes "config_loaded s" "buf_ok s" "config_lookup s sec key = Some (Some raw)"
    and "toml_rtos raw = Some (Norm_ok text)"
  shows "\<exists>t. configfile_gets_section_key sec key s = (Inr (brk s), t) \<and> frame_log (new_buf text s) t"
proof -
  let ?a = "msg [''looking up '', quo sec, '' '', quo key]"
  let ?b = "msg [''configfile_get_section_key(): raw = '', quo raw]"
  let ?c = "\<lambda>t. msg [''configfile_get_section_key(): buf = '', quo t]"
  let ?t = "log_msg log_level_lots ?b (log_msg log_level_lots ?a (drop_buf s))"
  let ?u = "?t\<lparr>brk := Suc (brk s), live := insert (brk s) (live s - {config_buf s}),
    strs := (strs s)(brk s := text), config_buf := brk s\<rparr>"
  have r: "ready ?t" using config_loadedD(1) [OF drop_buf_loaded [OF assms(1)]]
    by (simp add: frame_logD(10) [OF frame_log_log])
  have ok: "rtos_into_buf raw ?t = (Inr True, ?u)"
    using rtos_into_buf_ok [OF r assms(4)] by simp
  have "configfile_gets_section_key sec key s = (Inr (brk s), log_msg log_level_lots (?c text) ?u)"
    using gets_begin [OF assms(1-3)] config_loadedD(1,4) [OF assms(1)] ok
    by (simp add: ret_def deref_def)
  moreover have "frame_log (new_buf text s) (log_msg log_level_lots (?c text) ?u)"
  proof -
    obtain con m where "?t = (drop_buf s)\<lparr>message_text := m, console := con\<rparr>"
      using frame_log_obtain [OF frame_log_trans [OF frame_log_log frame_log_log]] by metis
    then have "frame_log (new_buf text s) ?u"
      unfolding frame_log_def new_buf_def drop_buf_def
      by (intro exI [of _ con] exI [of _ m]) simp
    then show ?thesis by (rule frame_log_trans [OF _ frame_log_log])
  qed
  ultimately show ?thesis by blast
qed

lemma gets_bad:
  assumes "config_loaded s" "buf_ok s" "config_lookup s sec key = Some (Some raw)" "toml_rtos raw = None"
  shows "fst (configfile_gets_section_key sec key s) = Inl (Exited exit_fatal)"
proof -
  let ?a = "msg [''looking up '', quo sec, '' '', quo key]"
  let ?b = "msg [''configfile_get_section_key(): raw = '', quo raw]"
  let ?t = "log_msg log_level_lots ?b (log_msg log_level_lots ?a (drop_buf s))"
  have "\<exists>u. rtos_into_buf raw ?t = (Inr False, u) \<and> message_buf u = message_buf s"
    using assms(4) by (simp add: rtos_into_buf_def ret_def)
  then obtain u where u: "rtos_into_buf raw ?t = (Inr False, u)" "message_buf u = message_buf s" by blast
  show ?thesis
    using gets_begin [OF assms(1-3)] config_loadedD(1,4) [OF assms(1)] u
    by simp
qed

section \<open>Integer lookup and the section names\<close>

lemma geti_eq:
  assumes "config_loaded s" "config_lookup s sec key = Some r"
  shows "configfile_geti_section_key sec key s =
    (case r of None \<Rightarrow> (Inr None, s)
     | Some raw \<Rightarrow> (case toml_rtoi (Some raw) of
         None \<Rightarrow> (Inl (Exited exit_fatal), log_msg log_level_fatal (msg [''could not toml_rtoi()'', nl]) s)
       | Some i \<Rightarrow> (Inr (Some i), s)))"
proof -
  have "section_table s sec \<noteq> 0" using assms(2) by (auto simp: config_lookup_def split: if_splits)
  then show ?thesis
    using assms(1) section_table_eq [OF assms(1), of sec] raw_in_eq [OF assms] config_loadedD(4) [OF assms(1)]
    by (auto simp: configfile_geti_section_key_def ret_def split: option.splits)
qed

lemma geti_no_section:
  assumes "config_loaded s" "config_lookup s sec key = None"
  shows "fst (configfile_geti_section_key sec key s) = Inl (Exited exit_fatal)"
proof -
  have "section_table s sec = 0" using assms(2) by (auto simp: config_lookup_def split: if_splits)
  then show ?thesis
    using assms(1) section_table_eq [OF assms(1), of sec] config_loadedD(4) [OF assms(1)]
    by (simp add: configfile_geti_section_key_def)
qed

lemma section_name_eq:
  assumes "config_loaded s" "0 \<le> i"
  defines "names \<equiv> table_keys (toml_store s) (toml_root s)"
  shows "configfile_get_section_name i s = (Inr (if nat i < length names then Some (names ! nat i) else None), s)"
  using assms toml_key_in_eq [OF config_loadedD(2) [OF assms(1)] assms(2)]
  by (simp add: configfile_get_section_name_def on_toml_def)

lemma count_sections_eq:
  assumes "config_loaded s" "0 \<le> i" "nat i \<le> length (table_keys (toml_store s) (toml_root s))"
    "length (table_keys (toml_store s) (toml_root s)) - nat i < fuel"
  shows "count_sections fuel i s = (Inr (int (length (table_keys (toml_store s) (toml_root s)))), s)"
  using assms(2-)
proof (induction fuel arbitrary: i)
  case 0
  then show ?case by simp
next
  case (Suc fuel)
  note name = section_name_eq [OF assms(1) Suc.prems(1)]
  show ?case
  proof (cases "nat i < length (table_keys (toml_store s) (toml_root s))")
    case True
    have "count_sections fuel (i + 1) s = (Inr (int (length (table_keys (toml_store s) (toml_root s)))), s)"
      using Suc.prems True by (intro Suc.IH) auto
    then show ?thesis using name True by simp
  next
    case False
    then have "i = int (length (table_keys (toml_store s) (toml_root s)))" using Suc.prems by linarith
    then show ?thesis using name False by (simp add: ret_def)
  qed
qed

section \<open>Properties\<close>

text \<open>C17. Looking up a string, all cases: a missing section or a value that is not a string ends
  the program with the fatal status; a missing key gives the null pointer; otherwise the result
  is a fresh block that holds the decoded string, the block of the previous lookup has been
  released, and the static pointer is left on the new one.\<close>

theorem gets_section_key_cases:
  assumes "config_loaded s" "buf_ok s"
  shows "case config_lookup s sec key of
      None \<Rightarrow> fst (configfile_gets_section_key sec key s) = Inl (Exited exit_fatal)
    | Some None \<Rightarrow> \<exists>t. configfile_gets_section_key sec key s = (Inr 0, t) \<and>
        live t = live s - {config_buf s} \<and> config_buf t = config_buf s
    | Some (Some raw) \<Rightarrow> (case toml_rtos raw of
          Some (Norm_ok text) \<Rightarrow> \<exists>p t. configfile_gets_section_key sec key s = (Inr p, t) \<and>
            p \<notin> live s \<and> strs t p = text \<and> live t = insert p (live s - {config_buf s}) \<and>
            config_buf t = p \<and> buf_ok t \<and> config_loaded t
        | _ \<Rightarrow> fst (configfile_gets_section_key sec key s) = Inl (Exited exit_fatal))"
proof (cases "config_lookup s sec key")
  case None
  then show ?thesis using gets_no_section [OF assms None] by simp
next
  case (Some r)
  show ?thesis
  proof (cases r)
    case None
    with Some obtain t where "configfile_gets_section_key sec key s = (Inr 0, t)" "frame_log (drop_buf s) t"
      using gets_missing [OF assms] by blast
    with Some None show ?thesis by (auto simp: frame_logD)
  next
    case raw: (Some raw)
    show ?thesis
    proof (cases "toml_rtos raw")
      case None
      with gets_bad [OF assms] Some raw show ?thesis by simp
    next
      case (Some n)
      then obtain str where n: "n = Norm_ok str" using toml_rtos_ok by blast
      obtain t where
        t: "configfile_gets_section_key sec key s = (Inr (brk s), t)" "frame_log (new_buf str s) t"
        using gets_found [OF assms] Some raw n \<open>config_lookup s sec key = Some r\<close> by blast
      have fresh: "brk s \<notin> live s" by (rule heap_inv_fresh [OF readyD(5) [OF config_loadedD(1) [OF assms(1)]]])
      have "config_loaded (new_buf str s)"
        using assms(1) unfolding config_loaded_def new_buf_def
        by (auto simp: ready_def heap_inv_def mem_ok_def simp del: readyD)
      then have ld: "config_loaded t" by (rule frame_log_loaded [OF t(2)])
      have "strs t (brk s) = str" "live t = insert (brk s) (live s - {config_buf s})"
        "config_buf t = brk s" "buf_ok t"
        by (simp_all add: frame_logD [OF t(2)] new_buf_def buf_ok_def)
      note facts = t(1) fresh ld this
      have "\<exists>p t. configfile_gets_section_key sec key s = (Inr p, t) \<and>
          p \<notin> live s \<and> strs t p = str \<and> live t = insert p (live s - {config_buf s}) \<and>
          config_buf t = p \<and> buf_ok t \<and> config_loaded t"
        by (rule exI [of _ "brk s"], rule exI [of _ t], intro conjI; rule facts)
      then show ?thesis by (simp only: raw Some n \<open>config_lookup s sec key = Some r\<close> option.case norm.case n)
    qed
  qed
qed

definition sample_config :: "(unit, unit) config_state" where
  "sample_config = runloop_state.extend (sample_loop ())
     \<lparr>toml_store = sample_store, toml_root = 1, config_buf = 0\<rparr>"

lemmas sample_config_defs = sample_config_def sample_loop_defs runloop_state.defs

lemma sample_config_loaded: "config_loaded sample_config" "buf_ok sample_config"
proof -
  have "ready sample_config"
    by (simp add: sample_config_defs ready_def mem_ok_def heap_inv_def del: readyD)
  then show "config_loaded sample_config"
    using sample_store_ok(1) by (simp add: config_loaded_def) (simp add: sample_config_defs)
  show "buf_ok sample_config" by (simp add: buf_ok_def sample_config_defs)
qed

lemma sample_config_lookup:
  "config_lookup sample_config ''sec'' ''module.name'' = Some (Some (quote_basic ''test''))"
  "config_lookup sample_config ''sec'' ''hamlib.rigid'' = Some (Some ''-1'')"
  "config_lookup sample_config ''sec'' ''hamlib.serial.port'' = Some None"
  by (simp_all add: config_lookup_def section_table_def first_ptr_def sample_config_defs sample_store_def)

theorem gets_section_key_cases_witness:
  "\<exists>p t. configfile_gets_section_key ''sec'' ''module.name'' sample_config = (Inr p, t) \<and> strs t p = ''test''"
proof -
  have "cstr ''test'' = ''test''" by (simp add: cstr_def)
  with gets_section_key_cases [OF sample_config_loaded , of "''sec''" "''module.name''"] show ?thesis
    by (auto simp: sample_config_lookup toml_rtos_basic)
qed

text \<open>C21. The static pointer outlives its block: after a lookup of a missing key that follows a
  successful one, the next lookup, of whatever key, frees the same block a second time.\<close>

theorem gets_section_key_double_free:
  assumes "config_loaded s" "buf_ok s" "config_buf s \<noteq> 0" "config_lookup s sec key = Some None"
  shows "\<exists>t. configfile_gets_section_key sec key s = (Inr 0, t) \<and>
    configfile_gets_section_key sec' key' t = (Inl (Undefined DoubleFree), t)"
proof -
  obtain t where t: "configfile_gets_section_key sec key s = (Inr 0, t)" "frame_log (drop_buf s) t"
    using gets_missing [OF assms(1,2,4)] by blast
  then have "config_buf t = config_buf s" "config_buf s \<notin> live t" "config_loaded t"
    using frame_log_loaded [OF t(2) drop_buf_loaded [OF assms(1)]] by (auto simp: frame_logD [OF t(2)])
  then have "configfile_gets_section_key sec' key' t = (Inl (Undefined DoubleFree), t)"
    using assms(3) by (simp add: configfile_gets_section_key_def c_free_def)
  with t(1) show ?thesis by blast
qed

theorem gets_section_key_double_free_witness:
  "\<exists>s t. configfile_gets_section_key ''sec'' ''hamlib.serial.port'' s = (Inr 0, t) \<and>
    configfile_gets_section_key ''sec'' ''module.name'' t = (Inl (Undefined DoubleFree), (t :: (unit, unit) config_state))"
proof -
  let ?s = "sample_config \<lparr>config_buf := 1\<rparr>"
  have "config_loaded ?s" using sample_config_loaded(1) 
    unfolding config_loaded_def by (auto simp: ready_def heap_inv_def mem_ok_def simp del: readyD)
  moreover have "buf_ok ?s" by (simp add: buf_ok_def sample_config_defs)
  moreover have "config_lookup ?s ''sec'' ''hamlib.serial.port'' = Some None"
    by (simp add: config_lookup_def section_table_def first_ptr_def sample_config_defs sample_store_def)
  ultimately show ?thesis
    using gets_section_key_double_free [of ?s "''sec''" "''hamlib.serial.port''" "''sec''" "''module.name''"] by auto
qed

text \<open>C29. Looking up an integer: a missing section and a raw value that is not an integer end the
  program with the fatal status, a missing key is reported as such (and is fatal for the
  variant that requires the key), and otherwise the value is the integer read; nothing in the
  state changes in the cases that return.\<close>

theorem geti_section_key_cases:
  assumes "config_loaded s"
  shows "case config_lookup s sec key of
      None \<Rightarrow> fst (configfile_geti_section_key sec key s) = Inl (Exited exit_fatal)
    | Some None \<Rightarrow> configfile_geti_section_key sec key s = (Inr None, s) \<and>
        fst (configfile_rgeti_section_key sec key s) = Inl (Exited exit_fatal)
    | Some (Some raw) \<Rightarrow> (case toml_rtoi (Some raw) of
          None \<Rightarrow> fst (configfile_geti_section_key sec key s) = Inl (Exited exit_fatal)
        | Some i \<Rightarrow> configfile_geti_section_key sec key s = (Inr (Some i), s) \<and>
            configfile_rgeti_section_key sec key s = (Inr i, s))"
  using assms geti_no_section [OF assms] geti_eq [OF assms] config_loadedD(4) [OF assms]
  by (auto simp: configfile_rgeti_section_key_def ret_def split: option.splits)

theorem geti_section_key_cases_witness:
  "configfile_rgeti_section_key ''sec'' ''hamlib.rigid'' sample_config = (Inr (-1), sample_config)"
proof -
  have "toml_rtoi (Some (''-'' @ ''1'')) = Some (-1)"
    by (subst toml_rtoi_decimal) (simp_all add: is_digit_def decimal_def signed_def LLONG_MIN_def LLONG_MAX_def)
  with geti_section_key_cases [OF sample_config_loaded(1) , of "''sec''" "''hamlib.rigid''"] show ?thesis
    by (simp add: sample_config_lookup)
qed

text \<open>C30. The number of sections is the number of all entries of the root table, values and
  arrays included, and the names are the keys of those entries in order: the program starts a
  module for each of them, section or not.\<close>

theorem section_count_counts_entries:
  assumes "config_loaded s" "length (table_keys (toml_store s) (toml_root s)) < fuel"
  shows "configfile_get_section_count fuel s = (Inr (int (length (table_keys (toml_store s) (toml_root s)))), s) \<and>
    (\<forall>i < length (table_keys (toml_store s) (toml_root s)).
      configfile_get_section_name (int i) s = (Inr (Some (table_keys (toml_store s) (toml_root s) ! i)), s))"
  using count_sections_eq [OF assms(1), of 0 fuel] assms section_name_eq [OF assms(1)]
  by (simp add: configfile_get_section_count_def)

theorem section_count_counts_entries_witness:
  "configfile_get_section_count 10 sample_config = (Inr 3, sample_config) \<and>
   configfile_get_section_name 0 sample_config = (Inr (Some ''v''), sample_config)"
proof -
  have k: "table_keys (toml_store sample_config) (toml_root sample_config) = [''v'', ''a'', ''sec'']"
    by (simp add: table_keys_def sample_config_defs sample_store_def)
  from section_count_counts_entries [OF sample_config_loaded(1) , of 10] show ?thesis
    unfolding k by (force dest: spec [of _ 0])
qed

end
