(* ===== verification/Registry.thy ===== *)
theory Registry
  imports Main
begin

text \<open>
  The two registries of the program (\<^verbatim>\<open>src/driver.c\<close> and \<^verbatim>\<open>src/module.c\<close>) are linked lists that
  are searched by loops which test the node at \<open>p\<close> and never move \<open>p\<close>. The locale states what
  such a search satisfies, over the search function, the name of a node and the two results;
  its lemma says which searches end. Both registries are instances.
\<close>

locale stuck_search =
  fixes scan :: "(nat \<Rightarrow> 'n) \<Rightarrow> string \<Rightarrow> nat \<Rightarrow> 'r option"
    and node_name :: "'n \<Rightarrow> string"
    and missing :: 'r
    and found :: "(nat \<Rightarrow> 'n) \<Rightarrow> nat \<Rightarrow> 'r"
  assumes at_end: "scan h name 0 = Some missing"
    and at_match: "p \<noteq> 0 \<Longrightarrow> node_name (h p) = name \<Longrightarrow> scan h name p = Some (found h p)"
    and ends_only_at_match: "scan h name p = Some r \<Longrightarrow> p \<noteq> 0 \<Longrightarrow> node_name (h p) = name"
begin

lemma scan_eq:
  "scan h name p =
     (if p = 0 then Some missing else if node_name (h p) = name then Some (found h p) else None)"
proof (cases "p = 0")
  case True
  then show ?thesis by (simp add: at_end)
next
  case False
  then show ?thesis using at_match [of p h name] ends_only_at_match [of h name p]
    by (cases "scan h name p") auto
qed

text \<open>Nothing behind the first node is ever looked at.\<close>

lemma scan_first_only: "h p = h' p \<Longrightarrow> found h p = found h' p \<Longrightarrow> scan h name p = scan h' name p"
  by (simp add: scan_eq)

lemma scan_ends_iff: "scan h name p \<noteq> None \<longleftrightarrow> p = 0 \<or> node_name (h p) = name"
  by (simp add: scan_eq)

end

end
