(* ===== verification/Driver.thy ===== *)
theory Driver
  imports Configfile Registry
begin

text \<open>
  Model of \<^verbatim>\<open>src/driver.c\<close> and \<^verbatim>\<open>src/driver.h\<close>: the registry of drivers, the life cycle of a
  driver instance and its status. The function pointers of a driver description and of the
  callback table are names; the code behind a name is an argument of the operation that calls
  it (\<open>call_init\<close>, \<open>call_cleanup\<close>).

  \<open>driver_get_info\<close> loops over the registry without advancing, so its model is a partial
  function whose undefined value is the endless loop.
\<close>

datatype driver_fn =
  Vserial_lifecycle_bootstrap | Vserial_lifecycle_init | Vserial_lifecycle_cleanup

datatype fc_fn = Update_flow_control

record driver_rs232_fc =
  fc_rts :: bool
  fc_cts :: bool
  fc_dtr :: bool
  fc_dsr :: bool

record driver_lifecycle_op =
  dl_bootstrap :: driver_fn
  dl_init :: driver_fn
  dl_cleanup :: driver_fn

record driver_info =
  di_name :: string
  di_lifecycle :: driver_lifecycle_op

record driver_interface_cb =
  cb_opened :: "driver_fn option"
  cb_closed :: "driver_fn option"
  cb_faulted :: "driver_fn option"
  cb_received :: "driver_fn option"
  cb_drained :: "driver_fn option"
  cb_fc_changed :: "fc_fn option"

record driver =
  dr_user :: nat
  dr_private :: nat
  dr_info :: driver_info
  dr_cb :: nat
  dr_status :: int

record driver_list =
  dn_driver :: driver_info
  dn_next :: nat

record ('w, 'cb) driver_state = "('w, 'cb) config_state" +
  loaded_drivers :: nat
  driver_nodes :: "nat \<Rightarrow> driver_list"
  drivers :: "nat \<Rightarrow> driver"
  driver_cbs :: "nat \<Rightarrow> driver_interface_cb"

type_synonym ('w, 'cb, 'z, 'a) driver_prog = "(('w, 'cb, 'z) driver_state_scheme, 'a) prog"

section \<open>Status\<close>

definition driver_status_unstarted :: int where "driver_status_unstarted = 0"
definition driver_status_starting :: int where "driver_status_starting = 1"
definition driver_status_started :: int where "driver_status_started = 2"
definition driver_status_stopping :: int where "driver_status_stopping = 3"
definition driver_status_stopped :: int where "driver_status_stopped = 4"

lemmas driver_status_defs = driver_status_unstarted_def driver_status_starting_def
  driver_status_started_def driver_status_stopping_def driver_status_stopped_def

definition driver_get_status_string :: "int \<Rightarrow> ('w, 'cb, 'z, string) driver_prog" where
  "driver_get_status_string status =
     (if status = driver_status_unstarted then ret ''unstarted''
      else if status = driver_status_starting then ret ''starting''
      else if status = driver_status_started then ret ''started''
      else if status = driver_status_stopping then ret ''stopping''
      else if status = driver_status_stopped then ret ''stopped''
      else util_fatal ''should never get here'')"

definition driver_get_status :: "nat \<Rightarrow> ('w, 'cb, 'z, int) driver_prog" where
  "driver_get_status driver = seqE (deref driver) (gets (\<lambda>s. dr_status (drivers s driver)))"

definition driver_set_status :: "nat \<Rightarrow> int \<Rightarrow> ('w, 'cb, 'z, int) driver_prog" where
  "driver_set_status driver status =
     seqE (deref driver)
     (bindE (gets (\<lambda>s. dr_status (drivers s driver))) (\<lambda>old.
     seqE (modify (\<lambda>s. s\<lparr>drivers := (drivers s)(driver := (drivers s driver)\<lparr>dr_status := status\<rparr>)\<rparr>))
     (ret old)))"

section \<open>The registry\<close>

text \<open>The loop with the loop variable \<open>p\<close>: no value means that it never ends.\<close>

partial_function (option) driver_scan ::
  "(nat \<Rightarrow> driver_list) \<Rightarrow> string \<Rightarrow> nat \<Rightarrow> driver_info option option" where
  "driver_scan h name p =
     (if p = 0 then Some None
      else if di_name (dn_driver (h p)) = name then Some (Some (dn_driver (h p)))
      else driver_scan h name p)"

definition driver_get_info :: "string \<Rightarrow> ('w, 'cb, 'z, driver_info option) driver_prog" where
  "driver_get_info name =
     bindE (gets loaded_drivers) (\<lambda>p.
     seqE (whenE (p \<noteq> 0) (deref p))
     (bindE (gets driver_nodes) (\<lambda>h.
     case driver_scan h name p of None \<Rightarrow> stop Diverges | Some r \<Rightarrow> ret r)))"

definition driver_register :: "driver_info \<Rightarrow> ('w, 'cb, 'z, unit) driver_prog" where
  "driver_register info =
     bindE (zalloc sizeof) (\<lambda>new_member.
     bindE (driver_get_info (di_name info)) (\<lambda>found.
     seqE (whenE (found \<noteq> None)
             (util_fatal (msg [''attempt to double register driver with name '', quo (di_name info)])))
     (seqE (log_debug (msg [''loading driver '', quo (di_name info)]))
     (bindE (gets loaded_drivers) (\<lambda>head.
     seqE (modify (\<lambda>s. s\<lparr>driver_nodes := (driver_nodes s)(new_member :=
              \<lparr>dn_driver = info, dn_next = head\<rparr>)\<rparr>))
     (modify (\<lambda>s. s\<lparr>loaded_drivers := new_member\<rparr>)))))))"

definition driver_bootstrap :: "('w, 'cb, 'z, unit) driver_prog" where
  "driver_bootstrap = log_debug ''bootstrapping the driver system''"

text \<open>\<open>vserial_driver_info()\<close> of \<^verbatim>\<open>src/drivers/vserial.c\<close>; the operation table has only null
  entries and is left out.\<close>

definition vserial_driver_info :: driver_info where
  "vserial_driver_info = \<lparr>di_name = ''vserial'',
     di_lifecycle = \<lparr>dl_bootstrap = Vserial_lifecycle_bootstrap, dl_init = Vserial_lifecycle_init,
       dl_cleanup = Vserial_lifecycle_cleanup\<rparr>\<rparr>"

definition driver_load_plugins :: "('w, 'cb, 'z, unit) driver_prog" where
  "driver_load_plugins = driver_register vserial_driver_info"

section \<open>Instances\<close>

definition no_callbacks :: driver_interface_cb where
  "no_callbacks = \<lparr>cb_opened = None, cb_closed = None, cb_faulted = None, cb_received = None,
     cb_drained = None, cb_fc_changed = None\<rparr>"

text \<open>\<open>util_zalloc\<close> clears the structure, so the status starts as \<open>unstarted\<close>.\<close>

definition driver_create ::
  "(driver_fn \<Rightarrow> nat \<Rightarrow> string \<Rightarrow> ('w, 'cb, 'z, unit) driver_prog) \<Rightarrow> string \<Rightarrow> string
   \<Rightarrow> ('w, 'cb, 'z, nat) driver_prog" where
  "driver_create call_init name config_section =
     bindE (driver_get_info name) (\<lambda>found.
     case found of None \<Rightarrow> ret 0
     | Some info \<Rightarrow>
         bindE (zalloc sizeof) (\<lambda>new_driver.
         seqE (modify (\<lambda>s. s\<lparr>drivers := (drivers s)(new_driver :=
                 \<lparr>dr_user = 0, dr_private = 0, dr_info = info, dr_cb = 0, dr_status = 0\<rparr>)\<rparr>))
         (bindE (zalloc sizeof) (\<lambda>cb.
         seqE (modify (\<lambda>s. s\<lparr>driver_cbs := (driver_cbs s)(cb := no_callbacks)\<rparr>))
         (seqE (modify (\<lambda>s. s\<lparr>drivers := (drivers s)(new_driver := (drivers s new_driver)\<lparr>dr_cb := cb\<rparr>)\<rparr>))
         (seqE (log_debug ''vserial driver was created'')
         (seqE (call_init (dl_init (di_lifecycle info)) new_driver config_section)
         (ret new_driver))))))))"

definition driver_destroy ::
  "(driver_fn \<Rightarrow> nat \<Rightarrow> ('w, 'cb, 'z, unit) driver_prog) \<Rightarrow> nat \<Rightarrow> bool \<Rightarrow> ('w, 'cb, 'z, unit) driver_prog" where
  "driver_destroy call_cleanup driver notify_cb =
     seqE (deref driver)
     (bindE (gets (\<lambda>s. dr_status (drivers s driver))) (\<lambda>status.
     seqE (whenE notify_cb (util_fatal ''cleanup notification does not work yet''))
     (seqE (whenE (status \<noteq> driver_status_unstarted \<and> status \<noteq> driver_status_stopped)
             (bindE (driver_get_status_string status) (\<lambda>str.
              util_fatal (msg [''attempt to destroy a driver in status '', str]))))
     (bindE (gets (\<lambda>s. dr_info (drivers s driver))) (\<lambda>info.
     seqE (call_cleanup (dl_cleanup (di_lifecycle info)) driver)
     (seqE (deref driver)
     (bindE (gets (\<lambda>s. dr_cb (drivers s driver))) (\<lambda>cb.
     seqE (c_free cb)
     (bindE (gets (\<lambda>s. dr_user (drivers s driver))) (\<lambda>user.
     seqE (whenE (user \<noteq> 0)
             (util_fatal (msg [''driver '', quo (di_name info), '' did not set the user data to NULL during cleanup''])))
     (c_free driver)))))))))))"

section \<open>The search\<close>

lemma driver_scan_ends:
  "driver_scan h name p = Some r \<Longrightarrow> p \<noteq> 0 \<longrightarrow> di_name (dn_driver (h p)) = name"
  by (erule driver_scan.raw_induct [rotated, of _ _ _ _ "\<lambda>h name p r. p \<noteq> 0 \<longrightarrow> di_name (dn_driver (h p)) = name"])
    (auto split: if_splits)

interpretation driver_search: stuck_search driver_scan "\<lambda>n. di_name (dn_driver n)" None
  "\<lambda>h p. Some (dn_driver (h p))"
proof
  show "driver_scan h name 0 = Some None" for h name
    by (subst driver_scan.simps) simp
  show "driver_scan h name p = Some (Some (dn_driver (h p)))"
    if "p \<noteq> 0" "di_name (dn_driver (h p)) = name" for h name p
    using that by (subst driver_scan.simps) simp
  show "di_name (dn_driver (h p)) = name" if "driver_scan h name p = Some r" "p \<noteq> 0" for h name p r
    using driver_scan_ends that by blast
qed

lemma log_upd_driver [simp]:
  "toml_store (log_upd src l f p n m s) = toml_store s"
  "toml_root (log_upd src l f p n m s) = toml_root s"
  "config_buf (log_upd src l f p n m s) = config_buf s"
  "loaded_drivers (log_upd src l f p n m (s' :: ('w, 'cb, 'z) driver_state_scheme)) = loaded_drivers s'"
  "driver_nodes (log_upd src l f p n m s') = driver_nodes s'"
  "drivers (log_upd src l f p n m s') = drivers s'"
  "driver_cbs (log_upd src l f p n m s') = driver_cbs s'"
  by (simp_all add: log_upd_def)

lemma driver_get_info_eq:
  assumes "ready s" "loaded_drivers s \<noteq> 0 \<Longrightarrow> loaded_drivers s \<in> live s"
  shows "driver_get_info name s =
    ((if loaded_drivers s = 0 then Inr None
      else if di_name (dn_driver (driver_nodes s (loaded_drivers s))) = name
      then Inr (Some (dn_driver (driver_nodes s (loaded_drivers s))))
      else Inl Diverges), s)"
  using assms
  by (auto simp: driver_get_info_def whenE_def deref_def driver_search.scan_eq stop_def ret_def)

lemma driver_register_first:
  assumes "ready s" "loaded_drivers s = 0"
  shows "\<exists>t. driver_register info s = (Inr (), t) \<and> ready t \<and> loaded_drivers t \<noteq> 0 \<and>
    loaded_drivers t \<in> live t \<and> dn_driver (driver_nodes t (loaded_drivers t)) = info"
proof -
  let ?a = "s\<lparr>brk := Suc (brk s), live := insert (brk s) (live s)\<rparr>"
  have ra: "ready ?a" using assms(1) by (auto simp: ready_def heap_inv_def mem_ok_def simp del: readyD)
  let ?b = "log_msg log_level_debug (msg [''loading driver '', quo (di_name info)]) ?a"
  let ?t = "?b\<lparr>driver_nodes := (driver_nodes s)(brk s := \<lparr>dn_driver = info, dn_next = 0\<rparr>), loaded_drivers := brk s\<rparr>"
  have "driver_get_info (di_name info) ?a = (Inr None, ?a)"
    using driver_get_info_eq [OF ra] assms by simp
  then have "driver_register info s = (Inr (), ?t)"
    using assms by (simp add: driver_register_def whenE_def modify_def)
  moreover have "ready ?t" using ra by (auto simp: ready_def heap_inv_def mem_ok_def simp del: readyD)
  ultimately show ?thesis using assms(1) by (intro exI [of _ ?t]) simp
qed

lemma driver_register_second:
  assumes "ready s" "loaded_drivers s \<noteq> 0" "loaded_drivers s \<in> live s"
  shows "fst (driver_register info s) = Inl
    (if di_name (dn_driver (driver_nodes s (loaded_drivers s))) = di_name info then Exited exit_fatal else Diverges)"
proof -
  let ?a = "s\<lparr>brk := Suc (brk s), live := insert (brk s) (live s)\<rparr>"
  have ra: "ready ?a" using assms(1) by (auto simp: ready_def heap_inv_def mem_ok_def simp del: readyD)
  have "driver_get_info (di_name info) ?a =
    ((if di_name (dn_driver (driver_nodes s (loaded_drivers s))) = di_name info
      then Inr (Some (dn_driver (driver_nodes s (loaded_drivers s)))) else Inl Diverges), ?a)"
    using driver_get_info_eq [OF ra, of "di_name info"] assms by simp
  then show ?thesis using assms(1) by (simp add: driver_register_def whenE_def)
qed

section \<open>Properties\<close>

text \<open>C39. The driver registry holds one driver and no more: registering the first succeeds,
  registering a second one with the same name ends the program with the fatal status, and with
  any other name the program hangs in the search.\<close>

theorem driver_registry_holds_one:
  assumes "ready s" "loaded_drivers s = 0"
  shows "\<exists>t. driver_register a s = (Inr (), t) \<and>
    driver_get_info (di_name a) t = (Inr (Some a), t) \<and>
    fst (driver_register b t) = Inl (if di_name a = di_name b then Exited exit_fatal else Diverges)"
proof -
  obtain t where t: "driver_register a s = (Inr (), t)" "ready t" "loaded_drivers t \<noteq> 0"
    "loaded_drivers t \<in> live t" "dn_driver (driver_nodes t (loaded_drivers t)) = a"
    using driver_register_first [OF assms, of a] by blast
  then show ?thesis
    using driver_get_info_eq [OF t(2), of "di_name a"] driver_register_second [OF t(2,3,4), of b] by auto
qed

text \<open>A program without drivers.\<close>

definition sample_toml :: toml_mem where
  "sample_toml = \<lparr>t_alloc_ok = (\<lambda>_. True), t_brk = 1, t_live = {}, t_tables = (\<lambda>_. fresh_table),
     t_arrays = (\<lambda>_. fresh_array)\<rparr>"

definition sample_driver :: "'w \<Rightarrow> ('w, 'cb) driver_state" where
  "sample_driver w = runloop_state.extend (sample_loop w)
     \<lparr>toml_store = sample_toml, toml_root = 0, config_buf = 0,
      loaded_drivers = 0, driver_nodes = (\<lambda>_. \<lparr>dn_driver = vserial_driver_info, dn_next = 0\<rparr>),
      drivers = (\<lambda>_. \<lparr>dr_user = 0, dr_private = 0, dr_info = vserial_driver_info, dr_cb = 0, dr_status = 0\<rparr>),
      driver_cbs = (\<lambda>_. no_callbacks)\<rparr>"

lemmas sample_driver_defs = sample_driver_def sample_loop_defs runloop_state.defs

lemma sample_driver_ready: "ready (sample_driver w)"
  by (simp add: sample_driver_defs ready_def mem_ok_def heap_inv_def del: readyD)

theorem driver_registry_holds_one_witness:
  "\<exists>t. driver_register vserial_driver_info (sample_driver ()) = (Inr (), t) \<and>
    fst (driver_register (vserial_driver_info\<lparr>di_name := ''rs232''\<rparr>) t) = Inl Diverges"
  using driver_registry_holds_one [OF sample_driver_ready [of "()"],
      of vserial_driver_info "vserial_driver_info\<lparr>di_name := ''rs232''\<rparr>"]
  by (auto simp: sample_driver_defs vserial_driver_info_def)

end
