(* ===== verification/Module.thy ===== *)
theory Module
  imports Driver
begin

text \<open>
  Model of \<^verbatim>\<open>src/module.c\<close> and \<^verbatim>\<open>src/module.h\<close>: the registry of module implementations and
  the list of running modules. As in the driver registry, \<open>module_get_info\<close> loops without
  advancing. The code behind the life cycle functions is an argument (\<open>call_start\<close>,
  \<open>call_stop\<close>).
\<close>

datatype module_fn = Test_lifecycle_bootstrap | Test_lifecycle_start | Test_lifecycle_stop

record module_lifecycle_op =
  ml_bootstrap :: module_fn
  ml_start :: module_fn
  ml_stop :: module_fn

record module_info =
  mi_name :: string
  mi_lifecycle :: module_lifecycle_op

record module =
  mo_label :: nat
  mo_private :: nat
  mo_info :: module_info

record loaded_module_list =
  lm_info :: module_info
  lm_next :: nat

record running_module_list =
  rm_module :: nat
  rm_next :: nat

record ('w, 'cb) module_state = "('w, 'cb) driver_state" +
  loaded_modules :: nat
  running_modules :: nat
  loaded_nodes :: "nat \<Rightarrow> loaded_module_list"
  running_nodes :: "nat \<Rightarrow> running_module_list"
  modules :: "nat \<Rightarrow> module"

type_synonym ('w, 'cb, 'z, 'a) module_prog = "(('w, 'cb, 'z) module_state_scheme, 'a) prog"

section \<open>The registry\<close>

text \<open>The loop of \<open>module_get_info\<close>: it leaves \<open>p\<close> where it is, and no value means that it
  never ends.\<close>

partial_function (option) module_scan ::
  "(nat \<Rightarrow> loaded_module_list) \<Rightarrow> string \<Rightarrow> nat \<Rightarrow> nat option" where
  "module_scan h name p =
     (if p = 0 then Some p
      else if name = mi_name (lm_info (h p)) then Some p
      else module_scan h name p)"

definition module_get_info :: "string \<Rightarrow> ('w, 'cb, 'z, module_info option) module_prog" where
  "module_get_info name =
     bindE (gets loaded_modules) (\<lambda>p.
     seqE (whenE (p \<noteq> 0) (deref p))
     (bindE (gets loaded_nodes) (\<lambda>h.
     case module_scan h name p of None \<Rightarrow> stop Diverges
     | Some p \<Rightarrow> if p = 0 then ret None else ret (Some (lm_info (h p))))))"

definition module_register :: "module_info \<Rightarrow> ('w, 'cb, 'z, unit) module_prog" where
  "module_register info =
     bindE (gets loaded_modules) (\<lambda>orig.
     bindE (zalloc sizeof) (\<lambda>will_add.
     bindE (module_get_info (mi_name info)) (\<lambda>found.
     seqE (whenE (found \<noteq> None)
             (util_fatal (msg [''attempt to add a module with a name that is a duplicate: '', mi_name info])))
     (seqE (modify (\<lambda>s. s\<lparr>loaded_nodes := (loaded_nodes s)(will_add :=
              \<lparr>lm_info = info, lm_next = orig\<rparr>)\<rparr>))
     (modify (\<lambda>s. s\<lparr>loaded_modules := will_add\<rparr>))))))"

text \<open>\<open>test_module_info()\<close> of \<^verbatim>\<open>src/modules/test.c\<close>.\<close>

definition test_module_info :: module_info where
  "test_module_info = \<lparr>mi_name = ''test'',
     mi_lifecycle = \<lparr>ml_bootstrap = Test_lifecycle_bootstrap, ml_start = Test_lifecycle_start,
       ml_stop = Test_lifecycle_stop\<rparr>\<rparr>"

definition module_bootstrap :: "('w, 'cb, 'z, unit) module_prog" where
  "module_bootstrap = module_register test_module_info"

section \<open>Instances\<close>

definition module_create :: "module_info \<Rightarrow> string \<Rightarrow> ('w, 'cb, 'z, nat) module_prog" where
  "module_create info config_section =
     seqE (log_verbose (msg [''creating module '', quo (mi_name info), '' for configuration '', quo config_section]))
     (bindE (zalloc sizeof) (\<lambda>new_module.
     bindE (strdup_ad config_section) (\<lambda>label.
     seqE (modify (\<lambda>s. s\<lparr>modules := (modules s)(new_module :=
             \<lparr>mo_label = label, mo_private = 0, mo_info = info\<rparr>)\<rparr>))
     (bindE (zalloc sizeof) (\<lambda>new_member.
     seqE (modify (\<lambda>s. s\<lparr>running_nodes := (running_nodes s)(new_member :=
             \<lparr>rm_module = new_module, rm_next = 0\<rparr>)\<rparr>))
     (bindE (gets running_modules) (\<lambda>head.
     seqE (if head = 0 then modify (\<lambda>s. s\<lparr>running_modules := new_member\<rparr>)
           else
             seqE (modify (\<lambda>s. s\<lparr>running_nodes := (running_nodes s)(new_member :=
                     (running_nodes s new_member)\<lparr>rm_next := head\<rparr>)\<rparr>))
             (modify (\<lambda>s. s\<lparr>running_modules := new_member\<rparr>)))
     (seqE (log_debug (msg [''config section '', quo config_section, '' created'']))
     (ret new_module)))))))))"

definition module_destroy :: "nat \<Rightarrow> ('w, 'cb, 'z, unit) module_prog" where
  "module_destroy module =
     seqE (deref module)
     (bindE (gets (\<lambda>s. mo_label (modules s module))) (\<lambda>label.
     seqE (c_free label)
     (c_free module)))"

definition module_start ::
  "(module_fn \<Rightarrow> nat \<Rightarrow> ('w, 'cb, 'z, unit) module_prog) \<Rightarrow> string \<Rightarrow> string
   \<Rightarrow> ('w, 'cb, 'z, nat) module_prog" where
  "module_start call_start name config_section =
     bindE (module_get_info name) (\<lambda>found.
     case found of
       None \<Rightarrow> util_fatal (msg [''could not find module implementation for '', quo name])
     | Some info \<Rightarrow>
         seqE (log_debug (msg [''Starting module instance '', quo config_section, '' in runloop'']))
         (bindE (module_create info config_section) (\<lambda>module.
         seqE (whenE (module = 0) (util_fatal (msg [''Could not create module '', quo config_section])))
         (seqE (deref module)
         (bindE (gets (\<lambda>s. mo_info (modules s module))) (\<lambda>info'.
         seqE (call_start (ml_start (mi_lifecycle info')) module)
         (ret module)))))))"

definition module_stop ::
  "(module_fn \<Rightarrow> nat \<Rightarrow> ('w, 'cb, 'z, unit) module_prog) \<Rightarrow> nat \<Rightarrow> ('w, 'cb, 'z, unit) module_prog" where
  "module_stop call_stop module =
     seqE (deref module)
     (bindE (gets (\<lambda>s. mo_label (modules s module))) (\<lambda>label.
     seqE (deref label)
     (bindE (gets (\<lambda>s. strs s label)) (\<lambda>text.
     seqE (log_trace (msg [''stopping module: '', text]))
     (bindE (gets (\<lambda>s. mo_info (modules s module))) (\<lambda>info.
     call_stop (ml_stop (mi_lifecycle info)) module))))))"

text \<open>The walk over the running modules; the list grows at its head only, so it ends, and the
  first argument bounds its length.\<close>

fun stop_modules ::
  "(module_fn \<Rightarrow> nat \<Rightarrow> ('w, 'cb, 'z, unit) module_prog) \<Rightarrow> nat \<Rightarrow> nat
   \<Rightarrow> ('w, 'cb, 'z, unit) module_prog" where
  "stop_modules call_stop fuel p =
     (if p = 0 then ret ()
      else case fuel of 0 \<Rightarrow> stop OutOfFuel
      | Suc fuel' \<Rightarrow>
          seqE (deref p)
          (bindE (gets (\<lambda>s. rm_module (running_nodes s p))) (\<lambda>module.
          seqE (module_stop call_stop module)
          (seqE (deref p)
          (bindE (gets (\<lambda>s. rm_next (running_nodes s p))) (\<lambda>next.
          stop_modules call_stop fuel' next))))))"

declare stop_modules.simps [simp del]

definition module_stop_all ::
  "(module_fn \<Rightarrow> nat \<Rightarrow> ('w, 'cb, 'z, unit) module_prog) \<Rightarrow> nat \<Rightarrow> ('w, 'cb, 'z, unit) module_prog" where
  "module_stop_all call_stop fuel =
     seqE (log_debug ''stopping all modules'')
     (bindE (gets running_modules) (\<lambda>p. stop_modules call_stop fuel p))"

section \<open>The search\<close>

lemma module_scan_ends:
  "module_scan h name p = Some r \<Longrightarrow> p \<noteq> 0 \<longrightarrow> mi_name (lm_info (h p)) = name"
  by (erule module_scan.raw_induct [rotated, of _ _ _ _ "\<lambda>h name p r. p \<noteq> 0 \<longrightarrow> mi_name (lm_info (h p)) = name"])
    (auto split: if_splits)

interpretation module_search: stuck_search module_scan "\<lambda>n. mi_name (lm_info n)" 0 "\<lambda>h p. p"
proof
  show "module_scan h name 0 = Some 0" for h name
    by (subst module_scan.simps) simp
  show "module_scan h name p = Some p" if "p \<noteq> 0" "mi_name (lm_info (h p)) = name" for h name p
    using that by (subst module_scan.simps) simp
  show "mi_name (lm_info (h p)) = name" if "module_scan h name p = Some r" "p \<noteq> 0" for h name p r
    using module_scan_ends that by blast
qed

lemma log_upd_module [simp]:
  "loaded_modules (log_upd src l f p n m (s :: ('w, 'cb, 'z) module_state_scheme)) = loaded_modules s"
  "running_modules (log_upd src l f p n m s) = running_modules s"
  "loaded_nodes (log_upd src l f p n m s) = loaded_nodes s"
  "running_nodes (log_upd src l f p n m s) = running_nodes s"
  "modules (log_upd src l f p n m s) = modules s"
  by (simp_all add: log_upd_def)

lemma module_get_info_eq:
  assumes "ready s" "loaded_modules s \<noteq> 0 \<Longrightarrow> loaded_modules s \<in> live s"
  shows "module_get_info name s =
    ((if loaded_modules s = 0 then Inr None
      else if mi_name (lm_info (loaded_nodes s (loaded_modules s))) = name
      then Inr (Some (lm_info (loaded_nodes s (loaded_modules s))))
      else Inl Diverges), s)"
  using assms
  by (auto simp: module_get_info_def whenE_def deref_def module_search.scan_eq stop_def ret_def)

lemma module_register_first:
  assumes "ready s" "loaded_modules s = 0"
  shows "\<exists>t. module_register info s = (Inr (), t) \<and> ready t \<and> loaded_modules t \<noteq> 0 \<and>
    loaded_modules t \<in> live t \<and> lm_info (loaded_nodes t (loaded_modules t)) = info"
proof -
  let ?a = "s\<lparr>brk := Suc (brk s), live := insert (brk s) (live s)\<rparr>"
  have ra: "ready ?a" using assms(1) by (auto simp: ready_def heap_inv_def mem_ok_def simp del: readyD)
  let ?t = "?a\<lparr>loaded_nodes := (loaded_nodes s)(brk s := \<lparr>lm_info = info, lm_next = 0\<rparr>), loaded_modules := brk s\<rparr>"
  have "module_get_info (mi_name info) ?a = (Inr None, ?a)"
    using module_get_info_eq [OF ra] assms by simp
  then have "module_register info s = (Inr (), ?t)"
    using assms by (simp add: module_register_def whenE_def modify_def)
  moreover have "ready ?t" using ra by (auto simp: ready_def heap_inv_def mem_ok_def simp del: readyD)
  ultimately show ?thesis using assms(1) by (intro exI [of _ ?t]) simp
qed

lemma module_start_head:
  assumes "ready s" "loaded_modules s \<noteq> 0" "loaded_modules s \<in> live s"
    and "mi_name (lm_info (loaded_nodes s (loaded_modules s))) \<noteq> name"
  shows "module_start call_start name sec s = (Inl Diverges, s)"
  using assms module_get_info_eq [of s name] by (simp add: module_start_def)

section \<open>Stopping the modules\<close>

text \<open>The list of running modules from a node on, with the modules of its nodes.\<close>

fun running :: "('w, 'cb, 'z) module_state_scheme \<Rightarrow> nat \<Rightarrow> nat list \<Rightarrow> bool" where
  "running s p [] \<longleftrightarrow> p = 0"
| "running s p (m # ms) \<longleftrightarrow>
     p \<noteq> 0 \<and> p \<in> live s \<and> rm_module (running_nodes s p) = m \<and> running s (rm_next (running_nodes s p)) ms"

lemma running_cong:
  "live t = live s \<Longrightarrow> running_nodes t = running_nodes s \<Longrightarrow> running t p ms = running s p ms"
  by (induction ms arbitrary: p) auto

text \<open>A module that can be stopped: its structure and its label are allocated.\<close>

definition stoppable :: "('w, 'cb, 'z) module_state_scheme \<Rightarrow> nat \<Rightarrow> bool" where
  "stoppable s m \<longleftrightarrow> m \<in> live s \<and> mo_label (modules s m) \<in> live s"

text \<open>Creating a module puts it in front of the running modules, so the list holds the modules in
  the reverse order of their creation.\<close>

lemma module_create_front:
  assumes "ready s" "running s (running_modules s) ms" "\<forall>m \<in> set ms. stoppable s m"
  shows "\<exists>m t. module_create info sec s = (Inr m, t) \<and> ready t \<and>
    running t (running_modules t) (m # ms) \<and> (\<forall>m' \<in> set (m # ms). stoppable t m') \<and>
    mo_info (modules t m) = info \<and> strs t (mo_label (modules t m)) = sec \<and> m \<notin> live s"
proof -
  define msg1 where "msg1 = msg [''creating module '', quo (mi_name info), '' for configuration '', quo sec]"
  define msg2 where "msg2 = msg [''config section '', quo sec, '' created'']"
  let ?b = "brk s" and ?h = "running_modules s"
  let ?s = "log_msg log_level_verbose msg1 s"
  let ?u = "?s\<lparr>strs := (strs s)(Suc ?b := sec),
     modules := (modules s)(?b := \<lparr>mo_label = Suc ?b, mo_private = 0, mo_info = info\<rparr>),
     brk := Suc (Suc (Suc ?b)),
     live := insert (Suc (Suc ?b)) (insert (Suc ?b) (insert ?b (live s))),
     running_nodes := (running_nodes s)(Suc (Suc ?b) := \<lparr>rm_module = ?b, rm_next = ?h\<rparr>),
     running_modules := Suc (Suc ?b)\<rparr>"
  let ?t = "log_msg log_level_debug msg2 ?u"
  have eq: "module_create info sec s = (Inr ?b, ?t)"
    unfolding module_create_def msg1_def [symmetric] msg2_def [symmetric]
    using assms(1) by (cases "?h = 0") (simp_all add: modify_def ret_def)
  have lt: "x < ?b" if "x \<in> live s" for x
    using assms(1) that by (auto simp: ready_def heap_inv_def simp del: readyD)
  have "running ?t p ms" if "running s p ms" for p
    using that
  proof (induction ms arbitrary: p)
    case Nil
    then show ?case by simp
  next
    case (Cons m ms)
    then show ?case using lt [of p] by auto
  qed
  then have "running ?t (running_modules ?t) (?b # ms)" using assms(1,2) by simp
  moreover have "\<forall>m' \<in> set (?b # ms). stoppable ?t m'"
    using assms(3) lt by (fastforce simp: stoppable_def)
  moreover have "ready ?t"
    using assms(1) by (auto simp: ready_def heap_inv_def mem_ok_def simp del: readyD)
  moreover have "?b \<notin> live s" using lt [of ?b] by auto
  ultimately show ?thesis unfolding eq by (intro exI [of _ ?b] exI [of _ ?t]) simp
qed

text \<open>How stopping all modules begins: with the module created last.\<close>

definition newest :: "('w, 'cb, 'z) module_state_scheme \<Rightarrow> nat \<Rightarrow> bool" where
  "newest s m \<longleftrightarrow> running_modules s \<in> live s \<and> rm_module (running_nodes s (running_modules s)) = m"

lemma running_newest: "running s (running_modules s) (m # ms) \<Longrightarrow> newest s m"
  by (simp add: newest_def)

lemma stop_all_newest:
  assumes "ready s" "newest s m" "stoppable s m" "0 < fuel"
    and "fst (call_stop (ml_stop (mi_lifecycle (mo_info (modules s m)))) m
      (log_msg log_level_trace (msg [''stopping module: '', strs s (mo_label (modules s m))])
        (log_msg log_level_debug ''stopping all modules'' s))) = Inl h"
  shows "fst (module_stop_all call_stop fuel s) = Inl h"
proof -
  let ?text = "msg [''stopping module: '', strs s (mo_label (modules s m))]"
  obtain fuel' where f: "fuel = Suc fuel'" using assms(4) by (cases fuel) auto
  let ?p = "running_modules s" and ?l = "mo_label (modules s m)"
  let ?s = "log_msg log_level_debug ''stopping all modules'' s"
  have p: "?p \<noteq> 0" "?p \<in> live s" "rm_module (running_nodes s ?p) = m"
    using assms(2) live_nonzero [OF assms(1)] by (simp_all add: newest_def)
  have l: "m \<in> live s" "?l \<in> live s" using assms(3) by (simp_all add: stoppable_def)
  note nz = live_nonzero [OF assms(1) l(1)] live_nonzero [OF assms(1) l(2)]
  obtain t where "call_stop (ml_stop (mi_lifecycle (mo_info (modules s m)))) m
      (log_msg log_level_trace ?text ?s) = (Inl h, t)"
    using assms(5) by (metis prod.collapse)
  then have "module_stop call_stop m ?s = (Inl h, t)"
    using assms(1) l nz by (simp add: module_stop_def deref_def)
  then show ?thesis
    using assms(1) p f by (simp add: module_stop_all_def stop_modules.simps [of _ "Suc _"] deref_def)
qed

section \<open>Properties\<close>

text \<open>C20. Asking for a module that is not there hangs: after the start-up of the module system
  \<open>module_start\<close> finds the module \<open>test\<close>, and for any other name it neither starts anything nor
  reports the fatal error of its next line, but loops for ever in the search.\<close>

theorem unknown_module_hangs:
  assumes "ready s" "loaded_modules s = 0" "name \<noteq> ''test''"
  shows "\<exists>t. module_bootstrap s = (Inr (), t) \<and>
    module_get_info ''test'' t = (Inr (Some test_module_info), t) \<and>
    module_start call_start name sec t = (Inl Diverges, t)"
proof -
  obtain t where t: "module_register test_module_info s = (Inr (), t)" "ready t" "loaded_modules t \<noteq> 0"
    "loaded_modules t \<in> live t" "lm_info (loaded_nodes t (loaded_modules t)) = test_module_info"
    using module_register_first [OF assms(1,2), of test_module_info] by blast
  then show ?thesis
    using module_get_info_eq [OF t(2), of "''test''"] module_start_head [OF t(2,3,4), of name call_start sec] assms(3)
    by (auto simp: module_bootstrap_def test_module_info_def)
qed

definition sample_module :: "'w \<Rightarrow> ('w, 'cb) module_state" where
  "sample_module w = driver_state.extend (sample_driver w)
     \<lparr>loaded_modules = 0, running_modules = 0,
      loaded_nodes = (\<lambda>_. \<lparr>lm_info = test_module_info, lm_next = 0\<rparr>),
      running_nodes = (\<lambda>_. \<lparr>rm_module = 0, rm_next = 0\<rparr>),
      modules = (\<lambda>_. \<lparr>mo_label = 0, mo_private = 0, mo_info = test_module_info\<rparr>)\<rparr>"

lemmas sample_module_defs = sample_module_def sample_driver_defs driver_state.defs

lemma sample_module_ready: "ready (sample_module w)"
  by (simp add: sample_module_defs ready_def mem_ok_def heap_inv_def del: readyD)

theorem unknown_module_hangs_witness:
  "\<exists>t. module_bootstrap (sample_module ()) = (Inr (), t) \<and>
    module_start (\<lambda>f m. ret ()) ''perl'' ''one day'' t = (Inl Diverges, t)"
  using unknown_module_hangs [OF sample_module_ready [of "()"], of "''perl''" "\<lambda>f m. ret ()" "''one day''"]
  by (auto simp: sample_module_defs)

end
