(* ===== verification/Vserial.thy ===== *)
theory Vserial
  imports Module
begin

text \<open>
  Model of \<^verbatim>\<open>src/drivers/vserial.c\<close>: the driver that makes a pseudoterminal look like a serial
  port, reports changes of the modem lines to its user and keeps a symbolic link to the slave
  side. The constants are those of Linux and of the patched kernel (\<^verbatim>\<open>kernel/\<close>).

  The callbacks that the program hands to the run loop are named by \<open>callback\<close>; the code of the
  user's \<open>fc_changed\<close> handler is the argument \<open>call_fc\<close>.
\<close>

datatype callback = Start_module_handler | Vserial_deliver_fc_changed_cb | Vserial_poll_cb

record vserial_pty =
  vp_path :: nat
  vp_fd :: int
  vp_terminfo :: termios

record vserial =
  vs_name :: nat
  vs_master :: vserial_pty
  vs_slave :: vserial_pty

record vserial_context =
  vc_driver :: nat
  vc_poll :: nat
  vc_vserial :: nat
  vc_modem_bits :: "32 word"

record 'w vserial_state = "('w, callback) module_state" +
  vserials :: "nat \<Rightarrow> vserial"
  vcontexts :: "nat \<Rightarrow> vserial_context"

type_synonym ('w, 'z, 'a) vserial_prog = "(('w, 'z) vserial_state_scheme, 'a) prog"

definition TIOCM_DTR :: "32 word" where "TIOCM_DTR = 0x002"
definition TIOCM_RTS :: "32 word" where "TIOCM_RTS = 0x004"
definition TIOCM_CTS :: "32 word" where "TIOCM_CTS = 0x020"
definition TIOCM_DSR :: "32 word" where "TIOCM_DSR = 0x100"

definition TIOCPKT_FLUSHREAD :: "8 word" where "TIOCPKT_FLUSHREAD = 1"
definition TIOCPKT_FLUSHWRITE :: "8 word" where "TIOCPKT_FLUSHWRITE = 2"
definition TIOCPKT_STOP :: "8 word" where "TIOCPKT_STOP = 4"
definition TIOCPKT_START :: "8 word" where "TIOCPKT_START = 8"
definition TIOCPKT_NOSTOP :: "8 word" where "TIOCPKT_NOSTOP = 16"
definition TIOCPKT_DOSTOP :: "8 word" where "TIOCPKT_DOSTOP = 32"
definition TIOCPKT_IOCTL :: "8 word" where "TIOCPKT_IOCTL = 64"
definition TIOCPKT_MSET :: "8 word" where "TIOCPKT_MSET = push_bit 7 1"

definition EXTPROC :: "32 word" where "EXTPROC = 0x10000"
definition S_IFLNK :: "32 word" where "S_IFLNK = 0xA000"
definition ENOENT :: int where "ENOENT = 2"
definition CONFIG_READ_SIZE :: nat where "CONFIG_READ_SIZE = 8192"

section \<open>Modem lines\<close>

definition control_lines_of :: "32 word \<Rightarrow> driver_rs232_fc" where
  "control_lines_of bits =
     \<lparr>fc_rts = (bits AND TIOCM_RTS \<noteq> 0), fc_cts = (bits AND TIOCM_CTS \<noteq> 0),
      fc_dtr = (bits AND TIOCM_DTR \<noteq> 0), fc_dsr = (bits AND TIOCM_DSR \<noteq> 0)\<rparr>"

type_synonym ('w, 'z) fc_call = "fc_fn \<Rightarrow> nat \<Rightarrow> driver_rs232_fc \<Rightarrow> ('w, 'z, unit) vserial_prog"

definition vserial_deliver_fc_changed :: "('w, 'z) fc_call \<Rightarrow> nat \<Rightarrow> ('w, 'z, unit) vserial_prog" where
  "vserial_deliver_fc_changed call_fc context =
     seqE (deref context)
     (bindE (gets (\<lambda>s. control_lines_of (vc_modem_bits (vcontexts s context)))) (\<lambda>control_lines.
     bindE (gets (\<lambda>s. vc_driver (vcontexts s context))) (\<lambda>driver.
     seqE (deref driver)
     (bindE (gets (\<lambda>s. dr_cb (drivers s driver))) (\<lambda>cb.
     seqE (deref cb)
     (bindE (gets (\<lambda>s. cb_fc_changed (driver_cbs s cb))) (\<lambda>fc_changed.
     case fc_changed of None \<Rightarrow> ret () | Some f \<Rightarrow> call_fc f driver control_lines)))))))"

definition vserial_deliver_fc_changed_cb :: "('w, 'z) fc_call \<Rightarrow> bool \<Rightarrow> nat \<Rightarrow> ('w, 'z, unit) vserial_prog" where
  "vserial_deliver_fc_changed_cb call_fc should_run context =
     whenE should_run (vserial_deliver_fc_changed call_fc context)"

text \<open>\<open>context->vserial\<close>, with both structures checked.\<close>

definition context_vserial :: "nat \<Rightarrow> ('w, 'z, vserial) vserial_prog" where
  "context_vserial context =
     seqE (deref context)
     (bindE (gets (\<lambda>s. vc_vserial (vcontexts s context))) (\<lambda>v.
     seqE (deref v) (gets (\<lambda>s. vserials s v))))"

definition vserial_handle_mset ::
  "'w posix \<Rightarrow> ('w, 'z) fc_call \<Rightarrow> nat \<Rightarrow> ('w, 'z, unit) vserial_prog" where
  "vserial_handle_mset os call_fc context =
     bindE (context_vserial context) (\<lambda>v.
     bindE (sysread (os_ioctl_tiocmget os (vp_fd (vs_slave v)))) (\<lambda>(rc, new_modem_bits).
     seqE (whenE (rc = -1) (util_fatal ''Could not ioctl(TIOCMGET): %m''))
     (bindE (gets (\<lambda>s. vc_modem_bits (vcontexts s context))) (\<lambda>old.
     if old = new_modem_bits then ret ()
     else
       seqE (modify (\<lambda>s. s\<lparr>vcontexts := (vcontexts s)(context :=
               (vcontexts s context)\<lparr>vc_modem_bits := new_modem_bits\<rparr>)\<rparr>))
       (vserial_deliver_fc_changed call_fc context)))))"

definition vserial_handle_packet ::
  "'w posix \<Rightarrow> ('w, 'z) fc_call \<Rightarrow> 8 word \<Rightarrow> nat \<Rightarrow> ('w, 'z, unit) vserial_prog" where
  "vserial_handle_packet os call_fc status context =
     seqE (log_trace ''handling status packet'')
     (seqE (whenE (status AND TIOCPKT_FLUSHREAD \<noteq> 0) (log_trace ''  FLUSHREAD''))
     (seqE (whenE (status AND TIOCPKT_FLUSHWRITE \<noteq> 0) (log_trace ''  FLUSHWRITE''))
     (seqE (whenE (status AND TIOCPKT_STOP \<noteq> 0) (log_trace ''  STOP''))
     (seqE (whenE (status AND TIOCPKT_START \<noteq> 0) (log_trace ''  START''))
     (seqE (whenE (status AND TIOCPKT_DOSTOP \<noteq> 0) (log_trace ''  DOSTOP''))
     (seqE (whenE (status AND TIOCPKT_NOSTOP \<noteq> 0) (log_trace ''  NOSTOP''))
     (seqE (whenE (status AND TIOCPKT_IOCTL \<noteq> 0) (log_trace ''  IOCTL''))
     (whenE (status AND TIOCPKT_MSET \<noteq> 0)
        (seqE (log_trace ''  MSET'') (vserial_handle_mset os call_fc context))))))))))"

text \<open>\<open>read\<close> answers with its result and the bytes it stored; looking at a first byte that was
  not stored is a fault.\<close>

definition vserial_handle_read ::
  "'w posix \<Rightarrow> ('w, 'z) fc_call \<Rightarrow> nat \<Rightarrow> ('w, 'z, unit) vserial_prog" where
  "vserial_handle_read os call_fc context =
     bindE (context_vserial context) (\<lambda>v.
     bindE (syscall (os_read os (vp_fd (vs_master v)) CONFIG_READ_SIZE)) (\<lambda>(did_read, bytes).
     seqE (if did_read < 0 then util_fatal ''read() failed: %m''
           else if did_read = 0 then util_fatal ''got EOF from master PTY''
           else ret ())
     (case bytes of [] \<Rightarrow> stop (Undefined OutOfBounds)
      | b # _ \<Rightarrow>
          if b = 0 then util_fatal ''read data from the slave PTY''
          else
            seqE (log_debug (msg [''Got a status packet: '', show_nat (unat b)]))
            (vserial_handle_packet os call_fc b context))))"

definition vserial_poll_cb ::
  "'w posix \<Rightarrow> ('w, 'z) fc_call \<Rightarrow> nat \<Rightarrow> 64 word \<Rightarrow> ('w, 'z, unit) vserial_prog" where
  "vserial_poll_cb os call_fc poll events =
     seqE (log_debug (msg [''got poll event(s): '', show_nat (unat events)]))
     (seqE (whenE (events AND PEVENT_ERROR \<noteq> 0) (log_trace ''  ERROR''))
     (seqE (whenE (events AND PEVENT_READ \<noteq> 0) (log_trace ''  READ''))
     (seqE (whenE (events AND PEVENT_WRITE \<noteq> 0) (log_trace ''  WRITE''))
     (seqE (whenE (events AND PEVENT_PRIO \<noteq> 0) (log_trace ''  PRIORITY''))
     (seqE (whenE (events AND PEVENT_PRIO \<noteq> 0 \<and> \<not> events AND PEVENT_READ \<noteq> 0)
              (util_fatal ''Got a PRIO event with out READ''))
     (whenE (events AND PEVENT_READ \<noteq> 0)
        (seqE (deref poll)
        (bindE (gets (\<lambda>s. rp_context (polls s poll))) (\<lambda>context.
         vserial_handle_read os call_fc context)))))))))"

section \<open>The symbolic link\<close>

definition vserial_manage_symlink :: "'w posix \<Rightarrow> string \<Rightarrow> string \<Rightarrow> ('w, 'z, unit) vserial_prog" where
  "vserial_manage_symlink os target pty_slave =
     bindE (sysread (os_lstat os target)) (\<lambda>(rc, err, st_mode).
     bindE (if rc \<noteq> 0 then
              (if err = ENOENT then ret True
               else util_fatal (msg [''could not lstat('', target, ''): %m'']))
            else if st_mode AND S_IFLNK \<noteq> 0 then
              bindE (util_get_link_target os target) (\<lambda>links_to.
              case links_to of
                None \<Rightarrow> util_fatal (msg [''could not get target of '', target, '': %m''])
              | Some links_to \<Rightarrow>
                  seqE (log_debug (msg [''symlink '', target, '' -> '', links_to]))
                  (if pty_slave \<noteq> links_to then
                     seqE (log_debug (msg [''  symlink: need to update to point at '', pty_slave]))
                     (bindE (syscall (os_unlink os target)) (\<lambda>rc.
                     seqE (whenE (rc \<noteq> 0) (util_fatal (msg [''could not unlink('', target, ''): %m''])))
                     (ret True)))
                   else ret False))
            else util_fatal (msg [''will not overwrite '', target, '' with symlink'', nl])) (\<lambda>create_link.
     whenE create_link
       (seqE (log_debug (msg [''Creating symlink: '', pty_slave, '' -> '', target, nl]))
       (bindE (syscall (os_symlink os pty_slave target)) (\<lambda>rc.
        whenE (rc \<noteq> 0) (util_fatal (msg [''could not symlink('', pty_slave, '', '', target, ''): %m''])))))))"

section \<open>A virtual serial port\<close>

definition upd_vserial :: "nat \<Rightarrow> (vserial \<Rightarrow> vserial) \<Rightarrow> ('w, 'z, unit) vserial_prog" where
  [prog_simps]: "upd_vserial v f = modify (\<lambda>s. s\<lparr>vserials := (vserials s)(v := f (vserials s v))\<rparr>)"

definition vserial_create :: "'w posix \<Rightarrow> string option \<Rightarrow> ('w, 'z, nat) vserial_prog" where
  "vserial_create os name_arg =
     bindE (zalloc sizeof) (\<lambda>v.
     bindE (syscall (os_openpty os)) (\<lambda>(rc, master, slave, slave_path).
     seqE (whenE (rc \<noteq> 0) (util_fatal ''could not openpty(): %m''))
     (seqE (util_set_nonblock os master)
     (bindE (syscall (os_ioctl_tiocpkt os master 1)) (\<lambda>rc.
     seqE (whenE (rc = -1) (util_fatal ''could not ioctl(): %m''))
     (bindE (sysread (os_tcgetattr os master)) (\<lambda>(rc, info).
     seqE (whenE (rc \<noteq> 0) (util_fatal ''could not tcgettr(): %m''))
     (bindE (ret (info\<lparr>c_lflag := c_lflag info OR EXTPROC\<rparr>)) (\<lambda>master_terminfo.
     bindE (syscall (os_tcsetattr os master master_terminfo)) (\<lambda>rc.
     seqE (whenE (rc \<noteq> 0) (util_fatal ''could not tcsetattr(): %m''))
     (bindE (ret (case name_arg of None \<Rightarrow> slave_path | Some n \<Rightarrow> n)) (\<lambda>name.
     seqE (whenE (PATH_MAX \<le> length name)
             (util_fatal (msg [''length of name('', show_nat (length name), '') >= PATH_MAX('', show_nat PATH_MAX, '')'', nl])))
     (seqE (whenE (PATH_MAX \<le> length slave_path)
             (util_fatal (msg [''length of slave_path('', show_nat (length slave_path), '') >= PATH_MAX('', show_nat PATH_MAX, '')'', nl])))
     (bindE (util_strndup name PATH_MAX) (\<lambda>name_copy.
     bindE (util_strndup slave_path PATH_MAX) (\<lambda>path_copy.
     seqE (upd_vserial v (\<lambda>_.
             \<lparr>vs_name = name_copy,
              vs_master = \<lparr>vp_path = 0, vp_fd = master, vp_terminfo = master_terminfo\<rparr>,
              vs_slave = \<lparr>vp_path = path_copy, vp_fd = slave, vp_terminfo = \<lparr>c_lflag = 0\<rparr>\<rparr>\<rparr>))
     (seqE (whenE (name_arg \<noteq> None)
             (bindE (gets (\<lambda>s. strs s path_copy)) (\<lambda>pty_slave.
              vserial_manage_symlink os name pty_slave)))
     (ret v))))))))))))))))))"

definition vserial_destroy :: "nat \<Rightarrow> ('w, 'z, unit) vserial_prog" where
  "vserial_destroy v =
     seqE (deref v)
     (bindE (gets (\<lambda>s. vserials s v)) (\<lambda>vs.
     seqE (c_free (vs_name vs))
     (seqE (c_free (vp_path (vs_slave vs)))
     (c_free v))))"

section \<open>The life cycle functions\<close>

definition vserial_lifecycle_bootstrap :: "('w, 'z, unit) vserial_prog" where
  "vserial_lifecycle_bootstrap = log_debug ''vserial driver is being bootstrapped''"

definition upd_context :: "nat \<Rightarrow> (vserial_context \<Rightarrow> vserial_context) \<Rightarrow> ('w, 'z, unit) vserial_prog" where
  [prog_simps]: "upd_context c f = modify (\<lambda>s. s\<lparr>vcontexts := (vcontexts s)(c := f (vcontexts s c))\<rparr>)"

definition vserial_lifecycle_init ::
  "'w posix \<Rightarrow> 'w libuv \<Rightarrow> nat \<Rightarrow> string \<Rightarrow> ('w, 'z, unit) vserial_prog" where
  "vserial_lifecycle_init os uv driver config_section =
     seqE (log_debug ''vserial driver instance is initializing'')
     (bindE (zalloc sizeof) (\<lambda>context.
     seqE (upd_context context (\<lambda>_. \<lparr>vc_driver = 0, vc_poll = 0, vc_vserial = 0, vc_modem_bits = 0\<rparr>))
     (bindE (configfile_rgets_section_key config_section ''vserial.port'') (\<lambda>config_path.
     seqE (upd_context context (\<lambda>c. c\<lparr>vc_driver := driver\<rparr>))
     (seqE (deref config_path)
     (bindE (gets (\<lambda>s. strs s config_path)) (\<lambda>name_arg.
     bindE (vserial_create os (Some name_arg)) (\<lambda>v.
     seqE (upd_context context (\<lambda>c. c\<lparr>vc_vserial := v\<rparr>))
     (bindE (gets (\<lambda>s. vp_fd (vs_master (vserials s v)))) (\<lambda>master_fd.
     bindE (runloop_poll_create uv master_fd Vserial_poll_cb) (\<lambda>poll.
     seqE (upd_context context (\<lambda>c. c\<lparr>vc_poll := poll\<rparr>))
     (seqE (modify (\<lambda>s. s\<lparr>polls := (polls s)(poll := (polls s poll)\<lparr>rp_context := context\<rparr>)\<rparr>))
     (seqE (deref driver)
     (seqE (modify (\<lambda>s. s\<lparr>drivers := (drivers s)(driver := (drivers s driver)\<lparr>dr_private := context\<rparr>)\<rparr>))
     (bindE (gets (\<lambda>s. vp_fd (vs_slave (vserials s v)))) (\<lambda>slave_fd.
     bindE (sysread (os_ioctl_tiocmget os slave_fd)) (\<lambda>(rc, modem_bits).
     seqE (whenE (rc = -1) (util_fatal ''Could not ioctl(TIOCMGET): %m''))
     (seqE (upd_context context (\<lambda>c. c\<lparr>vc_modem_bits := modem_bits\<rparr>))
     (bindE (runloop_run_later uv Vserial_deliver_fc_changed_cb context) (\<lambda>_.
     runloop_poll_start uv poll (PEVENT_READ OR PEVENT_PRIO)))))))))))))))))))))"

definition vserial_lifecycle_cleanup :: "'w libuv \<Rightarrow> nat \<Rightarrow> ('w, 'z, unit) vserial_prog" where
  "vserial_lifecycle_cleanup uv driver =
     seqE (log_debug ''vserial driver instance is being destroyed'')
     (seqE (deref driver)
     (bindE (gets (\<lambda>s. dr_private (drivers s driver))) (\<lambda>context.
     whenE (context \<noteq> 0)
       (seqE (deref context)
       (bindE (gets (\<lambda>s. vcontexts s context)) (\<lambda>c.
       seqE (runloop_poll_destroy uv (vc_poll c))
       (seqE (vserial_destroy (vc_vserial c))
       (bindE (gets (\<lambda>s. dr_user (drivers s driver))) (\<lambda>user.
       seqE (c_free user)
       (modify (\<lambda>s. s\<lparr>drivers := (drivers s)(driver := (drivers s driver)\<lparr>dr_user := 0\<rparr>)\<rparr>)))))))))))"

text \<open>The functions behind the names in the driver description.\<close>

definition driver_init_call ::
  "'w posix \<Rightarrow> 'w libuv \<Rightarrow> driver_fn \<Rightarrow> nat \<Rightarrow> string \<Rightarrow> ('w, 'z, unit) vserial_prog" where
  "driver_init_call os uv f driver config_section =
     (case f of Vserial_lifecycle_init \<Rightarrow> vserial_lifecycle_init os uv driver config_section
      | _ \<Rightarrow> stop (Undefined NullDeref))"

definition driver_cleanup_call :: "'w libuv \<Rightarrow> driver_fn \<Rightarrow> nat \<Rightarrow> ('w, 'z, unit) vserial_prog" where
  "driver_cleanup_call uv f driver =
     (case f of Vserial_lifecycle_cleanup \<Rightarrow> vserial_lifecycle_cleanup uv driver
      | _ \<Rightarrow> stop (Undefined NullDeref))"

text \<open>A program without ports.\<close>

definition sample_vserial :: "'w \<Rightarrow> 'w vserial_state" where
  "sample_vserial w = module_state.extend (sample_module w)
     \<lparr>vserials = (\<lambda>_. \<lparr>vs_name = 0, vs_master = \<lparr>vp_path = 0, vp_fd = 3, vp_terminfo = \<lparr>c_lflag = 0\<rparr>\<rparr>,
        vs_slave = \<lparr>vp_path = 0, vp_fd = 4, vp_terminfo = \<lparr>c_lflag = 0\<rparr>\<rparr>\<rparr>),
      vcontexts = (\<lambda>_. \<lparr>vc_driver = 0, vc_poll = 0, vc_vserial = 0, vc_modem_bits = 0\<rparr>)\<rparr>"

lemmas sample_vserial_defs = sample_vserial_def sample_module_defs module_state.defs

end
