(* ===== verification/Test_Module.thy ===== *)
theory Test_Module
  imports Vserial
begin

text \<open>
  Model of \<^verbatim>\<open>src/modules/test.c\<close>, the module that keys a radio from the RTS line of a virtual
  serial port. hamlib is outside the repository: its functions are the fields of the record
  \<open>hamlib\<close>, acting on the outside state; \<open>rig_pathname\<close> is the write to the path member of
  the structure that \<open>rig_init\<close> returned.
\<close>

record 'w hamlib =
  rig_init :: "int \<Rightarrow> 'w \<Rightarrow> nat \<times> 'w"
  rig_open :: "nat \<Rightarrow> 'w \<Rightarrow> int \<times> 'w"
  rig_close :: "nat \<Rightarrow> 'w \<Rightarrow> 'w"
  rig_cleanup :: "nat \<Rightarrow> 'w \<Rightarrow> 'w"
  rig_set_ptt :: "nat \<Rightarrow> int \<Rightarrow> 'w \<Rightarrow> int \<times> 'w"
  rig_pathname :: "nat \<Rightarrow> string \<Rightarrow> 'w \<Rightarrow> 'w"
  rigerror :: "int \<Rightarrow> string"
  FILPATHLEN :: nat

definition RIG_OK :: int where "RIG_OK = 0"
definition RIG_PTT_OFF :: int where "RIG_PTT_OFF = 0"
definition RIG_PTT_ON :: int where "RIG_PTT_ON = 1"

record test_context =
  tc_vserial :: nat
  tc_rig :: nat

record 'w test_state = "'w vserial_state" +
  tcontexts :: "nat \<Rightarrow> test_context"

type_synonym ('w, 'z, 'a) test_prog = "(('w, 'z) test_state_scheme, 'a) prog"

definition update_flow_control ::
  "'w hamlib \<Rightarrow> nat \<Rightarrow> driver_rs232_fc \<Rightarrow> ('w, 'z, unit) test_prog" where
  "update_flow_control hl driver control_lines =
     seqE (log_debug ''got flow control status change'')
     (seqE (whenE (fc_cts control_lines) (log_trace ''  CTS''))
     (seqE (whenE (fc_rts control_lines) (log_trace ''  RTS''))
     (seqE (whenE (fc_dtr control_lines) (log_trace ''  DTR''))
     (seqE (whenE (fc_dsr control_lines) (log_trace ''  DSR''))
     (seqE (deref driver)
     (bindE (gets (\<lambda>s. dr_user (drivers s driver))) (\<lambda>context.
     bindE (ret (if fc_rts control_lines then RIG_PTT_ON else RIG_PTT_OFF)) (\<lambda>ptt_state.
     seqE (deref context)
     (bindE (gets (\<lambda>s. tc_rig (tcontexts s context))) (\<lambda>rig.
     bindE (syscall (rig_set_ptt hl rig ptt_state)) (\<lambda>rc.
     seqE (whenE (rc \<noteq> RIG_OK) (util_fatal (msg [''Could not set transmit: '', rigerror hl rc])))
     (if ptt_state = RIG_PTT_ON then log_info ''Starting to transmit''
      else log_info ''Done transmitting''))))))))))))"

text \<open>The functions behind the names of \<open>fc_changed\<close> handlers.\<close>

definition fc_call :: "'w hamlib \<Rightarrow> fc_fn \<Rightarrow> nat \<Rightarrow> driver_rs232_fc \<Rightarrow> ('w, 'z, unit) test_prog" where
  "fc_call hl f = (case f of Update_flow_control \<Rightarrow> update_flow_control hl)"

definition test_lifecycle_bootstrap :: "('w, 'z, unit) test_prog" where
  "test_lifecycle_bootstrap = log_lots ''bootstrapping the test module''"

definition upd_tcontext :: "nat \<Rightarrow> (test_context \<Rightarrow> test_context) \<Rightarrow> ('w, 'z, unit) test_prog" where
  [prog_simps]: "upd_tcontext c f = modify (\<lambda>s. s\<lparr>tcontexts := (tcontexts s)(c := f (tcontexts s c))\<rparr>)"

text \<open>\<open>module->label\<close> as a string.\<close>

definition module_label :: "nat \<Rightarrow> ('w, 'z, string) test_prog" where
  "module_label module =
     seqE (deref module)
     (bindE (gets (\<lambda>s. mo_label (modules s module))) (\<lambda>label.
     seqE (deref label) (gets (\<lambda>s. strs s label))))"

definition test_lifecycle_start ::
  "'w posix \<Rightarrow> 'w libuv \<Rightarrow> 'w hamlib \<Rightarrow> nat \<Rightarrow> ('w, 'z, unit) test_prog" where
  "test_lifecycle_start os uv hl module =
     bindE (zalloc sizeof) (\<lambda>context.
     seqE (upd_tcontext context (\<lambda>_. \<lparr>tc_vserial = 0, tc_rig = 0\<rparr>))
     (bindE (module_label module) (\<lambda>label.
     bindE (driver_create (driver_init_call os uv) ''vserial'' label) (\<lambda>vserial.
     seqE (upd_tcontext context (\<lambda>c. c\<lparr>tc_vserial := vserial\<rparr>))
     (seqE (whenE (vserial = 0) (util_fatal ''could not create instance of vserial driver''))
     (seqE (deref vserial)
     (bindE (gets (\<lambda>s. dr_cb (drivers s vserial))) (\<lambda>cb.
     seqE (deref cb)
     (seqE (modify (\<lambda>s. s\<lparr>driver_cbs := (driver_cbs s)(cb := (driver_cbs s cb)
              \<lparr>cb_fc_changed := Some Update_flow_control\<rparr>)\<rparr>))
     (seqE (modify (\<lambda>s. s\<lparr>drivers := (drivers s)(vserial := (drivers s vserial)\<lparr>dr_user := context\<rparr>)\<rparr>))
     (bindE (module_label module) (\<lambda>label.
     bindE (configfile_rgeti_section_key label ''hamlib.rigid'') (\<lambda>i.
     bindE (ret (sint (word_of_int i :: 32 word))) (\<lambda>rigid.
     bindE (syscall (rig_init hl rigid)) (\<lambda>rig.
     seqE (upd_tcontext context (\<lambda>c. c\<lparr>tc_rig := rig\<rparr>))
     (seqE (log_info (msg [''using hamlib rigid '', show_int rigid]))
     (seqE (whenE (rig = 0) (util_fatal (msg [''could not rig_init('', show_int rigid, '')''])))
     (bindE (configfile_gets_section_key label ''hamlib.serial.port'') (\<lambda>hamlib_serial_port.
     seqE (whenE (hamlib_serial_port \<noteq> 0)
             (seqE (deref hamlib_serial_port)
             (bindE (gets (\<lambda>s. strs s hamlib_serial_port)) (\<lambda>port.
              syscall (\<lambda>w. ((), rig_pathname hl rig (take (FILPATHLEN hl - 1) port) w))))))
     (bindE (syscall (rig_open hl rig)) (\<lambda>rc.
     seqE (whenE (rc \<noteq> RIG_OK) (util_fatal (msg [''Could not rig_open(): '', rigerror hl rc])))
     (seqE (modify (\<lambda>s. s\<lparr>modules := (modules s)(module := (modules s module)\<lparr>mo_private := context\<rparr>)\<rparr>))
     (log_info (msg [''test module started: '', quo label]))))))))))))))))))))))))"

definition test_lifecycle_stop :: "'w libuv \<Rightarrow> 'w hamlib \<Rightarrow> nat \<Rightarrow> ('w, 'z, unit) test_prog" where
  "test_lifecycle_stop uv hl module =
     seqE (log_debug ''test module stopping'')
     (seqE (deref module)
     (bindE (gets (\<lambda>s. mo_private (modules s module))) (\<lambda>context.
     seqE (deref context)
     (bindE (gets (\<lambda>s. tc_vserial (tcontexts s context))) (\<lambda>vserial.
     seqE (whenE (vserial \<noteq> 0) (driver_destroy (driver_cleanup_call uv) vserial False))
     (seqE (deref context)
     (bindE (gets (\<lambda>s. tc_rig (tcontexts s context))) (\<lambda>rig.
     seqE (whenE (rig \<noteq> 0)
             (seqE (syscall (\<lambda>w. ((), rig_close hl rig w)))
              (syscall (\<lambda>w. ((), rig_cleanup hl rig w)))))
     (c_free context)))))))))"

text \<open>The functions behind the names in the module description.\<close>

definition module_start_call ::
  "'w posix \<Rightarrow> 'w libuv \<Rightarrow> 'w hamlib \<Rightarrow> module_fn \<Rightarrow> nat \<Rightarrow> ('w, 'z, unit) test_prog" where
  "module_start_call os uv hl f module =
     (case f of Test_lifecycle_start \<Rightarrow> test_lifecycle_start os uv hl module
      | _ \<Rightarrow> stop (Undefined NullDeref))"

definition module_stop_call ::
  "'w libuv \<Rightarrow> 'w hamlib \<Rightarrow> module_fn \<Rightarrow> nat \<Rightarrow> ('w, 'z, unit) test_prog" where
  "module_stop_call uv hl f module =
     (case f of Test_lifecycle_stop \<Rightarrow> test_lifecycle_stop uv hl module
      | _ \<Rightarrow> stop (Undefined NullDeref))"

end
