(* ===== verification/App.thy ===== *)
theory App
  imports Test_Module
begin

text \<open>
  Model of \<^verbatim>\<open>src/main.c\<close> and of the part of \<^verbatim>\<open>src/runloop.c\<close> that hands control to libuv:
  \<open>runloop_run\<close> and \<open>runloop_cleanup\<close>. This is where the names of callbacks meet the code
  behind them.

  \<open>uv_run\<close> is outside the repository; what it does to the program is to call it back. The
  field \<open>uv_next\<close> of the environment says, from the outside state, which callback comes next
  (and what changes outside before it is called), or that \<open>uv_run\<close> returns. A program may run
  for as long as it likes, so \<open>uv_run\<close> has a bound on the number of callbacks.
\<close>

datatype uv_event =
  Ev_prepare nat | Ev_timer nat | Ev_poll nat int "32 word" | Ev_signal | Ev_close nat close_cb

record 'w environment =
  e_os :: "'w posix"
  e_uv :: "'w libuv"
  e_hl :: "'w hamlib"
  e_io :: "'w stdio"
  uv_next :: "'w \<Rightarrow> (uv_event \<times> 'w) option"
  uv_run_result :: "'w \<Rightarrow> bool"
  uv_walk :: "nat \<Rightarrow> 'w \<Rightarrow> nat list"
  rig_debug_setup :: "'w \<Rightarrow> 'w"

section \<open>main.c: messages of hamlib\<close>

definition RIG_DEBUG_NONE :: int where "RIG_DEBUG_NONE = 0"
definition RIG_DEBUG_BUG :: int where "RIG_DEBUG_BUG = 1"
definition RIG_DEBUG_ERR :: int where "RIG_DEBUG_ERR = 2"
definition RIG_DEBUG_WARN :: int where "RIG_DEBUG_WARN = 3"
definition RIG_DEBUG_VERBOSE :: int where "RIG_DEBUG_VERBOSE = 4"
definition RIG_DEBUG_TRACE :: int where "RIG_DEBUG_TRACE = 5"

lemmas rig_debug_defs = RIG_DEBUG_NONE_def RIG_DEBUG_BUG_def RIG_DEBUG_ERR_def
  RIG_DEBUG_WARN_def RIG_DEBUG_VERBOSE_def RIG_DEBUG_TRACE_def

definition hamlib_log_level :: "int \<Rightarrow> int" where
  "hamlib_log_level debug_level =
     (if debug_level = RIG_DEBUG_NONE then log_level_trace
      else if debug_level = RIG_DEBUG_BUG \<or> debug_level = RIG_DEBUG_ERR then log_level_error
      else if debug_level = RIG_DEBUG_WARN then log_level_warn
      else if debug_level = RIG_DEBUG_VERBOSE then log_level_verbose
      else if debug_level = RIG_DEBUG_TRACE then log_level_trace
      else log_level_fatal)"

text \<open>\<open>render\<close> is the formatting of the arguments by \<open>vsnprintf\<close>.\<close>

definition hamlib_debug_handler ::
  "int \<Rightarrow> string \<Rightarrow> (string \<Rightarrow> string) \<Rightarrow> ('z log_state_scheme, int) prog" where
  "hamlib_debug_handler debug_level fmt render =
     bindE (ret (hamlib_log_level debug_level)) (\<lambda>log_at.
     bindE log_get_current_level (\<lambda>cur.
     if log_at < cur then ret RIG_OK
     else
       bindE (strdup_ad fmt) (\<lambda>new_fmt.
       bindE (gets (\<lambda>s. strs s new_fmt)) (\<lambda>text.
       seqE (if text = [] then stop (Undefined OutOfBounds)
             else whenE (last text = CHR 0x0A)
               (modify (\<lambda>s. s\<lparr>strs := (strs s)(new_fmt := butlast text)\<rparr>)))
       (bindE (gets (\<lambda>s. strs s new_fmt)) (\<lambda>text.
       seqE (log_level_args die_call log_source_hamlib log_at None None (-1) (render text))
       (seqE (c_free new_fmt) (ret RIG_OK))))))))"

section \<open>main.c: starting the modules\<close>

type_synonym 'w app_state = "'w test_state"
type_synonym ('w, 'a) app_prog = "('w app_state, 'a) prog"

text \<open>The string that a pointer points to.\<close>

definition string_at :: "nat \<Rightarrow> ('z process_scheme, string) prog" where
  "string_at p = seqE (deref p) (gets (\<lambda>s. strs s p))"

definition start_module_handler :: "'w environment \<Rightarrow> bool \<Rightarrow> nat \<Rightarrow> ('w, unit) app_prog" where
  "start_module_handler env should_run context =
     seqE (whenE should_run
       (bindE (string_at context) (\<lambda>config_section.
        bindE (configfile_rgets_section_key config_section ''module.name'') (\<lambda>module_name.
        bindE (string_at module_name) (\<lambda>name.
        seqE (log_debug (msg [''config section '', quo config_section, '' module.name = '', quo name]))
        (bindE (module_start (module_start_call (e_os env) (e_uv env) (e_hl env)) name config_section) (\<lambda>_.
         ret ())))))))
     (c_free context)"

section \<open>The code behind the callbacks\<close>

definition job_call :: "'w environment \<Rightarrow> callback \<Rightarrow> bool \<Rightarrow> nat \<Rightarrow> ('w, unit) app_prog" where
  "job_call env cb should_run context =
     (case cb of
        Start_module_handler \<Rightarrow> start_module_handler env should_run context
      | Vserial_deliver_fc_changed_cb \<Rightarrow>
          vserial_deliver_fc_changed_cb (fc_call (e_hl env)) should_run context
      | Vserial_poll_cb \<Rightarrow> stop (Undefined WrongUnion))"

definition poll_call :: "'w environment \<Rightarrow> callback \<Rightarrow> nat \<Rightarrow> 64 word \<Rightarrow> ('w, unit) app_prog" where
  "poll_call env cb poll events =
     (case cb of
        Vserial_poll_cb \<Rightarrow> vserial_poll_cb (e_os env) (fc_call (e_hl env)) poll events
      | _ \<Rightarrow> stop (Undefined WrongUnion))"

definition dispatch :: "'w environment \<Rightarrow> nat \<Rightarrow> uv_event \<Rightarrow> ('w, unit) app_prog" where
  "dispatch env fuel ev =
     (case ev of
        Ev_prepare h \<Rightarrow> run_once_prepare_cb (e_uv env) (job_call env) fuel h
      | Ev_timer h \<Rightarrow> runloop_timer_run_cb (job_call env) h
      | Ev_poll h status events \<Rightarrow> runloop_poll_run_cb (e_uv env) (poll_call env) h status events
      | Ev_signal \<Rightarrow> int_signal_cb (e_uv env)
      | Ev_close h cb \<Rightarrow>
          (case cb of
             Close_none \<Rightarrow> ret ()
           | Cleanup_handle_cb \<Rightarrow> cleanup_handle_cb h
           | Runloop_timer_close_cb \<Rightarrow> runloop_timer_close_cb (job_call env) h
           | Runloop_poll_close_cb \<Rightarrow> runloop_poll_close_cb (poll_call env) h))"

fun uv_run :: "'w environment \<Rightarrow> nat \<Rightarrow> ('w, bool) app_prog" where
  "uv_run env fuel =
     bindE (gets (\<lambda>s. uv_next env (world s))) (\<lambda>next.
     case next of
       None \<Rightarrow> sysread (uv_run_result env)
     | Some (ev, w) \<Rightarrow>
         (case fuel of 0 \<Rightarrow> stop OutOfFuel
          | Suc fuel' \<Rightarrow>
              seqE (modify (\<lambda>s. s\<lparr>world := w\<rparr>))
              (seqE (dispatch env fuel' ev)
              (uv_run env fuel'))))"

declare uv_run.simps [simp del]

section \<open>runloop.c: running and cleaning up\<close>

definition runloop_run :: "'w environment \<Rightarrow> nat \<Rightarrow> ('w, bool) app_prog" where
  "runloop_run env fuel =
     bindE (gets thread_loop) (\<lambda>l.
     seqE (whenE (l = 0)
             (util_fatal ''runloop_run() called but there was no per thread runloop defined''))
     (bindE (gets int_signal) (\<lambda>sig.
     seqE (whenE (sig = 0)
             (bindE (zalloc sizeof) (\<lambda>p.
              seqE (modify (\<lambda>s. s\<lparr>int_signal := p\<rparr>))
              (uv_do (uv_signal_init (e_uv env) l p)))))
     (seqE (log_debug ''about to give control to runloop'')
     (bindE (gets int_signal) (\<lambda>sig.
     seqE (uv_do (uv_signal_start (e_uv env) sig))
     (seqE (modify (\<lambda>s. s\<lparr>in_runloop_context := True\<rparr>))
     (bindE (uv_run env fuel) (\<lambda>retval.
     seqE (modify (\<lambda>s. s\<lparr>in_runloop_context := False\<rparr>))
     (bindE (gets int_signal) (\<lambda>sig.
     seqE (uv_do (uv_signal_stop (e_uv env) sig))
     (seqE (log_debug (msg [''control from runloop returned; retval = '', show_nat (if retval then 1 else 0)]))
     (ret retval)))))))))))))"

fun walk_handles :: "'w libuv \<Rightarrow> nat list \<Rightarrow> ('w, unit) app_prog" where
  "walk_handles uv [] = ret ()"
| "walk_handles uv (h # hs) = seqE (walk_runloop_cb uv h) (walk_handles uv hs)"

definition runloop_cleanup :: "'w environment \<Rightarrow> nat \<Rightarrow> ('w, unit) app_prog" where
  "runloop_cleanup env fuel =
     bindE (gets thread_loop) (\<lambda>l.
     if l = 0 then ret ()
     else
       seqE (log_debug ''starting to cleanup the runloop'')
       (bindE (gets int_signal) (\<lambda>sig.
       seqE (whenE (sig \<noteq> 0) (uv_do (uv_close (e_uv env) sig Close_none)))
       (seqE (module_stop_all (module_stop_call (e_uv env) (e_hl env)) fuel)
       (bindE (uv_run env fuel) (\<lambda>_.
       seqE (log_lots ''walking the runloop to close needed handles'')
       (bindE (sysread (uv_walk env l)) (\<lambda>handles.
       seqE (walk_handles (e_uv env) handles)
       (seqE (log_debug ''starting the runloop again to process the cleanup call backs'')
       (bindE (uv_run env fuel) (\<lambda>_.
       seqE (log_debug ''out of the runloop now'')
       (bindE (syscall (uv_loop_close (e_uv env) l)) (\<lambda>rc.
       seqE (whenE (rc = UV_EBUSY (e_uv env))
               (util_fatal ''could not cleanup runloop because it was not empty''))
       (bindE (gets int_signal) (\<lambda>sig.
       seqE (whenE (sig \<noteq> 0) (c_free sig))
       (bindE (gets thread_loop) (\<lambda>l.
       seqE (c_free l)
       (seqE (modify (\<lambda>s. s\<lparr>thread_loop := 0\<rparr>))
       (log_lots ''runloop is completely cleaned up'')))))))))))))))))))"

section \<open>main.c: the program\<close>

definition bootstrap :: "'w environment \<Rightarrow> ('w, unit) app_prog" where
  "bootstrap env =
     seqE (autodie_register_handler (Some Autodie_handler))
     (seqE (syscall (\<lambda>w. ((), rig_debug_setup env w)))
     (seqE (runloop_bootstrap (e_uv env))
     (seqE driver_bootstrap
     module_bootstrap)))"

text \<open>The loop over the sections: \<open>i\<close> counts up to \<open>num_sections\<close>, \<open>k\<close> is what is left.\<close>

fun schedule_sections :: "'w environment \<Rightarrow> int \<Rightarrow> nat \<Rightarrow> ('w, unit) app_prog" where
  "schedule_sections env i 0 = ret ()"
| "schedule_sections env i (Suc k) =
     bindE (configfile_get_section_name i) (\<lambda>name.
     bindE (case name of None \<Rightarrow> stop (Undefined NullDeref) | Some n \<Rightarrow> strdup_ad n) (\<lambda>section_name.
     bindE (runloop_run_later (e_uv env) Start_module_handler section_name) (\<lambda>_.
     schedule_sections env (i + 1) k)))"

definition main :: "'w environment \<Rightarrow> nat \<Rightarrow> int \<Rightarrow> string list \<Rightarrow> ('w, unit) app_prog" where
  "main env fuel argc argv =
     bindE (log_set_current_level log_level_trace) (\<lambda>_.
     seqE (log_info ''righack is starting'')
     (seqE (bootstrap env)
     (seqE (whenE (argc \<noteq> 2) (util_fatal ''usage: specify exactly one config file''))
     (bindE (ret (argv ! 1)) (\<lambda>config_file.
     seqE (log_debug (msg [''loading configuration from '', config_file]))
     (seqE (configfile_load (e_io env) fuel config_file)
     (seqE (log_debug ''loading driver plugins'')
     (seqE driver_load_plugins
     (bindE (configfile_get_section_count fuel) (\<lambda>num_sections.
     seqE (schedule_sections env 0 (nat num_sections))
     (bindE (runloop_run env fuel) (\<lambda>_.
     seqE (runloop_cleanup env fuel)
     (guts_exit exit_ok)))))))))))))"

section \<open>An environment in which nothing answers\<close>

definition idle_posix :: "'w posix" where
  "idle_posix = \<lparr>
     os_readlink = (\<lambda>p n w. (-1, [])), os_fcntl_getfl = (\<lambda>fd w. -1), os_fcntl_setfl = (\<lambda>fd f w. (-1, w)),
     os_openpty = (\<lambda>w. ((-1, 0, 0, []), w)), os_ioctl_tiocpkt = (\<lambda>fd v w. (-1, w)),
     os_tcgetattr = (\<lambda>fd w. (-1, \<lparr>c_lflag = 0\<rparr>)), os_tcsetattr = (\<lambda>fd t w. (-1, w)),
     os_ioctl_tiocmget = (\<lambda>fd w. (-1, 0)), os_read = (\<lambda>fd n w. ((-1, []), w)),
     os_lstat = (\<lambda>p w. (-1, 0, 0)), os_unlink = (\<lambda>p w. (-1, w)), os_symlink = (\<lambda>a p w. (-1, w))\<rparr>"

definition idle_hamlib :: "'w hamlib" where
  "idle_hamlib = \<lparr>
     rig_init = (\<lambda>i w. (0, w)), rig_open = (\<lambda>r w. (-1, w)), rig_close = (\<lambda>r w. w), rig_cleanup = (\<lambda>r w. w),
     rig_set_ptt = (\<lambda>r on w. (-1, w)), rig_pathname = (\<lambda>r p w. w), rigerror = (\<lambda>e. []), FILPATHLEN = 512\<rparr>"

definition idle_env :: "'e table_world environment" where
  "idle_env = \<lparr>e_os = idle_posix, e_uv = table_uv, e_hl = idle_hamlib,
     e_io = \<lparr>os_fopen = (\<lambda>p w. None), os_fclose = (\<lambda>p w. 0)\<rparr>,
     uv_next = (\<lambda>w. None), uv_run_result = (\<lambda>w. False), uv_walk = (\<lambda>l w. []), rig_debug_setup = (\<lambda>w. w)\<rparr>"

end
