(* ===== verification/Modem_Lines.thy ===== *)
theory Modem_Lines
  imports Test_Module
begin

text \<open>
  What a change of the modem lines of a virtual port does, through \<^verbatim>\<open>src/drivers/vserial.c\<close>
  and its user \<^verbatim>\<open>src/modules/test.c\<close>: the callback of the poll handle as a step of a small
  abstract machine that sees only the lines, the descriptors and the radio of the port.
\<close>

section \<open>Programs that only log\<close>

text \<open>A piece of the program that returns and leaves only traces in the log.\<close>

definition quiet :: "(('w, 'cb, 'z) config_state_scheme, unit) prog \<Rightarrow> bool" where
  "quiet m \<longleftrightarrow> (\<forall>s. message_buf s \<noteq> 0 \<longrightarrow> (\<exists>t. m s = (Inr (), t) \<and> frame_log s t))"

named_theorems quiet_intros \<open>programs that only log\<close>

lemma quiet_ret [quiet_intros]: "quiet (ret ())"
  unfolding quiet_def by (auto simp: ret_def intro: frame_log_refl)

lemma quiet_seqE [quiet_intros]:
  assumes "quiet m" "quiet n"
  shows "quiet (seqE m n)"
  unfolding quiet_def
proof (intro allI impI)
  fix s :: "('a, 'b, 'c) config_state_scheme"
  assume "message_buf s \<noteq> 0"
  then obtain t where t: "m s = (Inr (), t)" "frame_log s t" using assms(1) unfolding quiet_def by blast
  with \<open>message_buf s \<noteq> 0\<close> have "message_buf t \<noteq> 0" by (simp add: frame_logD)
  then obtain u where "n t = (Inr (), u)" "frame_log t u" using assms(2) unfolding quiet_def by blast
  with t show "\<exists>u. seqE m n s = (Inr (), u) \<and> frame_log s u" using frame_log_trans by fastforce
qed

lemma quiet_whenE [quiet_intros]: "quiet m \<Longrightarrow> quiet (whenE b m)"
  by (cases b) (simp_all add: quiet_ret)

lemma quiet_log [quiet_intros]: "quiet (log_trace m)" "quiet (log_debug m)" "quiet (log_info m)"
  unfolding quiet_def by (auto intro: frame_log_log)

lemma quietE:
  assumes "quiet m" "message_buf s \<noteq> 0"
  obtains t where "m s = (Inr (), t)" "frame_log s t" "message_buf t \<noteq> 0"
  using assms unfolding quiet_def by (metis frame_logD(4))

lemma frame_log_world:
  assumes "frame_log s t"
  shows "frame_log (s\<lparr>world := w\<rparr>) (t\<lparr>world := w\<rparr>)"
proof -
  obtain c m where "t = s\<lparr>message_text := m, console := c\<rparr>" by (rule frame_log_obtain [OF assms])
  then have "t\<lparr>world := w\<rparr> = s\<lparr>world := w, message_text := m, console := c\<rparr>" by simp
  then show ?thesis unfolding frame_log_def by blast
qed

text \<open>The static variables and structures of the later components are not touched either.\<close>

lemma frame_log_later:
  fixes s t :: "('w, 'z) test_state_scheme"
  assumes "frame_log s t"
  shows "drivers t = drivers s" "driver_cbs t = driver_cbs s" "modules t = modules s"
    "polls t = polls s" "poll_privs t = poll_privs s" "vserials t = vserials s"
    "vcontexts t = vcontexts s" "tcontexts t = tcontexts s"
    "running_modules t = running_modules s" "running_nodes t = running_nodes s"
    "ro_list t = ro_list s" "ro_jobs t = ro_jobs s" "run_once_queue t = run_once_queue s"
    "run_once_last t = run_once_last s"
  using assms by (auto simp: frame_log_def)

section \<open>The user of the port keys the radio\<close>

definition flow_traces :: "driver_rs232_fc \<Rightarrow> ('w, 'z, unit) test_prog" where
  "flow_traces lines =
     seqE (log_debug ''got flow control status change'')
     (seqE (whenE (fc_cts lines) (log_trace ''  CTS''))
     (seqE (whenE (fc_rts lines) (log_trace ''  RTS''))
     (seqE (whenE (fc_dtr lines) (log_trace ''  DTR''))
     (whenE (fc_dsr lines) (log_trace ''  DSR'')))))"

lemma quiet_flow_traces: "quiet (flow_traces lines)"
  unfolding flow_traces_def by (intro quiet_intros)

definition ptt_of :: "bool \<Rightarrow> int" where
  "ptt_of rts = (if rts then RIG_PTT_ON else RIG_PTT_OFF)"

lemma update_flow_control_split:
  "update_flow_control hl driver lines =
     seqE (flow_traces lines)
     (seqE (deref driver)
     (bindE (gets (\<lambda>s. dr_user (drivers s driver))) (\<lambda>context.
     seqE (deref context)
     (bindE (gets (\<lambda>s. tc_rig (tcontexts s context))) (\<lambda>rig.
     bindE (syscall (rig_set_ptt hl rig (ptt_of (fc_rts lines)))) (\<lambda>rc.
     seqE (whenE (rc \<noteq> RIG_OK) (util_fatal (msg [''Could not set transmit: '', rigerror hl rc])))
     (if fc_rts lines then log_info ''Starting to transmit'' else log_info ''Done transmitting'')))))))"
  by (simp add: update_flow_control_def flow_traces_def prog_assoc ptt_of_def RIG_PTT_ON_def RIG_PTT_OFF_def)

lemma update_flow_control_eq:
  assumes "ready s" "driver \<in> live s" "dr_user (drivers s driver) \<in> live s"
    and "rig_set_ptt hl (tc_rig (tcontexts s (dr_user (drivers s driver)))) (ptt_of (fc_rts lines)) (world s) = (rc, w)"
  shows "if rc = RIG_OK then \<exists>t. update_flow_control hl driver lines s = (Inr (), t) \<and> frame_log (s\<lparr>world := w\<rparr>) t
    else fst (update_flow_control hl driver lines s) = Inl (Exited exit_fatal)"
proof -
  note nz = live_nonzero [OF assms(1,2)] live_nonzero [OF assms(1,3)]
  obtain t where t: "flow_traces lines s = (Inr (), t)" "frame_log s t" "message_buf t \<noteq> 0"
    by (rule quietE [OF quiet_flow_traces, of s]) (use assms(1) in simp_all)
  note [simp] = frame_logD [OF t(2)] frame_log_later [OF t(2)]
  let ?e = "msg [''Could not set transmit: '', rigerror hl rc]"
  let ?l = "if fc_rts lines then log_info ''Starting to transmit'' else log_info ''Done transmitting''"
  have eq: "update_flow_control hl driver lines s =
      seqE (whenE (rc \<noteq> RIG_OK) (util_fatal ?e)) ?l (t\<lparr>world := w\<rparr>)"
    using t(1) assms nz by (simp add: update_flow_control_split deref_def)
  show ?thesis
  proof (cases "rc = RIG_OK")
    case True
    have "quiet ?l" by (simp add: quiet_log)
    then obtain u where u: "?l (t\<lparr>world := w\<rparr>) = (Inr (), u)" "frame_log (t\<lparr>world := w\<rparr>) u"
      by (rule quietE [of _ "t\<lparr>world := w\<rparr>"]) (use t(3) in simp_all)
    have "frame_log (s\<lparr>world := w\<rparr>) u" by (rule frame_log_trans [OF frame_log_world [OF t(2)] u(2)])
    with True u(1) eq show ?thesis by simp
  next
    case False
    then show ?thesis using eq t(3) by simp
  qed
qed

section \<open>A port as the poll handle sees it\<close>

record port =
  pv_bits :: "32 word"
  pv_master :: int
  pv_slave :: int
  pv_rig :: nat

definition port_of :: "('w, 'z) test_state_scheme \<Rightarrow> nat \<Rightarrow> port" where
  "port_of s c =
     \<lparr>pv_bits = vc_modem_bits (vcontexts s c),
      pv_master = vp_fd (vs_master (vserials s (vc_vserial (vcontexts s c)))),
      pv_slave = vp_fd (vs_slave (vserials s (vc_vserial (vcontexts s c)))),
      pv_rig = tc_rig (tcontexts s (dr_user (drivers s (vc_driver (vcontexts s c)))))\<rparr>"

text \<open>Every structure on the way from the context of the driver to the radio is allocated, and
  the handler of the module is installed.\<close>

definition port_ok :: "('w, 'z) test_state_scheme \<Rightarrow> nat \<Rightarrow> bool" where
  "port_ok s c \<longleftrightarrow> ready s \<and> c \<in> live s \<and> vc_vserial (vcontexts s c) \<in> live s \<and>
     vc_driver (vcontexts s c) \<in> live s \<and>
     dr_cb (drivers s (vc_driver (vcontexts s c))) \<in> live s \<and>
     dr_user (drivers s (vc_driver (vcontexts s c))) \<in> live s \<and>
     cb_fc_changed (driver_cbs s (dr_cb (drivers s (vc_driver (vcontexts s c))))) = Some Update_flow_control"

definition key_radio :: "'w hamlib \<Rightarrow> port \<Rightarrow> 'w \<Rightarrow> halt + port \<times> 'w" where
  "key_radio hl pv w =
     (case rig_set_ptt hl (pv_rig pv) (ptt_of (pv_bits pv AND TIOCM_RTS \<noteq> 0)) w of (rc, w') \<Rightarrow>
        if rc = RIG_OK then Inr (pv, w') else Inl (Exited exit_fatal))"

text \<open>New lines count only when they differ from the lines seen last.\<close>

definition lines_step :: "'w posix \<Rightarrow> 'w hamlib \<Rightarrow> port \<Rightarrow> 'w \<Rightarrow> halt + port \<times> 'w" where
  "lines_step os hl pv w =
     (case os_ioctl_tiocmget os (pv_slave pv) w of (rc, bits) \<Rightarrow>
        if rc = -1 then Inl (Exited exit_fatal)
        else if bits = pv_bits pv then Inr (pv, w)
        else key_radio hl (pv\<lparr>pv_bits := bits\<rparr>) w)"

definition packet_step :: "'w posix \<Rightarrow> 'w hamlib \<Rightarrow> 8 word \<Rightarrow> port \<Rightarrow> 'w \<Rightarrow> halt + port \<times> 'w" where
  "packet_step os hl b pv w = (if b AND TIOCPKT_MSET = 0 then Inr (pv, w) else lines_step os hl pv w)"

text \<open>A pseudoterminal in packet mode sends status packets, which begin with a byte other than
  0; anything else that can be read is fatal.\<close>

definition read_step :: "'w posix \<Rightarrow> 'w hamlib \<Rightarrow> port \<Rightarrow> 'w \<Rightarrow> halt + port \<times> 'w" where
  "read_step os hl pv w =
     (case os_read os (pv_master pv) CONFIG_READ_SIZE w of ((did_read, bytes), w') \<Rightarrow>
        if did_read \<le> 0 then Inl (Exited exit_fatal)
        else case bytes of
          [] \<Rightarrow> Inl (Undefined OutOfBounds)
        | b # _ \<Rightarrow> if b = 0 then Inl (Exited exit_fatal) else packet_step os hl b pv w')"

definition port_step :: "'w posix \<Rightarrow> 'w hamlib \<Rightarrow> 64 word \<Rightarrow> port \<Rightarrow> 'w \<Rightarrow> halt + port \<times> 'w" where
  "port_step os hl events pv w =
     (if events AND PEVENT_READ \<noteq> 0 then read_step os hl pv w
      else if events AND PEVENT_PRIO \<noteq> 0 then Inl (Exited exit_fatal)
      else Inr (pv, w))"

definition agrees ::
  "('w, 'z) test_state_scheme \<Rightarrow> nat \<Rightarrow> (halt + unit) \<times> ('w, 'z) test_state_scheme \<Rightarrow>
   halt + port \<times> 'w \<Rightarrow> bool" where
  "agrees s c r out = (case out of
     Inl h \<Rightarrow> fst r = Inl h
   | Inr (pv, w) \<Rightarrow> \<exists>t. r = (Inr (), t) \<and> port_of t c = pv \<and> world t = w \<and> port_ok t c \<and>
       polls t = polls s \<and> live t = live s)"

lemma agrees_frame:
  assumes "polls s' = polls s" "live s' = live s"
  shows "agrees s' c r out = agrees s c r out"
  unfolding agrees_def assms by (rule refl)

lemma port_frame:
  fixes s t :: "('w, 'z) test_state_scheme"
  assumes "frame_log s t"
  shows "port_of t c = port_of s c" "port_ok t c = port_ok s c" "world t = world s"
  using frame_logD [OF assms] frame_log_later [OF assms]
  by (simp_all add: port_of_def port_ok_def)

lemma port_world [simp]:
  "port_of (s\<lparr>world := w\<rparr>) c = port_of s c" "port_ok (s\<lparr>world := w\<rparr>) c = port_ok s c"
  by (simp_all add: port_of_def port_ok_def)

lemma ready_vcontexts [simp]: "ready (s\<lparr>vcontexts := x\<rparr>) = ready s"
  by (simp add: ready_def heap_inv_def mem_ok_def del: readyD)

lemma port_okD:
  assumes "port_ok s c"
  shows "ready s" "message_buf s \<noteq> 0" "c \<in> live s" "c \<noteq> 0"
    "vc_vserial (vcontexts s c) \<in> live s" "vc_vserial (vcontexts s c) \<noteq> 0"
    "vc_driver (vcontexts s c) \<in> live s" "vc_driver (vcontexts s c) \<noteq> 0"
    "dr_cb (drivers s (vc_driver (vcontexts s c))) \<in> live s"
    "dr_cb (drivers s (vc_driver (vcontexts s c))) \<noteq> 0"
    "dr_user (drivers s (vc_driver (vcontexts s c))) \<in> live s"
    "cb_fc_changed (driver_cbs s (dr_cb (drivers s (vc_driver (vcontexts s c))))) = Some Update_flow_control"
  using assms live_nonzero unfolding port_ok_def by (blast, simp, blast+)

text \<open>The bits of the context are delivered to the radio.\<close>

lemma deliver_agrees:
  assumes "port_ok s c"
  shows "agrees s c (vserial_deliver_fc_changed (fc_call hl) c s) (key_radio hl (port_of s c) (world s))"
proof -
  note d = port_okD [OF assms]
  let ?driver = "vc_driver (vcontexts s c)"
  let ?lines = "control_lines_of (vc_modem_bits (vcontexts s c))"
  obtain rc w where w: "rig_set_ptt hl (tc_rig (tcontexts s (dr_user (drivers s ?driver))))
      (ptt_of (fc_rts ?lines)) (world s) = (rc, w)" by fastforce
  have eq: "vserial_deliver_fc_changed (fc_call hl) c s = update_flow_control hl ?driver ?lines s"
    using d by (simp add: vserial_deliver_fc_changed_def deref_def fc_call_def)
  have k: "key_radio hl (port_of s c) (world s) = (if rc = RIG_OK then Inr (port_of s c, w) else Inl (Exited exit_fatal))"
    using w by (simp add: key_radio_def port_of_def control_lines_of_def)
  show ?thesis
  proof (cases "rc = RIG_OK")
    case True
    then obtain t where t: "update_flow_control hl ?driver ?lines s = (Inr (), t)" "frame_log (s\<lparr>world := w\<rparr>) t"
      using update_flow_control_eq [OF d(1,7,11) w] by auto
    with True assms show ?thesis by (simp add: agrees_def k eq port_frame [OF t(2)] frame_logD [OF t(2)] frame_log_later [OF t(2)])
  next
    case False
    then show ?thesis
      using update_flow_control_eq [OF d(1,7,11) w] by (simp add: agrees_def k eq)
  qed
qed

lemma mset_agrees:
  assumes "port_ok s c"
  shows "agrees s c (vserial_handle_mset os (fc_call hl) c s) (lines_step os hl (port_of s c) (world s))"
proof -
  note d = port_okD [OF assms]
  obtain rc bits where b: "os_ioctl_tiocmget os (pv_slave (port_of s c)) (world s) = (rc, bits)" by fastforce
  then have b': "os_ioctl_tiocmget os (vp_fd (vs_slave (vserials s (vc_vserial (vcontexts s c))))) (world s) = (rc, bits)"
    by (simp add: port_of_def)
  have v: "context_vserial c s = (Inr (vserials s (vc_vserial (vcontexts s c))), s)"
    using d by (simp add: context_vserial_def deref_def gets_def)
  consider "rc = -1" | "rc \<noteq> -1" "bits = pv_bits (port_of s c)" | "rc \<noteq> -1" "bits \<noteq> pv_bits (port_of s c)" by blast
  then show ?thesis
  proof cases
    case 1
    then show ?thesis using d b b' v by (simp add: vserial_handle_mset_def lines_step_def agrees_def)
  next
    case 2
    have "vserial_handle_mset os (fc_call hl) c s = (Inr (), s)"
      using 2 b' v by (simp add: vserial_handle_mset_def port_of_def ret_def)
    then show ?thesis using 2 b assms by (simp add: lines_step_def agrees_def)
  next
    case 3
    let ?t = "s\<lparr>vcontexts := (vcontexts s)(c := (vcontexts s c)\<lparr>vc_modem_bits := bits\<rparr>)\<rparr>"
    have t: "port_ok ?t c" "port_of ?t c = (port_of s c)\<lparr>pv_bits := bits\<rparr>" "world ?t = world s"
      using assms by (simp_all add: port_ok_def port_of_def)
    have "vserial_handle_mset os (fc_call hl) c s = vserial_deliver_fc_changed (fc_call hl) c ?t"
      using 3 b' v by (simp add: vserial_handle_mset_def port_of_def)
    then show ?thesis
      using deliver_agrees [OF t(1), of hl] 3 b t(2,3) agrees_frame [of ?t s c]
      by (simp add: lines_step_def)
  qed
qed

section \<open>The poll callback\<close>

definition packet_traces :: "8 word \<Rightarrow> ('w, 'z, unit) test_prog" where
  "packet_traces status =
     seqE (log_trace ''handling status packet'')
     (seqE (whenE (status AND TIOCPKT_FLUSHREAD \<noteq> 0) (log_trace ''  FLUSHREAD''))
     (seqE (whenE (status AND TIOCPKT_FLUSHWRITE \<noteq> 0) (log_trace ''  FLUSHWRITE''))
     (seqE (whenE (status AND TIOCPKT_STOP \<noteq> 0) (log_trace ''  STOP''))
     (seqE (whenE (status AND TIOCPKT_START \<noteq> 0) (log_trace ''  START''))
     (seqE (whenE (status AND TIOCPKT_DOSTOP \<noteq> 0) (log_trace ''  DOSTOP''))
     (seqE (whenE (status AND TIOCPKT_NOSTOP \<noteq> 0) (log_trace ''  NOSTOP''))
     (seqE (whenE (status AND TIOCPKT_IOCTL \<noteq> 0) (log_trace ''  IOCTL''))
     (whenE (status AND TIOCPKT_MSET \<noteq> 0) (log_trace ''  MSET'')))))))))"

definition poll_traces :: "64 word \<Rightarrow> ('w, 'z, unit) test_prog" where
  "poll_traces events =
     seqE (log_debug (msg [''got poll event(s): '', show_nat (unat events)]))
     (seqE (whenE (events AND PEVENT_ERROR \<noteq> 0) (log_trace ''  ERROR''))
     (seqE (whenE (events AND PEVENT_READ \<noteq> 0) (log_trace ''  READ''))
     (seqE (whenE (events AND PEVENT_WRITE \<noteq> 0) (log_trace ''  WRITE''))
     (whenE (events AND PEVENT_PRIO \<noteq> 0) (log_trace ''  PRIORITY'')))))"

lemma quiet_traces: "quiet (packet_traces status)" "quiet (poll_traces events)"
  unfolding packet_traces_def poll_traces_def by (intro quiet_intros)+

lemma whenE_seqE: "whenE b (seqE m n) = seqE (whenE b m) (whenE b n)"
  by (cases b) simp_all

lemma handle_packet_split:
  "vserial_handle_packet os call_fc status c =
     seqE (packet_traces status) (whenE (status AND TIOCPKT_MSET \<noteq> 0) (vserial_handle_mset os call_fc c))"
  by (simp add: vserial_handle_packet_def packet_traces_def prog_assoc whenE_seqE)

lemma poll_cb_split:
  "vserial_poll_cb os call_fc poll events =
     seqE (poll_traces events)
     (seqE (whenE (events AND PEVENT_PRIO \<noteq> 0 \<and> events AND PEVENT_READ = 0)
              (util_fatal ''Got a PRIO event with out READ''))
     (whenE (events AND PEVENT_READ \<noteq> 0)
        (seqE (deref poll)
        (bindE (gets (\<lambda>s. rp_context (polls s poll))) (\<lambda>context.
         vserial_handle_read os call_fc context)))))"
  by (simp add: vserial_poll_cb_def poll_traces_def prog_assoc)

lemma after_quiet:
  fixes s :: "('w, 'z) test_state_scheme"
  assumes "quiet m" "port_ok s c" "\<And>t. frame_log s t \<Longrightarrow> port_ok t c \<Longrightarrow> agrees t c (n t) (f (port_of t c) (world t))"
  shows "agrees s c (seqE m n s) (f (port_of s c) (world s))"
proof -
  obtain t where t: "m s = (Inr (), t)" "frame_log s t"
    by (rule quietE [OF assms(1) port_okD(2) [OF assms(2)]])
  have "agrees t c (n t) (f (port_of t c) (world t))"
    by (rule assms(3) [OF t(2)]) (simp add: port_frame [OF t(2)] assms(2))
  then show ?thesis using t(1)
    by (simp add: port_frame [OF t(2)]
        agrees_frame [OF frame_log_later(4) [OF t(2)] frame_logD(6) [OF t(2)]])
qed

lemma packet_agrees:
  assumes "port_ok s c"
  shows "agrees s c (vserial_handle_packet os (fc_call hl) b c s) (packet_step os hl b (port_of s c) (world s))"
  unfolding handle_packet_split
proof (rule after_quiet [OF quiet_traces(1) assms])
  fix t :: "('a, 'b) test_state_scheme"
  assume t: "port_ok t c"
  show "agrees t c (whenE (b AND TIOCPKT_MSET \<noteq> 0) (vserial_handle_mset os (fc_call hl) c) t)
      (packet_step os hl b (port_of t c) (world t))"
    using mset_agrees [OF t, of os hl] t
    by (cases "b AND TIOCPKT_MSET = 0") (auto simp: packet_step_def agrees_def ret_def)
qed

lemma read_agrees:
  assumes "port_ok s c"
  shows "agrees s c (vserial_handle_read os (fc_call hl) c s) (read_step os hl (port_of s c) (world s))"
proof -
  note d = port_okD [OF assms]
  obtain n bytes w where r: "os_read os (pv_master (port_of s c)) CONFIG_READ_SIZE (world s) = ((n, bytes), w)"
    by (metis prod.collapse)
  then have r': "os_read os (vp_fd (vs_master (vserials s (vc_vserial (vcontexts s c))))) CONFIG_READ_SIZE (world s) = ((n, bytes), w)"
    by (simp add: port_of_def)
  have v: "context_vserial c s = (Inr (vserials s (vc_vserial (vcontexts s c))), s)"
    using d by (simp add: context_vserial_def deref_def gets_def)
  consider "n < 0" | "n = 0" | "0 < n" "bytes = []" | bs where "0 < n" "bytes = 0 # bs"
    | b bs where "0 < n" "bytes = b # bs" "b \<noteq> 0"
    using linorder_less_linear [of n 0] by (cases bytes) auto
  then show ?thesis
  proof cases
    case (5 b bs)
    let ?t = "log_msg log_level_debug (msg [''Got a status packet: '', show_nat (unat b)]) (s\<lparr>world := w\<rparr>)"
    have f: "frame_log (s\<lparr>world := w\<rparr>) ?t" by (rule frame_log_log)
    have "vserial_handle_read os (fc_call hl) c s = vserial_handle_packet os (fc_call hl) b c ?t"
      using 5 r' v d by (simp add: vserial_handle_read_def)
    moreover have "agrees ?t c (vserial_handle_packet os (fc_call hl) b c ?t) (packet_step os hl b (port_of s c) w)"
      using packet_agrees [of ?t c os hl b] assms by (simp add: port_frame [OF f])
    ultimately show ?thesis using 5 r
      using agrees_frame [of ?t s c] by (simp add: read_step_def)
  qed (use r r' v d in \<open>simp_all add: vserial_handle_read_def read_step_def agrees_def stop_def\<close>)
qed

lemma poll_agrees:
  assumes "port_ok s (rp_context (polls s poll))" "poll \<in> live s"
  shows "agrees s (rp_context (polls s poll)) (vserial_poll_cb os (fc_call hl) poll events s)
    (port_step os hl events (port_of s (rp_context (polls s poll))) (world s))"
  unfolding poll_cb_split
proof (rule after_quiet [OF quiet_traces(2) assms(1)])
  let ?c = "rp_context (polls s poll)"
  fix t assume f: "frame_log s t" and t: "port_ok t ?c"
  have p: "poll \<in> live t" "poll \<noteq> 0" "polls t = polls s"
    using assms(2) live_nonzero [OF port_okD(1) [OF assms(1)]] by (simp_all add: frame_logD [OF f] frame_log_later [OF f])
  show "agrees t ?c (seqE (whenE (events AND PEVENT_PRIO \<noteq> 0 \<and> events AND PEVENT_READ = 0)
              (util_fatal ''Got a PRIO event with out READ''))
     (whenE (events AND PEVENT_READ \<noteq> 0)
        (seqE (deref poll)
        (bindE (gets (\<lambda>s. rp_context (polls s poll))) (\<lambda>context.
         vserial_handle_read os (fc_call hl) context)))) t) (port_step os hl events (port_of t ?c) (world t))"
    using read_agrees [OF t, of os hl] t p port_okD(2) [OF t]
    by (cases "events AND PEVENT_READ = 0"; cases "events AND PEVENT_PRIO = 0")
      (simp_all add: port_step_def agrees_def deref_def ret_def)
qed

section \<open>Properties\<close>

text \<open>C5. The poll callback of a virtual port, together with the handler of the test module, is a
  step of the abstract port: it returns exactly when the abstract step has a successor, then
  with that successor's lines and outside state and with every structure intact, and otherwise
  it ends in the way the abstract step says. In particular the radio is keyed or unkeyed only
  when a status packet announces a change of the modem lines and they differ from before.\<close>

theorem poll_event_refines_port:
  assumes "port_ok s (rp_context (polls s poll))" "poll \<in> live s"
  shows "case port_step os hl events (port_of s (rp_context (polls s poll))) (world s) of
      Inl h \<Rightarrow> fst (vserial_poll_cb os (fc_call hl) poll events s) = Inl h
    | Inr (pv, w) \<Rightarrow> \<exists>t. vserial_poll_cb os (fc_call hl) poll events s = (Inr (), t) \<and>
        port_of t (rp_context (polls t poll)) = pv \<and> world t = w \<and>
        port_ok t (rp_context (polls t poll)) \<and> poll \<in> live t"
proof (cases "port_step os hl events (port_of s (rp_context (polls s poll))) (world s)")
  case (Inl h)
  then show ?thesis using poll_agrees [OF assms, of os hl events] by (simp add: agrees_def)
next
  case (Inr x)
  obtain pv w where x: "x = (pv, w)" by (cases x)
  obtain t where "vserial_poll_cb os (fc_call hl) poll events s = (Inr (), t)"
      "port_of t (rp_context (polls s poll)) = pv" "world t = w" "port_ok t (rp_context (polls s poll))"
      "polls t = polls s" "live t = live s"
    using poll_agrees [OF assms, of os hl events] unfolding agrees_def Inr x by auto
  with assms(2) Inr x show ?thesis by auto
qed

text \<open>What hamlib promises, over a view \<open>keyed\<close> of the outside state: after a successful
  \<open>rig_set_ptt\<close> the radio transmits exactly when asked to. Reading the terminal does not
  touch it.\<close>

definition rig_contract :: "'w posix \<Rightarrow> 'w hamlib \<Rightarrow> ('w \<Rightarrow> nat \<Rightarrow> bool) \<Rightarrow> bool" where
  "rig_contract os hl keyed \<longleftrightarrow>
     (\<forall>rig on w w'. rig_set_ptt hl rig (ptt_of on) w = (RIG_OK, w') \<longrightarrow> keyed w' rig = on) \<and>
     (\<forall>fd n w r w'. os_read os fd n w = (r, w') \<longrightarrow> keyed w' = keyed w)"

definition ptt_synced :: "('w \<Rightarrow> nat \<Rightarrow> bool) \<Rightarrow> port \<Rightarrow> 'w \<Rightarrow> bool" where
  "ptt_synced keyed pv w \<longleftrightarrow> keyed w (pv_rig pv) = (pv_bits pv AND TIOCM_RTS \<noteq> 0)"

lemma key_radio_synced:
  "rig_contract os hl keyed \<Longrightarrow> key_radio hl pv w = Inr (pv', w') \<Longrightarrow> ptt_synced keyed pv' w'"
  unfolding rig_contract_def ptt_synced_def key_radio_def
  by (auto split: prod.splits if_splits)

lemma port_step_synced:
  assumes "rig_contract os hl keyed" "ptt_synced keyed pv w" "port_step os hl events pv w = Inr (pv', w')"
  shows "ptt_synced keyed pv' w'"
proof -
  have r: "keyed w2 = keyed w1" if "os_read os fd n w1 = (r, w2)" for fd n r w1 w2
    using assms(1) that unfolding rig_contract_def by blast
  show ?thesis
    using assms(2,3) key_radio_synced [OF assms(1)]
    by (auto simp: port_step_def read_step_def packet_step_def lines_step_def ptt_synced_def
        dest: r split: if_splits prod.splits list.splits)
qed

text \<open>A port after its start-up: the first delivery of the lines, then any number of poll
  events.\<close>

fun poll_all :: "'w posix \<Rightarrow> ('w, 'z test_state_ext) fc_call \<Rightarrow> nat \<Rightarrow> 64 word list \<Rightarrow> ('w, 'z, unit) test_prog" where
  "poll_all os call_fc poll [] = ret ()"
| "poll_all os call_fc poll (e # es) = seqE (vserial_poll_cb os call_fc poll e) (poll_all os call_fc poll es)"

lemma poll_all_synced:
  assumes "rig_contract os hl keyed" "port_ok s (rp_context (polls s poll))" "poll \<in> live s"
    "ptt_synced keyed (port_of s (rp_context (polls s poll))) (world s)"
    "poll_all os (fc_call hl) poll es s = (Inr (), t)"
  shows "ptt_synced keyed (port_of t (rp_context (polls t poll))) (world t)"
  using assms(2-5)
proof (induction es arbitrary: s)
  case Nil
  then show ?case by (simp add: ret_def)
next
  case (Cons e es)
  let ?c = "rp_context (polls s poll)"
  from Cons.prems(4) obtain u where u: "vserial_poll_cb os (fc_call hl) poll e s = (Inr (), u)"
      "poll_all os (fc_call hl) poll es u = (Inr (), t)"
    by (auto simp: seqE_returns_iff)
  have ag: "agrees s ?c (Inr (), u) (port_step os hl e (port_of s ?c) (world s))"
    using poll_agrees [OF Cons.prems(1,2), of os hl e] u(1) by simp
  then obtain pv w where p: "port_step os hl e (port_of s ?c) (world s) = Inr (pv, w)"
    unfolding agrees_def by (auto split: sum.splits)
  then have f: "port_of u ?c = pv" "world u = w" "port_ok u ?c" "polls u = polls s" "live u = live s"
    using ag unfolding agrees_def by auto
  show ?case
    by (rule Cons.IH) (use f u(2) Cons.prems(2) port_step_synced [OF assms(1) Cons.prems(3) p] in simp_all)
qed

text \<open>C11. The radio follows the RTS line. From the first delivery of the lines on, and through any
  sequence of poll events that the program survives, the radio transmits exactly when the RTS
  bit was set the last time the lines were read.\<close>

theorem ptt_follows_rts:
  assumes "rig_contract os hl keyed" "port_ok s (rp_context (polls s poll))" "poll \<in> live s"
    and "seqE (vserial_deliver_fc_changed_cb (fc_call hl) True (rp_context (polls s poll)))
      (poll_all os (fc_call hl) poll es) s = (Inr (), t)"
  shows "ptt_synced keyed (port_of t (rp_context (polls t poll))) (world t)"
proof -
  let ?c = "rp_context (polls s poll)"
  obtain u where u: "vserial_deliver_fc_changed (fc_call hl) ?c s = (Inr (), u)"
      "poll_all os (fc_call hl) poll es u = (Inr (), t)"
    using assms(4) by (auto simp: seqE_returns_iff vserial_deliver_fc_changed_cb_def)
  have ag: "agrees s ?c (Inr (), u) (key_radio hl (port_of s ?c) (world s))"
    using deliver_agrees [OF assms(2), of hl] u(1) by simp
  then obtain pv w where k: "key_radio hl (port_of s ?c) (world s) = Inr (pv, w)"
    unfolding agrees_def by (auto split: sum.splits)
  then have f: "port_of u ?c = pv" "world u = w" "port_ok u ?c" "polls u = polls s" "live u = live s"
    using ag unfolding agrees_def by auto
  show ?thesis
    by (rule poll_all_synced [OF assms(1) _ _ _ u(2)])
      (use f assms(3) key_radio_synced [OF assms(1) k] in simp_all)
qed

section \<open>A small machine\<close>

text \<open>The outside state: which radios transmit, and the modem lines of every port. There is
  always a status packet to read that announces a change.\<close>

type_synonym line_world = "(nat \<Rightarrow> bool) \<times> 32 word"

definition line_posix :: "line_world posix" where
  "line_posix = \<lparr>
     os_readlink = (\<lambda>p n w. (-1, [])),
     os_fcntl_getfl = (\<lambda>fd w. 0),
     os_fcntl_setfl = (\<lambda>fd f w. (0, w)),
     os_openpty = (\<lambda>w. ((0, 3, 4, ''/dev/pts/3''), w)),
     os_ioctl_tiocpkt = (\<lambda>fd v w. (0, w)),
     os_tcgetattr = (\<lambda>fd w. (0, \<lparr>c_lflag = 0\<rparr>)),
     os_tcsetattr = (\<lambda>fd t w. (0, w)),
     os_ioctl_tiocmget = (\<lambda>fd w. (0, snd w)),
     os_read = (\<lambda>fd n w. ((1, [0x80]), w)),
     os_lstat = (\<lambda>p w. (-1, ENOENT, 0)),
     os_unlink = (\<lambda>p w. (0, w)),
     os_symlink = (\<lambda>a p w. (0, w))\<rparr>"

definition line_hamlib :: "line_world hamlib" where
  "line_hamlib = \<lparr>
     rig_init = (\<lambda>i w. (1, w)), rig_open = (\<lambda>r w. (0, w)), rig_close = (\<lambda>r w. w), rig_cleanup = (\<lambda>r w. w),
     rig_set_ptt = (\<lambda>r on w. (0, ((fst w)(r := on \<noteq> 0), snd w))),
     rig_pathname = (\<lambda>r p w. w), rigerror = (\<lambda>e. []), FILPATHLEN = 512\<rparr>"

text \<open>One port: its context at address 2, the terminal at 3, the driver at 4 with its callbacks
  at 5, the context of the module at 6 with the radio 1, and the poll handle at 7.\<close>

definition sample_test :: "'w \<Rightarrow> 'w test_state" where
  "sample_test w = vserial_state.extend (sample_vserial w) \<lparr>tcontexts = (\<lambda>_. \<lparr>tc_vserial = 4, tc_rig = 1\<rparr>)\<rparr>"

lemmas sample_test_defs = sample_test_def sample_vserial_defs vserial_state.defs

definition sample_port :: "'w \<Rightarrow> 'w test_state" where
  "sample_port w = (sample_test w)\<lparr>brk := 8, live := {1, 2, 3, 4, 5, 6, 7},
     polls := (\<lambda>_. \<lparr>rp_cb = Vserial_poll_cb, rp_context = 2, rp_private = 0\<rparr>),
     drivers := (\<lambda>_. \<lparr>dr_user = 6, dr_private = 2, dr_info = vserial_driver_info, dr_cb = 5, dr_status = 0\<rparr>),
     driver_cbs := (\<lambda>_. no_callbacks\<lparr>cb_fc_changed := Some Update_flow_control\<rparr>),
     vcontexts := (\<lambda>_. \<lparr>vc_driver = 4, vc_poll = 7, vc_vserial = 3, vc_modem_bits = 0\<rparr>)\<rparr>"

lemmas sample_port_defs = sample_port_def sample_test_defs no_callbacks_def

lemma sample_port_ok: "port_ok (sample_port w) 2" "rp_context (polls (sample_port w) 7) = 2"
    "7 \<in> live (sample_port w)"
  by (auto simp: sample_port_defs port_ok_def ready_def mem_ok_def heap_inv_def simp del: readyD)

lemmas line_defs = line_posix_def line_hamlib_def RIG_OK_def ptt_of_def RIG_PTT_ON_def RIG_PTT_OFF_def

lemma line_rig_contract: "rig_contract line_posix line_hamlib (\<lambda>w. fst w)"
  by (auto simp: rig_contract_def line_defs split: if_splits)

theorem poll_event_refines_port_witness:
  "\<exists>t. vserial_poll_cb line_posix (fc_call line_hamlib) 7 PEVENT_READ (sample_port (\<lambda>_. False, TIOCM_RTS)) = (Inr (), t) \<and>
    fst (world t) 1"
proof -
  let ?w = "(\<lambda>_. False, TIOCM_RTS) :: line_world"
  have "port_step line_posix line_hamlib PEVENT_READ (port_of (sample_port ?w) 2) ?w =
      Inr (\<lparr>pv_bits = TIOCM_RTS, pv_master = 3, pv_slave = 4, pv_rig = 1\<rparr>, ((\<lambda>_. False)(1 := True), TIOCM_RTS))"
    by (simp add: port_step_def read_step_def packet_step_def lines_step_def key_radio_def port_of_def
        line_defs sample_port_defs PEVENT_READ_def TIOCPKT_MSET_def TIOCM_RTS_def)
  moreover have "world (sample_port ?w) = ?w" by (simp add: sample_port_defs)
  ultimately show ?thesis
    using poll_event_refines_port [of "sample_port ?w" 7 line_posix line_hamlib PEVENT_READ] sample_port_ok [of ?w]
    by auto
qed

theorem ptt_follows_rts_witness:
  "\<exists>t. seqE (vserial_deliver_fc_changed_cb (fc_call line_hamlib) True 2)
      (poll_all line_posix (fc_call line_hamlib) 7 []) (sample_port (\<lambda>_. True, TIOCM_RTS)) = (Inr (), t) \<and>
    ptt_synced (\<lambda>w. fst w) (port_of t (rp_context (polls t 7))) (world t)"
proof -
  let ?w = "(\<lambda>_. True, TIOCM_RTS) :: line_world"
  let ?s = "sample_port ?w"
  have k: "key_radio line_hamlib (port_of ?s 2) ?w = Inr (port_of ?s 2, ((\<lambda>_. True)(1 := False), TIOCM_RTS))"
    by (simp add: key_radio_def port_of_def line_defs sample_port_defs)
  have w: "world ?s = ?w" by (simp add: sample_port_defs)
  obtain t where "vserial_deliver_fc_changed (fc_call line_hamlib) 2 ?s = (Inr (), t)"
    using deliver_agrees [OF sample_port_ok(1) [of ?w], of line_hamlib] unfolding w k by (auto simp: agrees_def)
  then have "seqE (vserial_deliver_fc_changed_cb (fc_call line_hamlib) True 2)
      (poll_all line_posix (fc_call line_hamlib) 7 []) ?s = (Inr (), t)"
    by (simp add: vserial_deliver_fc_changed_cb_def ret_def)
  then show ?thesis
    using ptt_follows_rts [OF line_rig_contract, of ?s 7 "[]" t] sample_port_ok [of ?w] by auto
qed

end
