(* ===== verification/Delivery.thy ===== *)
theory Delivery
  imports App Modem_Lines
begin

text \<open>
  The jobs of the run loop that tell the users of the virtual ports about the modem lines: one
  pass of the prepare handler (\<^verbatim>\<open>src/runloop.c\<close>) over jobs that
  \<open>vserial_lifecycle_init\<close> has scheduled. The interface \<open>job_bodies\<close> of the queue is
  interpreted for the code behind these jobs.
\<close>

definition rig_works :: "'w hamlib \<Rightarrow> bool" where
  "rig_works hl \<longleftrightarrow> (\<forall>rig on w. fst (rig_set_ptt hl rig on w) = RIG_OK)"

text \<open>The outside state after the lines of the ports at \<open>cs\<close> have been delivered in this
  order.\<close>

definition deliver_one :: "'w hamlib \<Rightarrow> port \<Rightarrow> 'w \<Rightarrow> 'w" where
  "deliver_one hl pv w = snd (rig_set_ptt hl (pv_rig pv) (ptt_of (pv_bits pv AND TIOCM_RTS \<noteq> 0)) w)"

fun deliver_all :: "'w hamlib \<Rightarrow> (nat \<Rightarrow> port) \<Rightarrow> nat list \<Rightarrow> 'w \<Rightarrow> 'w" where
  "deliver_all hl ports [] w = w"
| "deliver_all hl ports (c # cs) w = deliver_all hl ports cs (deliver_one hl (ports c) w)"

lemma deliver_all_append:
  "deliver_all hl ports (cs @ ds) w = deliver_all hl ports ds (deliver_all hl ports cs w)"
  by (induction cs arbitrary: w) simp_all

lemma deliver_frame:
  fixes s :: "('w, 'z) test_state_scheme"
  assumes "port_ok s c" "rig_works hl"
  shows "\<exists>t. vserial_deliver_fc_changed (fc_call hl) c s = (Inr (), t) \<and>
    frame_log (s\<lparr>world := deliver_one hl (port_of s c) (world s)\<rparr>) t"
proof -
  note d = port_okD [OF assms(1)]
  let ?driver = "vc_driver (vcontexts s c)" and ?lines = "control_lines_of (vc_modem_bits (vcontexts s c))"
  have "rig_set_ptt hl (tc_rig (tcontexts s (dr_user (drivers s ?driver)))) (ptt_of (fc_rts ?lines)) (world s) =
      (RIG_OK, deliver_one hl (port_of s c) (world s))"
    using assms(2) by (simp add: rig_works_def deliver_one_def port_of_def control_lines_of_def prod_eq_iff)
  from update_flow_control_eq [OF d(1,7,11) this]
  have "\<exists>t. update_flow_control hl ?driver ?lines s = (Inr (), t) \<and>
      frame_log (s\<lparr>world := deliver_one hl (port_of s c) (world s)\<rparr>) t" by simp
  moreover have "vserial_deliver_fc_changed (fc_call hl) c s = update_flow_control hl ?driver ?lines s"
    using d by (simp add: vserial_deliver_fc_changed_def deref_def fc_call_def)
  ultimately show ?thesis by simp
qed

text \<open>The addresses that the delivery to the port at \<open>c\<close> looks at.\<close>

definition port_blocks :: "('w, 'z) test_state_scheme \<Rightarrow> nat \<Rightarrow> nat set" where
  "port_blocks s c = {c, vc_vserial (vcontexts s c), vc_driver (vcontexts s c),
     dr_cb (drivers s (vc_driver (vcontexts s c))), dr_user (drivers s (vc_driver (vcontexts s c)))}"

text \<open>The structures of the ports are those of \<open>s0\<close>.\<close>

definition same_ports :: "('w, 'z) test_state_scheme \<Rightarrow> ('w, 'z) test_state_scheme \<Rightarrow> bool" where
  "same_ports s0 s \<longleftrightarrow> vcontexts s = vcontexts s0 \<and> vserials s = vserials s0 \<and> drivers s = drivers s0 \<and>
     driver_cbs s = driver_cbs s0 \<and> tcontexts s = tcontexts s0"

lemma same_portsD:
  assumes "same_ports s0 s"
  shows "port_of s c = port_of s0 c" "port_blocks s c = port_blocks s0 c"
    "port_ok s c \<longleftrightarrow> ready s \<and> port_blocks s0 c \<subseteq> live s \<and>
      cb_fc_changed (driver_cbs s0 (dr_cb (drivers s0 (vc_driver (vcontexts s0 c))))) = Some Update_flow_control"
  using assms by (auto simp: same_ports_def port_of_def port_blocks_def port_ok_def)

definition deliver_job :: "nat \<Rightarrow> callback run_once_private" where
  "deliver_job c = the_job Vserial_deliver_fc_changed_cb c"

text \<open>The jobs that the ports have scheduled, and what holds while they run.\<close>

definition port_job :: "('w, 'z) test_state_scheme \<Rightarrow> nat set \<Rightarrow> callback run_once_private \<Rightarrow> bool" where
  "port_job s0 keep j \<longleftrightarrow> j = deliver_job (ro_context j) \<and> port_blocks s0 (ro_context j) \<subseteq> keep \<and>
     cb_fc_changed (driver_cbs s0 (dr_cb (drivers s0 (vc_driver (vcontexts s0 (ro_context j)))))) =
       Some Update_flow_control"

definition delivering ::
  "'w environment \<Rightarrow> 'w app_state \<Rightarrow> nat set \<Rightarrow> callback run_once_private list \<Rightarrow> 'w app_state \<Rightarrow> bool" where
  "delivering env s0 keep past s \<longleftrightarrow> rig_works (e_hl env) \<and> same_ports s0 s \<and> keep \<subseteq> live s \<and>
     world s = deliver_all (e_hl env) (port_of s0) (map ro_context past) (world s0)"

lemma frame_queue_off:
  fixes s t :: "('w, 'z) test_state_scheme"
  assumes "frame_log s t"
  shows "queue_off keep t p js = queue_off keep s p js"
  using frame_logD [OF assms] frame_log_later [OF assms]
  by (simp add: queue_off_def nodes_rep_def node_runs_def node_jobs_def)

lemma world_queue_off [simp]: "queue_off keep (s\<lparr>world := w\<rparr>) p js = queue_off keep s p js"
  by (simp add: queue_off_def nodes_rep_def node_runs_def node_jobs_def)

lemma same_ports_frame:
  assumes "same_ports s0 s" "frame_log (s\<lparr>world := w\<rparr>) t"
  shows "same_ports s0 t"
proof -
  have "vserials t = vserials s" using frame_log_later(6) [OF assms(2)] by simp
  with assms(1) frame_log_later [OF assms(2)] show ?thesis by (simp add: same_ports_def)
qed

lemma port_job_runs:
  assumes d: "delivering env s0 keep past s" and "ready s" and j: "port_job s0 keep j"
    and q: "queue_off keep s p js"
  shows "\<exists>t. job_call env (ro_cb j) (ro_should_run j) (ro_context j) s = (Inr (), t) \<and>
    delivering env s0 keep (past @ [j]) t \<and> ready t \<and> queue_off keep t p js"
proof -
  let ?c = "ro_context j"
  have i: "rig_works (e_hl env)" "same_ports s0 s" "keep \<subseteq> live s"
    "world s = deliver_all (e_hl env) (port_of s0) (map ro_context past) (world s0)"
    using d by (auto simp: delivering_def)
  have "port_ok s ?c"
    using i(3) j assms(2) by (auto simp: same_portsD [OF i(2)] port_job_def)
  from deliver_frame [OF this i(1)] obtain t where
    t: "vserial_deliver_fc_changed (fc_call (e_hl env)) ?c s = (Inr (), t)"
      "frame_log (s\<lparr>world := deliver_one (e_hl env) (port_of s ?c) (world s)\<rparr>) t" by blast
  have job: "ro_cb j = Vserial_deliver_fc_changed_cb" "ro_should_run j"
    using j by (metis deliver_job_def port_job_def run_once_private.select_convs the_job_def)+
  have "job_call env (ro_cb j) (ro_should_run j) ?c s = (Inr (), t)"
    using t(1) by (simp add: job_call_def job vserial_deliver_fc_changed_cb_def)
  moreover have "delivering env s0 keep (past @ [j]) t"
    using i same_ports_frame [OF i(2) t(2)] frame_logD [OF t(2)]
    by (simp add: delivering_def deliver_all_append same_portsD [OF i(2)])
  moreover have "ready t" "queue_off keep t p js"
    using assms(2) q frame_logD(10) [OF t(2)] by (simp_all add: frame_queue_off [OF t(2)])
  ultimately show ?thesis by blast
qed

lemma delivering_release:
  assumes "delivering env s0 keep past s" "p \<notin> keep" "rl_run (ro_list s p) \<notin> keep"
  shows "delivering env s0 keep past (release_upd p s)"
  using assms by (auto simp: delivering_def release_upd_def Let_def same_ports_def log_upd_def)

interpretation delivery: job_bodies "job_call env" "\<lambda>_. []" keep "port_job s0 keep" "delivering env s0 keep"
  for env :: "'w environment" and keep :: "nat set" and s0 :: "'w app_state"
proof
  show "\<exists>t. job_call env (ro_cb j) (ro_should_run j) (ro_context j) s = (Inr (), t) \<and>
      delivering env s0 keep (past @ [j]) t \<and> ready t \<and> queue_off keep t p (j # js @ [])"
    if "delivering env s0 keep past s" "ready s" "port_job s0 keep j" "queue_off keep s p (j # js)"
    for past s j p js
    using port_job_runs [OF that] by simp
  show "delivering env s0 keep past (release_upd p s)"
    if "delivering env s0 keep past s" "p \<notin> keep" "rl_run (ro_list s p) \<notin> keep" for past s p
    by (rule delivering_release [OF that])
qed simp

section \<open>Properties\<close>


text \<open>The sample port with its job in the queue, and a radio that can be keyed.\<close>

definition keyed_env :: "(nat \<Rightarrow> bool) table_world environment" where
  "keyed_env = idle_env\<lparr>e_hl := idle_hamlib
     \<lparr>rig_set_ptt := (\<lambda>r on w. (RIG_OK, (fst w, (snd w)(r := on \<noteq> 0))))\<rparr>\<rparr>"

definition sample_delivery :: "(nat \<Rightarrow> bool) table_world test_state" where
  "sample_delivery = (sample_port (no_handles (\<lambda>_. False)))\<lparr>brk := 10, live := {1, 2, 3, 4, 5, 6, 7, 8, 9},
     run_once_queue := 8, run_once_last := 8,
     ro_list := (\<lambda>_. \<lparr>rl_run = 9, rl_next = 0\<rparr>), ro_jobs := (\<lambda>_. deliver_job 2),
     vcontexts := (\<lambda>_. \<lparr>vc_driver = 4, vc_poll = 7, vc_vserial = 3, vc_modem_bits = TIOCM_RTS\<rparr>)\<rparr>"

lemmas sample_delivery_defs = sample_delivery_def sample_port_defs

lemma sample_delivery_ok:
  "ready sample_delivery" "port_ok sample_delivery 2"
  "queue_off (port_blocks sample_delivery 2) sample_delivery 8 [deliver_job 2]"
proof -
  show "ready sample_delivery"
    by (simp add: sample_delivery_defs ready_def mem_ok_def heap_inv_def del: readyD)
  then show "port_ok sample_delivery 2"
    by (simp add: port_ok_def) (simp add: sample_delivery_defs)
  have "nodes_rep sample_delivery 8 [8] [deliver_job 2]"
    by (simp add: nodes_rep_def node_runs_def node_jobs_def) (simp add: sample_delivery_defs)
  moreover have "set ([8] @ node_runs sample_delivery [8]) \<inter> port_blocks sample_delivery 2 = {}"
    by (simp add: node_runs_def port_blocks_def) (simp add: sample_delivery_defs)
  ultimately show "queue_off (port_blocks sample_delivery 2) sample_delivery 8 [deliver_job 2]"
    unfolding queue_off_def by (intro conjI exI [of _ "[8]"]) (simp_all add: sample_delivery_defs)
qed


end
