(* ===== verification/Vserial_Link.thy ===== *)
theory Vserial_Link
  imports Vserial
begin

text \<open>
  What \<open>vserial_manage_symlink\<close> does to the file system, over a view of the outside state as
  a map from paths to entries. \<open>fs_contract\<close> is what POSIX says of the four system calls; each
  of them may also fail and then changes nothing.
\<close>

datatype entry = No_file | Link_to string | Other_file

definition lstat_contract :: "'w posix \<Rightarrow> ('w \<Rightarrow> string \<Rightarrow> entry) \<Rightarrow> bool" where
  "lstat_contract os fs \<longleftrightarrow>
     (\<forall>p w rc err mode. os_lstat os p w = (rc, err, mode) \<longrightarrow>
        (rc \<noteq> 0 \<longrightarrow> err = ENOENT \<longrightarrow> fs w p = No_file) \<and>
        (rc = 0 \<longrightarrow> fs w p \<noteq> No_file \<and> (mode AND 0xF000 = S_IFLNK \<longleftrightarrow> fs w p \<noteq> Other_file)))"

definition link_read_contract :: "'w posix \<Rightarrow> ('w \<Rightarrow> string \<Rightarrow> entry) \<Rightarrow> bool" where
  "link_read_contract os fs \<longleftrightarrow>
     (\<forall>p n w sz t. os_readlink os p n w = (sz, t) \<longrightarrow>
        sz = -1 \<or> (\<exists>l. fs w p = Link_to l \<and> t = take n l \<and> sz = int (length t)))"

definition unlink_contract :: "'w posix \<Rightarrow> ('w \<Rightarrow> string \<Rightarrow> entry) \<Rightarrow> bool" where
  "unlink_contract os fs \<longleftrightarrow>
     (\<forall>p w rc w'. os_unlink os p w = (rc, w') \<longrightarrow>
        fs w' = (if rc = 0 then (fs w)(p := No_file) else fs w))"

definition symlink_contract :: "'w posix \<Rightarrow> ('w \<Rightarrow> string \<Rightarrow> entry) \<Rightarrow> bool" where
  "symlink_contract os fs \<longleftrightarrow>
     (\<forall>a p w rc w'. os_symlink os a p w = (rc, w') \<longrightarrow>
        (if rc = 0 then fs w p = No_file \<and> fs w' = (fs w)(p := Link_to a) else fs w' = fs w))"

definition fs_contract :: "'w posix \<Rightarrow> ('w \<Rightarrow> string \<Rightarrow> entry) \<Rightarrow> bool" where
  "fs_contract os fs \<longleftrightarrow> lstat_contract os fs \<and> link_read_contract os fs \<and>
     unlink_contract os fs \<and> symlink_contract os fs"

lemma lstat_absent:
  "fs_contract os fs \<Longrightarrow> os_lstat os p w = (rc, ENOENT, mode) \<Longrightarrow> rc \<noteq> 0 \<Longrightarrow> fs w p = No_file"
  unfolding fs_contract_def lstat_contract_def by blast

text \<open>The test of the code is a test of single bits, which a regular file passes too; what it
  tells is only that a file that fails it is no symbolic link.\<close>

lemma lstat_no_link:
  assumes "fs_contract os fs" "os_lstat os p w = (0, err, mode)" "mode AND S_IFLNK = 0"
  shows "fs w p = Other_file"
proof -
  have "mode AND 0xF000 \<noteq> S_IFLNK"
  proof
    assume a: "mode AND 0xF000 = S_IFLNK"
    have "S_IFLNK = (mode AND 0xF000) AND S_IFLNK" unfolding a by simp
    also have "\<dots> = (mode AND S_IFLNK) AND 0xF000" by (simp only: and.assoc and.commute)
    finally show False using assms(3) by (simp add: S_IFLNK_def)
  qed
  with assms(1,2) show ?thesis
    unfolding fs_contract_def lstat_contract_def by blast
qed

lemma readlink_is_link:
  "fs_contract os fs \<Longrightarrow> os_readlink os p n w = (sz, t) \<Longrightarrow> sz \<noteq> -1 \<Longrightarrow>
   \<exists>l. fs w p = Link_to l \<and> t = take n l \<and> sz = int (length t)"
  unfolding fs_contract_def link_read_contract_def by blast

lemma unlink_effect:
  "fs_contract os fs \<Longrightarrow> os_unlink os p w = (rc, w') \<Longrightarrow>
   fs w' = (if rc = 0 then (fs w)(p := No_file) else fs w)"
  unfolding fs_contract_def unlink_contract_def by blast

lemma symlink_effect:
  "fs_contract os fs \<Longrightarrow> os_symlink os a p w = (rc, w') \<Longrightarrow>
   (if rc = 0 then fs w p = No_file \<and> fs w' = (fs w)(p := Link_to a) else fs w' = fs w)"
  unfolding fs_contract_def symlink_contract_def by blast

lemma link_target_of_link:
  assumes "fs_contract os fs"
  shows "\<exists>r. util_get_link_target os p s = (Inr r, s) \<and>
    (\<forall>t. r = Some t \<longrightarrow> (\<exists>l. fs (world s) p = Link_to l \<and> t = take PATH_MAX l))"
proof (cases "os_readlink os p PATH_MAX (world s)")
  case (Pair sz t)
  then show ?thesis
    using readlink_is_link [OF assms Pair]
    by (cases "sz = -1") (auto simp: util_get_link_target_def ret_def min_def split: if_splits)
qed

text \<open>What is to be shown of a part of the operation that starts with the files \<open>f\<close>.\<close>

definition link_outcome ::
  "('w \<Rightarrow> string \<Rightarrow> entry) \<Rightarrow> string \<Rightarrow> string \<Rightarrow> (string \<Rightarrow> entry) \<Rightarrow>
   (halt + unit) \<times> ('w, 'z) vserial_state_scheme \<Rightarrow> bool" where
  "link_outcome fs target slave f r = (case r of
     (Inr _, t) \<Rightarrow> fs (world t) = f(target := Link_to slave)
   | (Inl h, t) \<Rightarrow> h = Exited exit_fatal \<and> (fs (world t) = f \<or> fs (world t) = f(target := No_file)))"

lemma create_outcome:
  assumes "fs_contract os fs" "message_buf u \<noteq> 0" "fs (world u) = f \<or> fs (world u) = f(target := No_file)"
  shows "link_outcome fs target slave f
    (seqE (log_debug m) (bindE (syscall (os_symlink os slave target)) (\<lambda>rc. whenE (rc \<noteq> 0) (util_fatal e))) u)"
proof -
  obtain rc w where w: "os_symlink os slave target (world u) = (rc, w)" by fastforce
  from symlink_effect [OF assms(1) w] assms(2,3) w show ?thesis
    by (cases "rc = 0") (auto simp: link_outcome_def ret_def)
qed

lemma manage_symlink_outcome:
  assumes c: "fs_contract os fs" and m: "message_buf s \<noteq> 0" and l: "length slave < PATH_MAX"
  shows "link_outcome fs target slave (fs (world s)) (vserial_manage_symlink os target slave s) \<and>
    (fs (world s) target = Other_file \<longrightarrow>
       (\<exists>t. vserial_manage_symlink os target slave s = (Inl (Exited exit_fatal), t) \<and>
         fs (world t) = fs (world s)))"
proof -
  obtain rc err mode where st: "os_lstat os target (world s) = (rc, err, mode)" by (metis prod.collapse)
  obtain r where r: "util_get_link_target os target s = (Inr r, s)"
    "\<And>t. r = Some t \<Longrightarrow> \<exists>l. fs (world s) target = Link_to l \<and> t = take PATH_MAX l"
    using link_target_of_link [OF c] by blast
  consider (absent) "rc \<noteq> 0" "err = ENOENT" | (error) "rc \<noteq> 0" "err \<noteq> ENOENT"
    | (refused) "rc = 0" "mode AND S_IFLNK = 0" | (unread) "rc = 0" "mode AND S_IFLNK \<noteq> 0" "r = None"
    | (link) t where "rc = 0" "mode AND S_IFLNK \<noteq> 0" "r = Some t"
    by fastforce
  then show ?thesis
  proof cases
    case absent
    then have "fs (world s) target = No_file" using lstat_absent [OF c] st by blast
    then show ?thesis
      using create_outcome [OF c m] st absent by (simp add: vserial_manage_symlink_def)
  next
    case error
    then show ?thesis using st m by (simp add: vserial_manage_symlink_def link_outcome_def)
  next
    case refused
    then show ?thesis using st m by (simp add: vserial_manage_symlink_def link_outcome_def)
  next
    case unread
    then show ?thesis using st m r(1) by (simp add: vserial_manage_symlink_def link_outcome_def)
  next
    case (link t)
    then obtain x where x: "fs (world s) target = Link_to x" "t = take PATH_MAX x" using r(2) by blast
    let ?a = "msg [''symlink '', target, '' -> '', t]"
    let ?b = "msg [''  symlink: need to update to point at '', slave]"
    let ?s = "log_msg log_level_debug ?a s"
    show ?thesis
    proof (cases "slave = t")
      case True
      then have "slave = x" using x(2) l by (cases "length x < PATH_MAX") auto
      moreover have "vserial_manage_symlink os target slave s = (Inr (), ?s)"
        using st m r(1) link True by (simp add: vserial_manage_symlink_def ret_def)
      ultimately show ?thesis using x(1) by (auto simp: link_outcome_def)
    next
      case False
      obtain rc' w where u: "os_unlink os target (world s) = (rc', w)" by fastforce
      let ?u = "(log_msg log_level_debug ?b ?s)\<lparr>world := w\<rparr>"
      have w: "fs (world ?u) = (if rc' = 0 then (fs (world s))(target := No_file) else fs (world s))"
        using unlink_effect [OF c u] by simp
      show ?thesis
      proof (cases "rc' = 0")
        case True
        have "link_outcome fs target slave (fs (world s)) (vserial_manage_symlink os target slave s)"
          using create_outcome [OF c, of ?u "fs (world s)" target] st m r(1) link False u True w
          by (simp add: vserial_manage_symlink_def prog_assoc)
        then show ?thesis using x(1) by simp
      next
        case nz: False
        have "\<exists>t. vserial_manage_symlink os target slave s = (Inl (Exited exit_fatal), t) \<and> fs (world t) = fs (world s)"
          using st m r(1) link False u nz w by (simp add: vserial_manage_symlink_def)
        then show ?thesis by (auto simp: link_outcome_def)
      qed
    qed
  qed
qed

section \<open>Properties\<close>

text \<open>C15. Making the symbolic link never destroys a file. When the call returns, the target is a
  link to the slave side and no other path has changed; when the target was a file of another
  kind, the program ends with the fatal status and no path has changed at all; and in every
  other failure it ends with the fatal status, at most the old link being gone.\<close>

theorem manage_symlink_safe:
  assumes "fs_contract os fs" "message_buf s \<noteq> 0" "length slave < PATH_MAX"
  shows "case vserial_manage_symlink os target slave s of
      (Inr _, t) \<Rightarrow> fs (world t) = (fs (world s))(target := Link_to slave) \<and>
        fs (world s) target \<noteq> Other_file
    | (Inl h, t) \<Rightarrow> h = Exited exit_fatal \<and>
        (fs (world t) = fs (world s) \<or>
         fs (world s) target \<noteq> Other_file \<and> fs (world t) = (fs (world s))(target := No_file))"
  using manage_symlink_outcome [OF assms, of target]
  by (cases "fs (world s) target = Other_file") (auto simp: link_outcome_def split: prod.splits sum.splits)

text \<open>A machine whose outside state is its file system.\<close>

definition link_posix :: "(string \<Rightarrow> entry) posix" where
  "link_posix = \<lparr>
     os_readlink = (\<lambda>p n w. case w p of Link_to l \<Rightarrow> (int (length (take n l)), take n l) | _ \<Rightarrow> (-1, [])),
     os_fcntl_getfl = (\<lambda>fd w. 0),
     os_fcntl_setfl = (\<lambda>fd f w. (0, w)),
     os_openpty = (\<lambda>w. ((0, 3, 4, ''/dev/pts/3''), w)),
     os_ioctl_tiocpkt = (\<lambda>fd v w. (0, w)),
     os_tcgetattr = (\<lambda>fd w. (0, \<lparr>c_lflag = 0\<rparr>)),
     os_tcsetattr = (\<lambda>fd t w. (0, w)),
     os_ioctl_tiocmget = (\<lambda>fd w. (0, 0)),
     os_read = (\<lambda>fd n w. ((1, [0x80]), w)),
     os_lstat = (\<lambda>p w. case w p of No_file \<Rightarrow> (-1, ENOENT, 0) | Link_to _ \<Rightarrow> (0, 0, 0xA1FF) | Other_file \<Rightarrow> (0, 0, 0x81A4)),
     os_unlink = (\<lambda>p w. (0, w(p := No_file))),
     os_symlink = (\<lambda>a p w. if w p = No_file then (0, w(p := Link_to a)) else (-1, w))\<rparr>"

lemma link_posix_ok: "fs_contract link_posix (\<lambda>w. w)"
  unfolding fs_contract_def
proof (intro conjI)
  show "lstat_contract link_posix (\<lambda>w. w)"
    unfolding lstat_contract_def by (auto simp: link_posix_def S_IFLNK_def split: entry.splits)
  show "link_read_contract link_posix (\<lambda>w. w)"
    unfolding link_read_contract_def by (auto simp: link_posix_def split: entry.splits)
  show "unlink_contract link_posix (\<lambda>w. w)"
    unfolding unlink_contract_def by (auto simp: link_posix_def)
  show "symlink_contract link_posix (\<lambda>w. w)"
    unfolding symlink_contract_def by (auto simp: link_posix_def)
qed

theorem manage_symlink_safe_witness:
  "fst (vserial_manage_symlink link_posix ''tty'' ''/dev/pts/3'' (sample_vserial (\<lambda>_. Other_file))) =
    Inl (Exited exit_fatal)"
  using manage_symlink_safe [OF link_posix_ok, of "sample_vserial (\<lambda>_. Other_file)" "''/dev/pts/3''" "''tty''"]
  by (auto simp: sample_vserial_defs PATH_MAX_def split: prod.splits sum.splits)

end
