(* ===== verification/Wp.thy ===== *)
theory Wp
  imports Prelude
begin

text \<open>
  Weakest preconditions for programs of the monad: \<open>wp m Q E s\<close> says that \<open>m\<close>, started in
  \<open>s\<close>, returns in a state that satisfies \<open>Q\<close> or halts in one that satisfies \<open>E\<close>. The
  equations compute it along a program, the rule \<open>wp_mono\<close> puts in what is known of a call.
\<close>

definition wp :: "('s, 'a) prog \<Rightarrow> ('a \<Rightarrow> 's \<Rightarrow> bool) \<Rightarrow> (halt \<Rightarrow> 's \<Rightarrow> bool) \<Rightarrow> 's \<Rightarrow> bool" where
  "wp m Q E s = (case m s of (Inl h, t) \<Rightarrow> E h t | (Inr x, t) \<Rightarrow> Q x t)"

named_theorems wp_simps \<open>computation of weakest preconditions\<close>

lemma wp_ret [wp_simps]: "wp (ret x) Q E s = Q x s"
  by (simp add: wp_def ret_def)

lemma wp_stop [wp_simps]: "wp (stop h) Q E s = E h s"
  by (simp add: wp_def stop_def)

lemma wp_gets [wp_simps]: "wp (gets f) Q E s = Q (f s) s"
  by (simp add: wp_def gets_def)

lemma wp_modify [wp_simps]: "wp (modify f) Q E s = Q () (f s)"
  by (simp add: wp_def modify_def)

lemma wp_bindE [wp_simps]: "wp (bindE m f) Q E s = wp m (\<lambda>x. wp (f x) Q E) E s"
  by (simp add: wp_def bindE_def split: prod.splits sum.splits)

lemma wp_seqE [wp_simps]: "wp (seqE m n) Q E s = wp m (\<lambda>_. wp n Q E) E s"
  by (simp add: seqE_def wp_bindE)

lemma wp_if [wp_simps]: "wp (if b then m else n) Q E s = (if b then wp m Q E s else wp n Q E s)"
  by simp

lemma wp_whenE [wp_simps]: "wp (whenE b m) Q E s = (if b then wp m Q E s else Q () s)"
  by (simp add: whenE_def wp_ret)

lemma wp_mono:
  "wp m Q E s \<Longrightarrow> (\<And>x t. Q x t \<Longrightarrow> Q' x t) \<Longrightarrow> (\<And>h t. E h t \<Longrightarrow> E' h t) \<Longrightarrow> wp m Q' E' s"
  by (auto simp: wp_def split: prod.splits sum.splits)

lemma wp_eq: "m s = (Inr x, t) \<Longrightarrow> wp m Q E s = Q x t"
  by (simp add: wp_def)

lemma wp_returns: "wp m Q E s \<Longrightarrow> m s = (Inr x, t) \<Longrightarrow> Q x t"
  by (simp add: wp_def)

lemma wp_halts: "wp m Q E s \<Longrightarrow> m s = (Inl h, t) \<Longrightarrow> E h t"
  by (simp add: wp_def)

end
