(* ===== verification/Toml_Heap.thy ===== *)
theory Toml_Heap
  imports Toml_Parse Wp
begin

text \<open>
  What the parser of \<^verbatim>\<open>src/external/toml.c\<close> builds: a tree of tables and arrays in which every
  structure is allocated and hangs in one place, every entry of a table has a key and no two
  entries have the same one, and the elements of an array are of its kind. The lemmas say that
  the primitive changes of the store keep this.

  The sets \<open>T\<close> and \<open>A\<close> are the tables and arrays of the tree, \<open>r\<close> is its root and \<open>L\<close> is
  the store from before the parser was called; new structures are allocated behind all old ones.
\<close>

fun elem_ptrs :: "toml_elem list \<Rightarrow> nat list" where
  "elem_ptrs [] = []"
| "elem_ptrs (E_val v # es) = elem_ptrs es"
| "elem_ptrs (E_arr p # es) = p # elem_ptrs es"
| "elem_ptrs (E_tab p # es) = p # elem_ptrs es"

text \<open>The structures that hang below a table or an array.\<close>

definition kids :: "nat set \<Rightarrow> 'z toml_mem_scheme \<Rightarrow> nat \<Rightarrow> nat list" where
  "kids T m p = (if p \<in> T then tab_arr (t_tables m p) @ tab_tab (t_tables m p)
                 else elem_ptrs (arr_elems (t_arrays m p)))"

definition tab_wf :: "nat set \<Rightarrow> nat set \<Rightarrow> 'z toml_mem_scheme \<Rightarrow> nat \<Rightarrow> bool" where
  "tab_wf T A m p \<longleftrightarrow>
     (\<forall>q \<in> set (tab_arr (t_tables m p)). q \<in> A \<and> p < q \<and> arr_key (t_arrays m q) \<noteq> None) \<and>
     (\<forall>q \<in> set (tab_tab (t_tables m p)). q \<in> T \<and> p < q \<and> tab_key (t_tables m q) \<noteq> None) \<and>
     distinct (table_keys m p)"

definition elem_wf :: "nat set \<Rightarrow> nat set \<Rightarrow> nat \<Rightarrow> char \<Rightarrow> toml_elem \<Rightarrow> bool" where
  "elem_wf T A p k e = (case e of
     E_val v \<Rightarrow> k = CHR ''v''
   | E_arr q \<Rightarrow> k = CHR ''a'' \<and> q \<in> A \<and> p < q
   | E_tab q \<Rightarrow> k = CHR ''t'' \<and> q \<in> T \<and> p < q)"

definition arr_wf :: "nat set \<Rightarrow> nat set \<Rightarrow> 'z toml_mem_scheme \<Rightarrow> nat \<Rightarrow> bool" where
  "arr_wf T A m p \<longleftrightarrow>
     (\<forall>e \<in> set (arr_elems (t_arrays m p)). elem_wf T A p (arr_kind (t_arrays m p)) e) \<and>
     distinct (elem_ptrs (arr_elems (t_arrays m p)))"

text \<open>Allocated is what \<open>L\<close> and the tree have, and nothing more unless an allocation may have
  failed.\<close>

definition alloc_wf :: "toml_mem \<Rightarrow> nat set \<Rightarrow> nat set \<Rightarrow> 'z toml_mem_scheme \<Rightarrow> bool" where
  "alloc_wf L T A m \<longleftrightarrow>
     T \<inter> A = {} \<and> t_live L \<inter> (T \<union> A) = {} \<and> t_live L \<union> T \<union> A \<subseteq> t_live m \<and>
     (\<forall>p \<in> t_live m. 0 < p \<and> p < t_brk m) \<and> 0 < t_brk m \<and> t_alloc_ok m = t_alloc_ok L \<and>
     ((\<forall>n. t_alloc_ok L n) \<longrightarrow> t_live m = t_live L \<union> T \<union> A)"

definition tree_wf :: "nat \<Rightarrow> nat set \<Rightarrow> nat set \<Rightarrow> 'z toml_mem_scheme \<Rightarrow> bool" where
  "tree_wf r T A m \<longleftrightarrow> r \<in> T \<and>
     (\<forall>p \<in> T \<union> A. \<forall>p' \<in> T \<union> A. p \<noteq> p' \<longrightarrow> set (kids T m p) \<inter> set (kids T m p') = {}) \<and>
     (\<forall>q \<in> T \<union> A. q \<noteq> r \<longrightarrow> (\<exists>p \<in> T \<union> A. q \<in> set (kids T m p)))"

definition heap_ok :: "toml_mem \<Rightarrow> nat \<Rightarrow> nat set \<Rightarrow> nat set \<Rightarrow> 'z toml_mem_scheme \<Rightarrow> bool" where
  "heap_ok L r T A m \<longleftrightarrow>
     alloc_wf L T A m \<and> tree_wf r T A m \<and> (\<forall>p \<in> T. tab_wf T A m p) \<and> (\<forall>p \<in> A. arr_wf T A m p)"

lemma heap_okI:
  "alloc_wf L T A m \<Longrightarrow> tree_wf r T A m \<Longrightarrow> (\<And>p. p \<in> T \<Longrightarrow> tab_wf T A m p) \<Longrightarrow>
   (\<And>p. p \<in> A \<Longrightarrow> arr_wf T A m p) \<Longrightarrow> heap_ok L r T A m"
  by (simp add: heap_ok_def)

lemma heap_okD:
  assumes "heap_ok L r T A m"
  shows "alloc_wf L T A m" "tree_wf r T A m" "p \<in> T \<Longrightarrow> tab_wf T A m p" "p \<in> A \<Longrightarrow> arr_wf T A m p"
    "r \<in> T" "T \<inter> A = {}" "p \<in> T \<Longrightarrow> p \<noteq> 0" "p \<in> A \<Longrightarrow> p \<noteq> 0" "p \<in> T \<Longrightarrow> p \<in> t_live m" "p \<in> A \<Longrightarrow> p \<in> t_live m"
    "p \<in> T \<Longrightarrow> p < t_brk m" "p \<in> A \<Longrightarrow> p < t_brk m" "p \<in> t_live m \<Longrightarrow> p < t_brk m" "0 < t_brk m"
  using assms by (auto simp: heap_ok_def alloc_wf_def tree_wf_def)

section \<open>Changes that leave the tree as it is\<close>

text \<open>Only the allocation counter and the four parts of the store matter.\<close>

lemma table_keys_cong:
  assumes "t_tables m' = t_tables m" "t_arrays m' = t_arrays m"
  shows "table_keys m' p = table_keys m p"
  using assms by (simp add: table_keys_def)

lemma heap_ok_cong:
  assumes "heap_ok L r T A m" "t_tables m' = t_tables m" "t_arrays m' = t_arrays m"
    "t_live m' = t_live m" "t_alloc_ok m' = t_alloc_ok m" "t_brk m \<le> t_brk m'"
  shows "heap_ok L r T A m'"
proof (rule heap_okI)
  note h = heap_okD [OF assms(1)]
  note eqs = assms(2-5) table_keys_cong [OF assms(2,3)]
  show "alloc_wf L T A m'"
    using h(1) less_le_trans [OF _ assms(6)] unfolding alloc_wf_def eqs by blast
  have "kids T m' = kids T m" by (simp add: fun_eq_iff kids_def eqs)
  then show "tree_wf r T A m'" using h(2) unfolding tree_wf_def by simp
  show "tab_wf T A m' p" if "p \<in> T" for p
    using h(3) [OF that] unfolding tab_wf_def eqs .
  show "arr_wf T A m' p" if "p \<in> A" for p
    using h(4) [OF that] unfolding arr_wf_def eqs .
qed

text \<open>A table changes, but not what hangs below it nor whether it has a key.\<close>

lemma kids_upd_table:
  assumes "tab_arr t' = tab_arr (t_tables m p)" "tab_tab t' = tab_tab (t_tables m p)"
  shows "kids T (m\<lparr>t_tables := (t_tables m)(p := t')\<rparr>) q = kids T m q"
  using assms by (simp add: kids_def)

lemma heap_ok_upd_table:
  assumes "heap_ok L r T A m" "p \<in> T"
    and t': "tab_arr t' = tab_arr (t_tables m p)" "tab_tab t' = tab_tab (t_tables m p)"
      "tab_key t' = tab_key (t_tables m p)"
    and keys: "distinct (map kv_key (tab_kval t') @ drop (length (tab_kval (t_tables m p))) (table_keys m p))"
  shows "heap_ok L r T A (m\<lparr>t_tables := (t_tables m)(p := t')\<rparr>)" (is "heap_ok L r T A ?m")
proof (rule heap_okI)
  note h = heap_okD [OF assms(1)]
  show "alloc_wf L T A ?m" using h(1) by (simp add: alloc_wf_def)
  show "tree_wf r T A ?m" using h(2) by (simp add: tree_wf_def kids_upd_table [OF t'(1,2)])
  show "arr_wf T A ?m q" if "q \<in> A" for q using h(4) [OF that] by (simp add: arr_wf_def)
  have k: "tab_key (t_tables ?m q) = tab_key (t_tables m q)" for q using t'(3) by simp
  show "tab_wf T A ?m q" if "q \<in> T" for q
  proof (cases "q = p")
    case True
    have "table_keys ?m p = map kv_key (tab_kval t') @ drop (length (tab_kval (t_tables m p))) (table_keys m p)"
      using t' by (simp add: table_keys_def)
    then show ?thesis using h(3) [OF that] True keys t' by (auto simp: tab_wf_def)
  next
    case False
    then have "table_keys ?m q = table_keys m q" using t'(3) by (auto simp: table_keys_def)
    then show ?thesis using h(3) [OF that] False t'(3) by (auto simp: tab_wf_def)
  qed
qed

text \<open>An array changes in its kind and type and gets values at its end.\<close>

lemma elem_ptrs_append [simp]: "elem_ptrs (xs @ ys) = elem_ptrs xs @ elem_ptrs ys"
  by (induction xs rule: elem_ptrs.induct) auto

lemma heap_ok_upd_array:
  assumes "heap_ok L r T A m" "p \<in> A"
    and a': "arr_key a' = arr_key (t_arrays m p)" "elem_ptrs (arr_elems a') = elem_ptrs (arr_elems (t_arrays m p))"
    and e: "\<And>e. e \<in> set (arr_elems a') \<Longrightarrow> elem_wf T A p (arr_kind a') e"
  shows "heap_ok L r T A (m\<lparr>t_arrays := (t_arrays m)(p := a')\<rparr>)" (is "heap_ok L r T A ?m")
proof (rule heap_okI)
  note h = heap_okD [OF assms(1)]
  show "alloc_wf L T A ?m" using h(1) by (simp add: alloc_wf_def)
  have k: "kids T ?m q = kids T m q" for q using a'(2) by (simp add: kids_def)
  show "tree_wf r T A ?m" using h(2) by (simp add: tree_wf_def k)
  show "arr_wf T A ?m q" if "q \<in> A" for q
    using h(4) [OF that] e a'(2) by (auto simp: arr_wf_def)
  show "tab_wf T A ?m q" if "q \<in> T" for q
  proof -
    have "table_keys ?m q = table_keys m q" using a'(1) by (auto simp: table_keys_def)
    then show ?thesis using h(3) [OF that] a'(1) by (auto simp: tab_wf_def)
  qed
qed

section \<open>Hanging a new structure into the tree\<close>

text \<open>What the four cases share: \<open>q\<close> is new and has nothing below it, \<open>p\<close> gets it as one more
  entry.\<close>

lemma heap_fresh: "heap_ok L r T A m \<Longrightarrow> t_brk m \<le> q \<Longrightarrow> q \<notin> T \<union> A \<union> t_live m \<union> t_live L"
  unfolding heap_ok_def alloc_wf_def by (blast dest: less_le_trans)

lemma kids_in: "heap_ok L r T A m \<Longrightarrow> p \<in> T \<union> A \<Longrightarrow> q \<in> set (kids T m p) \<Longrightarrow> q \<in> T \<union> A"
proof -
  assume h: "heap_ok L r T A m" and p: "p \<in> T \<union> A" and q: "q \<in> set (kids T m p)"
  have e: "q \<in> set (elem_ptrs es) \<Longrightarrow> E_arr q \<in> set es \<or> E_tab q \<in> set es" for es
    by (induction es rule: elem_ptrs.induct) auto
  show "q \<in> T \<union> A"
    using heap_okD(3,4) [OF h, of p] p q
    by (auto simp: kids_def tab_wf_def arr_wf_def elem_wf_def split: if_splits dest!: e)
qed

lemma link_common:
  assumes h: "heap_ok L r T A m" and q: "t_brk m \<le> q" "q < t_brk m'"
    and m': "t_live m' = insert q (t_live m)" "t_alloc_ok m' = t_alloc_ok m"
    and TA: "T' \<union> A' = insert q (T \<union> A)" "T' \<inter> A' = {}" "T \<subseteq> T'"
    and p: "p \<in> T \<union> A" "set (kids T' m' p) = insert q (set (kids T m p))"
    and k: "kids T' m' q = []" "\<And>x. x \<in> T \<union> A \<Longrightarrow> x \<noteq> p \<Longrightarrow> kids T' m' x = kids T m x"
  shows "alloc_wf L T' A' m'" "tree_wf r T' A' m'"
proof -
  note f = heap_fresh [OF h q(1)]
  have a: "alloc_wf L T A m" and t: "tree_wf r T A m" using heap_okD [OF h] by auto
  have "0 < q" using q(1) heap_okD(14) [OF h] by simp
  moreover have "x < t_brk m'" if "x \<in> t_live m" for x using a q that unfolding alloc_wf_def by fastforce
  ultimately show "alloc_wf L T' A' m'"
    using a f q(2) TA m' unfolding alloc_wf_def by auto
  have new: "q \<notin> set (kids T m x)" if "x \<in> T \<union> A" for x using kids_in [OF h that] f by blast
  have sub: "set (kids T' m' x) \<subseteq> set (kids T m x) \<union> (if x = p then {q} else {})" if "x \<in> T \<union> A" for x
    using k(2) [OF that] p(2) by (cases "x = p") auto
  have old: "set (kids T' m' x) \<inter> set (kids T' m' y) = {}" if "x \<in> T \<union> A" "y \<in> T \<union> A" "x \<noteq> y" for x y
  proof -
    have "set (kids T m x) \<inter> set (kids T m y) = {}" using t that unfolding tree_wf_def by blast
    then show ?thesis using sub [OF that(1)] sub [OF that(2)] new [OF that(1)] new [OF that(2)] that(3)
      by (auto split: if_splits)
  qed
  have "set (kids T' m' x) \<inter> set (kids T' m' y) = {}" if xy: "x \<in> T' \<union> A'" "y \<in> T' \<union> A'" "x \<noteq> y" for x y
  proof -
    consider "x = q" | "y = q" | "x \<in> T \<union> A" "y \<in> T \<union> A" using xy(1,2) unfolding TA(1) by blast
    then show ?thesis
    proof cases
      case 3
      then show ?thesis by (rule old [OF _ _ xy(3)])
    qed (simp_all add: k(1))
  qed
  moreover have "\<exists>x \<in> T' \<union> A'. y \<in> set (kids T' m' x)" if yr: "y \<in> T' \<union> A'" "y \<noteq> r" for y
  proof (cases "y = q")
    case True
    then show ?thesis using p unfolding TA(1) by auto
  next
    case False
    then have y: "y \<in> T \<union> A" using yr(1) unfolding TA(1) by blast
    have "\<forall>q \<in> T \<union> A. q \<noteq> r \<longrightarrow> (\<exists>x \<in> T \<union> A. q \<in> set (kids T m x))"
      using t by (simp add: tree_wf_def)
    then obtain x where x: "x \<in> T \<union> A" "y \<in> set (kids T m x)" using y yr(2) by meson
    then have "y \<in> set (kids T' m' x)" using k(2) [OF x(1)] p(2) by (cases "x = p") auto
    then show ?thesis using x(1) unfolding TA(1) by blast
  qed
  moreover have "r \<in> T'" using t TA(3) unfolding tree_wf_def by blast
  ultimately show "tree_wf r T' A' m'" unfolding tree_wf_def by blast
qed

text \<open>Other tables and arrays stay well formed: neither they nor the keys of what hangs below them
  change.\<close>

lemma tab_wf_frame:
  assumes "tab_wf T A m p" "T \<subseteq> T'" "A \<subseteq> A'" "t_tables m' p = t_tables m p"
    "\<And>x. x \<in> A \<Longrightarrow> arr_key (t_arrays m' x) = arr_key (t_arrays m x)"
    "\<And>x. x \<in> T \<Longrightarrow> tab_key (t_tables m' x) = tab_key (t_tables m x)"
  shows "tab_wf T' A' m' p"
proof -
  have "table_keys m' p = table_keys m p"
    using assms(1,4-6) by (auto simp: table_keys_def tab_wf_def)
  then show ?thesis using assms(1-4,5,6) unfolding tab_wf_def by (auto simp del: not_None_eq)
qed

lemma elem_wf_mono: "elem_wf T A p k e \<Longrightarrow> T \<subseteq> T' \<Longrightarrow> A \<subseteq> A' \<Longrightarrow> elem_wf T' A' p k e"
  by (auto simp: elem_wf_def split: toml_elem.splits)

lemma arr_wf_frame:
  "arr_wf T A m p \<Longrightarrow> T \<subseteq> T' \<Longrightarrow> A \<subseteq> A' \<Longrightarrow> t_arrays m' p = t_arrays m p \<Longrightarrow> arr_wf T' A' m' p"
  unfolding arr_wf_def by (auto intro: elem_wf_mono)

lemma link_table_in_table:
  assumes h: "heap_ok L r T A m" and p: "p \<in> T" and q: "t_brk m \<le> q" "q < t_brk m'"
    and m': "t_live m' = insert q (t_live m)" "t_alloc_ok m' = t_alloc_ok m" "t_arrays m' = t_arrays m"
    and tq: "t_tables m' q = fresh_table\<lparr>tab_key := Some key, tab_implicit := b\<rparr>"
    and tp: "t_tables m' p = (t_tables m p)\<lparr>tab_tab := tab_tab (t_tables m p) @ [q]\<rparr>"
    and tx: "\<And>x. x \<noteq> p \<Longrightarrow> x \<noteq> q \<Longrightarrow> t_tables m' x = t_tables m x"
    and key: "key \<notin> set (table_keys m p)"
  shows "heap_ok L r (insert q T) A m'"
proof -
  note f = heap_fresh [OF h q(1)] and hD = heap_okD [OF h]
  have xq: "x \<noteq> q" if "x \<in> T \<union> A" for x using that f by blast
  have c: "alloc_wf L (insert q T) A m'" "tree_wf r (insert q T) A m'"
    by (rule link_common [OF h q m'(1,2), where p = p]; use f hD p tx [OF _ xq] tp tq m'(3) in
        \<open>auto simp: kids_def fresh_table_def split: if_splits\<close>)+
  have keys: "tab_key (t_tables m' x) = tab_key (t_tables m x)" if "x \<in> T" for x
    using tp tx [OF _ xq] that by (cases "x = p") auto
  have pq: "p < q" using hD(11) [OF p] q(1) by simp
  have tp_wf: "tab_wf T A m p" using hD(3) [OF p] .
  have "table_keys m' p = table_keys m p @ [key]"
    using tp tq m'(3) keys tp_wf by (auto simp: table_keys_def tab_wf_def)
  then have wp: "tab_wf (insert q T) A m' p"
    using tp_wf tp tq m'(3) keys pq key by (auto simp: tab_wf_def)
  have wq: "tab_wf (insert q T) A m' q" using tq by (simp add: tab_wf_def fresh_table_def table_keys_def)
  show ?thesis
  proof (rule heap_okI [OF c])
    show "tab_wf (insert q T) A m' x" if "x \<in> insert q T" for x
    proof (cases "x = p \<or> x = q")
      case False
      then show ?thesis using that tx m'(3) keys
        by (intro tab_wf_frame [OF hD(3), of x]) auto
    qed (use wp wq in auto)
    show "arr_wf (insert q T) A m' x" if "x \<in> A" for x
      using that m'(3) by (intro arr_wf_frame [OF hD(4)]) auto
  qed
qed

lemma link_array_in_table:
  assumes h: "heap_ok L r T A m" and p: "p \<in> T" and q: "t_brk m \<le> q" "q < t_brk m'"
    and m': "t_live m' = insert q (t_live m)" "t_alloc_ok m' = t_alloc_ok m"
    and aq: "t_arrays m' q = fresh_array\<lparr>arr_key := Some key\<rparr>"
    and ax: "\<And>x. x \<noteq> q \<Longrightarrow> t_arrays m' x = t_arrays m x"
    and tp: "t_tables m' p = (t_tables m p)\<lparr>tab_arr := tab_arr (t_tables m p) @ [q]\<rparr>"
    and tx: "\<And>x. x \<noteq> p \<Longrightarrow> t_tables m' x = t_tables m x"
    and key: "key \<notin> set (table_keys m p)"
  shows "heap_ok L r T (insert q A) m'"
proof -
  note f = heap_fresh [OF h q(1)] and hD = heap_okD [OF h]
  have xq: "x \<noteq> q" if "x \<in> T \<union> A" for x using that f by blast
  have axA: "t_arrays m' x = t_arrays m x" if "x \<in> A" for x using ax [OF xq] that by blast
  have c: "alloc_wf L T (insert q A) m'" "tree_wf r T (insert q A) m'"
    by (rule link_common [OF h q m'(1,2), where p = p]; use f hD p tx tp aq axA in
        \<open>auto simp: kids_def fresh_array_def split: if_splits\<close>)+
  have keys: "tab_key (t_tables m' x) = tab_key (t_tables m x)" for x
    using tp tx by (cases "x = p") auto
  have pq: "p < q" using hD(11) [OF p] q(1) by simp
  have tp_wf: "tab_wf T A m p" using hD(3) [OF p] .
  have K: "table_keys m' p = map kv_key (tab_kval (t_tables m p)) @
      (map (\<lambda>q. the (arr_key (t_arrays m q))) (tab_arr (t_tables m p)) @ [key]) @
      map (\<lambda>q. the (tab_key (t_tables m q))) (tab_tab (t_tables m p))"
    using tp aq axA keys tp_wf by (auto simp: table_keys_def tab_wf_def)
  have "distinct (table_keys m' p)" using tp_wf key unfolding K by (auto simp: tab_wf_def table_keys_def)
  then have wp: "tab_wf T (insert q A) m' p"
    using tp_wf tp aq axA keys pq by (auto simp: tab_wf_def)
  show ?thesis
  proof (rule heap_okI [OF c])
    show "tab_wf T (insert q A) m' x" if "x \<in> T" for x
    proof (cases "x = p")
      case False
      then show ?thesis using that tx axA keys
        by (intro tab_wf_frame [OF hD(3), of x]) auto
    qed (use wp in auto)
    show "arr_wf T (insert q A) m' x" if "x \<in> insert q A" for x
    proof (cases "x = q")
      case True
      then show ?thesis using aq by (simp add: arr_wf_def fresh_array_def)
    next
      case False
      then show ?thesis using that axA by (intro arr_wf_frame [OF hD(4)]) auto
    qed
  qed
qed

lemma link_array_in_array:
  assumes h: "heap_ok L r T A m" and p: "p \<in> A" and q: "t_brk m \<le> q" "q < t_brk m'"
    and m': "t_live m' = insert q (t_live m)" "t_alloc_ok m' = t_alloc_ok m" "t_tables m' = t_tables m"
    and aq: "t_arrays m' q = fresh_array"
    and ap: "t_arrays m' p = (t_arrays m p)\<lparr>arr_elems := arr_elems (t_arrays m p) @ [E_arr q]\<rparr>"
    and ax: "\<And>x. x \<noteq> p \<Longrightarrow> x \<noteq> q \<Longrightarrow> t_arrays m' x = t_arrays m x"
    and kind: "arr_kind (t_arrays m p) = CHR ''a''"
  shows "heap_ok L r T (insert q A) m'"
proof -
  note f = heap_fresh [OF h q(1)] and hD = heap_okD [OF h]
  have xq: "x \<noteq> q" if "x \<in> T \<union> A" for x using that f by blast
  have pT: "p \<notin> T" using hD(6) p by blast
  have c: "alloc_wf L T (insert q A) m'" "tree_wf r T (insert q A) m'"
    by (rule link_common [OF h q m'(1,2), where p = p]; use f hD(6) p pT ax [OF _ xq] ap aq m'(3) in
        \<open>auto simp: kids_def fresh_array_def split: if_splits\<close>)+
  have keys: "arr_key (t_arrays m' x) = arr_key (t_arrays m x)" if "x \<in> A" for x
    using ap ax [OF _ xq] that by (cases "x = p") auto
  have pq: "p < q" using hD(12) [OF p] q(1) by simp
  have new: "q \<notin> set (elem_ptrs (arr_elems (t_arrays m p)))"
    using kids_in [OF h, of p q] p f pT by (auto simp: kids_def)
  have wp: "arr_wf T (insert q A) m' p"
    using hD(4) [OF p] ap pq new kind by (auto simp: arr_wf_def elem_wf_def split: toml_elem.splits)
  show ?thesis
  proof (rule heap_okI [OF c])
    show "tab_wf T (insert q A) m' x" if "x \<in> T" for x
      using that m'(3) keys by (intro tab_wf_frame [OF hD(3), of x]) auto
    show "arr_wf T (insert q A) m' x" if "x \<in> insert q A" for x
    proof (cases "x = p \<or> x = q")
      case True
      then show ?thesis using wp aq by (auto simp: arr_wf_def fresh_array_def)
    next
      case False
      then show ?thesis using that ax by (intro arr_wf_frame [OF hD(4)]) auto
    qed
  qed
qed

lemma link_table_in_array:
  assumes h: "heap_ok L r T A m" and p: "p \<in> A" and q: "t_brk m \<le> q" "q < t_brk m'"
    and m': "t_live m' = insert q (t_live m)" "t_alloc_ok m' = t_alloc_ok m"
    and tq: "t_tables m' q = fresh_table\<lparr>tab_key := k\<rparr>"
    and tx: "\<And>x. x \<noteq> q \<Longrightarrow> t_tables m' x = t_tables m x"
    and ap: "t_arrays m' p = (t_arrays m p)\<lparr>arr_elems := arr_elems (t_arrays m p) @ [E_tab q]\<rparr>"
    and ax: "\<And>x. x \<noteq> p \<Longrightarrow> t_arrays m' x = t_arrays m x"
    and kind: "arr_kind (t_arrays m p) = CHR ''t''"
  shows "heap_ok L r (insert q T) A m'"
proof -
  note f = heap_fresh [OF h q(1)] and hD = heap_okD [OF h]
  have xq: "x \<noteq> q" if "x \<in> T \<union> A" for x using that f by blast
  have pT: "p \<notin> T" using hD(6) p by blast
  have txT: "t_tables m' x = t_tables m x" if "x \<in> T" for x using tx [OF xq] that by blast
  have c: "alloc_wf L (insert q T) A m'" "tree_wf r (insert q T) A m'"
    by (rule link_common [OF h q m'(1,2), where p = p]; use f hD(6) p pT ax ap tq txT in
        \<open>auto simp: kids_def fresh_table_def split: if_splits\<close>)+
  have keys: "arr_key (t_arrays m' x) = arr_key (t_arrays m x)" for x
    using ap ax by (cases "x = p") auto
  have pq: "p < q" using hD(12) [OF p] q(1) by simp
  have new: "q \<notin> set (elem_ptrs (arr_elems (t_arrays m p)))"
    using kids_in [OF h, of p q] p f pT by (auto simp: kids_def)
  have wp: "arr_wf (insert q T) A m' p"
    using hD(4) [OF p] ap pq new kind by (auto simp: arr_wf_def elem_wf_def split: toml_elem.splits)
  show ?thesis
  proof (rule heap_okI [OF c])
    show "tab_wf (insert q T) A m' x" if "x \<in> insert q T" for x
    proof (cases "x = q")
      case True
      then show ?thesis using tq by (simp add: tab_wf_def table_keys_def fresh_table_def)
    next
      case False
      then show ?thesis using that txT keys by (intro tab_wf_frame [OF hD(3), of x]) auto
    qed
    show "arr_wf (insert q T) A m' x" if "x \<in> A" for x
    proof (cases "x = p")
      case False
      then show ?thesis using that ax by (intro arr_wf_frame [OF hD(4)]) auto
    qed (use wp in auto)
  qed
qed

text \<open>The root alone.\<close>

lemma heap_ok_root:
  assumes "\<And>p. p \<in> t_live L \<Longrightarrow> 0 < p \<and> p < t_brk L" "0 < t_brk L" "q = t_brk L"
    "t_brk m' = Suc q" "t_live m' = insert q (t_live L)" "t_tables m' q = fresh_table" "t_alloc_ok m' = t_alloc_ok L"
  shows "heap_ok L q {q} {} m'"
  using assms
  by (auto simp: heap_ok_def alloc_wf_def tree_wf_def tab_wf_def kids_def table_keys_def fresh_table_def
      intro: less_SucI)

end
