(* ===== verification/Toml_Free.thy ===== *)
theory Toml_Free
  imports Toml_Heap
begin

text \<open>
  \<open>toml_free\<close> of \<^verbatim>\<open>src/external/toml.c\<close> on the trees of the parser: every structure of the tree is
  released once, and the bound of the walk is never reached.
\<close>

definition edges :: "nat set \<Rightarrow> nat set \<Rightarrow> 'z toml_mem_scheme \<Rightarrow> (nat \<times> nat) set" where
  "edges T A m = {(p, q). p \<in> T \<union> A \<and> q \<in> set (kids T m p)}"

text \<open>A structure and all that hangs below it.\<close>

definition subtree :: "nat set \<Rightarrow> nat set \<Rightarrow> 'z toml_mem_scheme \<Rightarrow> nat \<Rightarrow> nat set" where
  "subtree T A m p = (edges T A m)\<^sup>* `` {p}"

definition subtrees :: "nat set \<Rightarrow> nat set \<Rightarrow> 'z toml_mem_scheme \<Rightarrow> nat list \<Rightarrow> nat set" where
  "subtrees T A m ps = \<Union> (subtree T A m ` set ps)"

lemma edges_less:
  assumes "heap_ok L r T A m" "(p, q) \<in> edges T A m"
  shows "p < q"
proof -
  have e: "q \<in> set (elem_ptrs es) \<Longrightarrow> E_arr q \<in> set es \<or> E_tab q \<in> set es" for es
    by (induction es rule: elem_ptrs.induct) auto
  show ?thesis
    using assms heap_okD(3,4) [OF assms(1), of p]
    by (auto simp: edges_def kids_def tab_wf_def arr_wf_def elem_wf_def split: if_splits dest!: e)
qed

lemma edges_rtrancl_le: "heap_ok L r T A m \<Longrightarrow> (p, q) \<in> (edges T A m)\<^sup>* \<Longrightarrow> p \<le> q"
  by (rotate_tac, induction rule: rtrancl_induct) (auto dest: edges_less)

lemma edges_unique:
  "heap_ok L r T A m \<Longrightarrow> (p, q) \<in> edges T A m \<Longrightarrow> (p', q) \<in> edges T A m \<Longrightarrow> p = p'"
  using heap_okD(2) unfolding tree_wf_def edges_def by blast

lemma subtree_self [simp]: "p \<in> subtree T A m p"
  by (simp add: subtree_def)

lemma subtree_unfold:
  assumes "p \<in> T \<union> A"
  shows "subtree T A m p = insert p (subtrees T A m (kids T m p))"
proof
  show "subtree T A m p \<subseteq> insert p (subtrees T A m (kids T m p))"
    by (auto simp: subtree_def subtrees_def edges_def elim: converse_rtranclE)
  show "insert p (subtrees T A m (kids T m p)) \<subseteq> subtree T A m p"
    using assms by (auto simp: subtree_def subtrees_def edges_def intro: converse_rtrancl_into_rtrancl)
qed

lemma subtree_below: "heap_ok L r T A m \<Longrightarrow> x \<in> subtree T A m p \<Longrightarrow> p \<le> x"
  unfolding subtree_def by (auto dest: edges_rtrancl_le)

lemma subtree_in: "heap_ok L r T A m \<Longrightarrow> p \<in> T \<union> A \<Longrightarrow> subtree T A m p \<subseteq> T \<union> A"
proof
  fix x assume h: "heap_ok L r T A m" and p: "p \<in> T \<union> A" and "x \<in> subtree T A m p"
  then have "(p, x) \<in> (edges T A m)\<^sup>*" by (simp add: subtree_def)
  then show "x \<in> T \<union> A" by (induction rule: rtrancl_induct) (use p kids_in [OF h] in \<open>auto simp: edges_def\<close>)
qed

lemma siblings_disjoint:
  assumes h: "heap_ok L r T A m" and p: "(p, q) \<in> edges T A m" "(p, q') \<in> edges T A m" and ne: "q \<noteq> q'"
  shows "subtree T A m q \<inter> subtree T A m q' = {}"
proof -
  let ?E = "edges T A m"
  have no: "(x, y) \<notin> ?E\<^sup>*" if xy: "(p, x) \<in> ?E" "(p, y) \<in> ?E" "x \<noteq> y" for x y
  proof
    assume "(x, y) \<in> ?E\<^sup>*"
    then obtain z where z: "(x, z) \<in> ?E\<^sup>*" "(z, y) \<in> ?E" using xy(3) by (auto elim: rtranclE)
    then have "z = p" using edges_unique [OF h z(2) xy(2)] by simp
    then show False using edges_rtrancl_le [OF h z(1)] edges_less [OF h xy(1)] by simp
  qed
  have "single_valued (?E\<inverse>)" using edges_unique [OF h] by (auto simp: single_valued_def)
  then have "(q, q') \<in> ?E\<^sup>* \<or> (q', q) \<in> ?E\<^sup>*" if "x \<in> subtree T A m q \<inter> subtree T A m q'" for x
    using that single_valued_confluent [of "?E\<inverse>" x q q']
    by (auto simp: subtree_def rtrancl_converse)
  then show ?thesis using no p ne by blast
qed

text \<open>Everything hangs below the root.\<close>

lemma subtree_root:
  assumes "heap_ok L r T A m"
  shows "subtree T A m r = T \<union> A"
proof
  show "subtree T A m r \<subseteq> T \<union> A" using subtree_in [OF assms] heap_okD(5) [OF assms] by blast
  have "q \<in> T \<union> A \<longrightarrow> q \<in> subtree T A m r" for q
  proof (induction q rule: less_induct)
    case (less q)
    have "\<forall>q \<in> T \<union> A. q \<noteq> r \<longrightarrow> (\<exists>p \<in> T \<union> A. q \<in> set (kids T m p))"
      using heap_okD(2) [OF assms] by (simp add: tree_wf_def)
    then have "q \<in> T \<union> A \<Longrightarrow> q \<noteq> r \<Longrightarrow> \<exists>p. p \<in> T \<union> A \<and> (p, q) \<in> edges T A m"
      unfolding edges_def by blast
    then show ?case using less edges_less [OF assms]
      unfolding subtree_def by (metis Image_singleton_iff rtrancl.simps)
  qed
  then show "T \<union> A \<subseteq> subtree T A m r" by blast
qed

section \<open>The walk\<close>

text \<open>A list of different entries of one structure.\<close>

definition siblings :: "nat set \<Rightarrow> nat set \<Rightarrow> 'z toml_mem_scheme \<Rightarrow> nat list \<Rightarrow> bool" where
  "siblings T A m ps \<longleftrightarrow> distinct ps \<and> (\<exists>p. \<forall>q \<in> set ps. (p, q) \<in> edges T A m)"

lemma siblings_split:
  assumes "heap_ok L r T A m" "siblings T A m (ps @ qs)"
  shows "siblings T A m ps" "siblings T A m qs" "subtrees T A m ps \<inter> subtrees T A m qs = {}"
proof -
  obtain p where p: "\<forall>q \<in> set (ps @ qs). (p, q) \<in> edges T A m" and d: "distinct (ps @ qs)"
    using assms(2) by (auto simp: siblings_def)
  then show "siblings T A m ps" "siblings T A m qs" by (auto simp: siblings_def)
  show "subtrees T A m ps \<inter> subtrees T A m qs = {}"
    using siblings_disjoint [OF assms(1)] p d unfolding subtrees_def by fastforce
qed

lemma subtrees_simps [simp]:
  "subtrees T A m [] = {}" "subtrees T A m (p # ps) = subtree T A m p \<union> subtrees T A m ps"
  "subtrees T A m (ps @ qs) = subtrees T A m ps \<union> subtrees T A m qs"
  by (auto simp: subtrees_def)

lemma finite_nodes: "heap_ok L r T A m \<Longrightarrow> finite (T \<union> A)"
  by (rule finite_subset [of _ "{..<t_brk m}"]) (auto dest: heap_okD(11,12))

lemma siblings_in: "heap_ok L r T A m \<Longrightarrow> siblings T A m ps \<Longrightarrow> set ps \<subseteq> T \<union> A"
  by (auto simp: siblings_def edges_def dest: kids_in)

lemma finite_subtrees:
  assumes "heap_ok L r T A m" "siblings T A m ps"
  shows "finite (subtrees T A m ps)"
proof (rule finite_subset [OF _ finite_nodes [OF assms(1)]])
  show "subtrees T A m ps \<subseteq> T \<union> A"
    using subtree_in [OF assms(1)] siblings_in [OF assms] unfolding subtrees_def by blast
qed

lemma card_siblings:
  assumes "heap_ok L r T A m" "siblings T A m (p # ps)"
  shows "card (subtrees T A m (p # ps)) = card (subtree T A m p) + card (subtrees T A m ps)"
    "0 < card (subtree T A m p)"
proof -
  have s: "siblings T A m ([p] @ ps)" using assms(2) by simp
  have f: "finite (subtree T A m p)" "finite (subtrees T A m ps)"
    using finite_subtrees [OF assms(1) siblings_split(1) [OF assms(1) s]]
      finite_subtrees [OF assms(1) siblings_split(2) [OF assms(1) s]] by simp_all
  show "card (subtrees T A m (p # ps)) = card (subtree T A m p) + card (subtrees T A m ps)"
    using siblings_split(3) [OF assms(1) s] f by (simp add: card_Un_disjoint)
  have "subtree T A m p \<noteq> {}" using subtree_self by blast
  then show "0 < card (subtree T A m p)" using f by (simp add: card_gt_0_iff)
qed

lemma siblings_kids:
  assumes h: "heap_ok L r T A m" and p: "p \<in> T \<union> A"
  shows "siblings T A m (kids T m p)"
proof -
  have "distinct (kids T m p)"
  proof (cases "p \<in> T")
    case True
    have "set (tab_arr (t_tables m p)) \<inter> set (tab_tab (t_tables m p)) = {}"
      using heap_okD(3) [OF h True] heap_okD(6) [OF h] unfolding tab_wf_def by blast
    then show ?thesis using heap_okD(3) [OF h True] True
      by (simp add: kids_def tab_wf_def table_keys_def distinct_map)
  next
    case False
    then show ?thesis using heap_okD(4) [OF h, of p] p by (simp add: kids_def arr_wf_def)
  qed
  then show ?thesis using p by (auto simp: siblings_def edges_def)
qed

lemma not_below_itself:
  assumes h: "heap_ok L r T A m" and p: "p \<in> T \<union> A"
  shows "p \<notin> subtrees T A m (kids T m p)"
  using edges_less [OF h] subtree_below [OF h] p unfolding subtrees_def edges_def
  by (fastforce dest: leD)

lemma card_subtree:
  assumes h: "heap_ok L r T A m" and p: "p \<in> T \<union> A"
  shows "card (subtree T A m p) = Suc (card (subtrees T A m (kids T m p)))"
  using finite_subtrees [OF h siblings_kids [OF h p]] not_below_itself [OF h p]
  by (simp add: subtree_unfold [OF p])

text \<open>What each of the five functions does, with enough steps.\<close>

definition frees :: "unit parser \<Rightarrow> toml_ctx \<Rightarrow> nat set \<Rightarrow> bool" where
  "frees w m D \<longleftrightarrow> (\<forall>X. D \<subseteq> X \<longrightarrow> w (m\<lparr>t_live := X\<rparr>) = (Inr (), m\<lparr>t_live := X - D\<rparr>))"

lemma frees_ret: "frees (ret ()) m {}"
  by (simp add: frees_def ret_def)

lemma frees_seqE:
  assumes "frees v m D" "frees w m D'" "D \<inter> D' = {}" "D'' = D \<union> D'"
  shows "frees (seqE v w) m D''"
  unfolding frees_def
proof (intro allI impI)
  fix X assume "D'' \<subseteq> X"
  then have X: "D \<subseteq> X" "D' \<subseteq> X - D" using assms(3,4) by auto
  have "v (m\<lparr>t_live := X\<rparr>) = (Inr (), m\<lparr>t_live := X - D\<rparr>)"
    using assms(1) X(1) by (simp add: frees_def)
  moreover have "w (m\<lparr>t_live := X - D\<rparr>) = (Inr (), m\<lparr>t_live := X - D - D'\<rparr>)"
    using assms(2) X(2) by (simp add: frees_def)
  ultimately show "seqE v w (m\<lparr>t_live := X\<rparr>) = (Inr (), m\<lparr>t_live := X - D''\<rparr>)"
    using assms(4) by (simp add: Diff_eq Int_assoc)
qed

lemma frees_free: "frees (t_free p) m {p}"
  by (auto simp: frees_def t_free_def)

definition walks :: "nat set \<Rightarrow> nat set \<Rightarrow> toml_ctx \<Rightarrow> nat \<Rightarrow> bool" where
  "walks T A m f \<longleftrightarrow>
     (\<forall>p \<in> A. 2 * card (subtree T A m p) \<le> Suc f \<longrightarrow> frees (xfree_arr f p) m (subtree T A m p)) \<and>
     (\<forall>p \<in> T. 2 * card (subtree T A m p) \<le> Suc f \<longrightarrow> frees (xfree_tab f p) m (subtree T A m p)) \<and>
     (\<forall>es. siblings T A m (elem_ptrs es) \<longrightarrow> (\<exists>p k. k \<noteq> CHR ''v'' \<and> (\<forall>e \<in> set es. elem_wf T A p k e)) \<longrightarrow>
        2 * card (subtrees T A m (elem_ptrs es)) \<le> f \<longrightarrow> frees (xfree_elems f es) m (subtrees T A m (elem_ptrs es))) \<and>
     (\<forall>ps. siblings T A m ps \<longrightarrow> set ps \<subseteq> A \<longrightarrow>
        2 * card (subtrees T A m ps) \<le> f \<longrightarrow> frees (xfree_arrs f ps) m (subtrees T A m ps)) \<and>
     (\<forall>ps. siblings T A m ps \<longrightarrow> set ps \<subseteq> T \<longrightarrow>
        2 * card (subtrees T A m ps) \<le> f \<longrightarrow> frees (xfree_tabs f ps) m (subtrees T A m ps))"

lemma walks_elems:
  assumes "walks T A m f" "siblings T A m (elem_ptrs es)" "k \<noteq> CHR ''v''" "\<forall>e \<in> set es. elem_wf T A p k e"
    "2 * card (subtrees T A m (elem_ptrs es)) \<le> f"
  shows "frees (xfree_elems f es) m (subtrees T A m (elem_ptrs es))"
proof -
  have "\<exists>p k. k \<noteq> CHR ''v'' \<and> (\<forall>e \<in> set es. elem_wf T A p k e)" using assms(3,4) by blast
  then show ?thesis
    using conjunct1 [OF conjunct2 [OF conjunct2 [OF assms(1) [unfolded walks_def]]], rule_format, OF assms(2) _ assms(5)]
    by blast
qed

lemma walk_array:
  assumes h: "heap_ok L r T A m" and w: "walks T A m f" and p: "p \<in> A"
    and f: "2 * card (subtree T A m p) \<le> Suc (Suc f)"
  shows "frees (xfree_arr (Suc f) p) m (subtree T A m p)"
proof -
  let ?a = "t_arrays m p"
  have p0: "p \<noteq> 0" "p \<in> T \<union> A" "p \<notin> T" using heap_okD(6,8) [OF h] p by auto
  have k: "kids T m p = elem_ptrs (arr_elems ?a)" using p0(3) by (simp add: kids_def)
  have s: "siblings T A m (elem_ptrs (arr_elems ?a))" using siblings_kids [OF h p0(2)] k by simp
  have st: "subtree T A m p = subtrees T A m (elem_ptrs (arr_elems ?a)) \<union> {p}"
    using subtree_unfold [OF p0(2), of m] unfolding k by simp
  have c: "2 * card (subtrees T A m (elem_ptrs (arr_elems ?a))) \<le> f"
    using card_subtree [OF h p0(2)] f k by simp
  have np: "p \<notin> subtrees T A m (elem_ptrs (arr_elems ?a))"
    using not_below_itself [OF h p0(2)] unfolding k .
  have e: "\<forall>e \<in> set (arr_elems ?a). elem_wf T A p (arr_kind ?a) e"
    using heap_okD(4) [OF h p] by (simp add: arr_wf_def)
  let ?w = "if arr_kind ?a = CHR ''a'' \<or> arr_kind ?a = CHR ''t'' then xfree_elems f (arr_elems ?a) else ret ()"
  have "frees ?w m (subtrees T A m (elem_ptrs (arr_elems ?a)))"
  proof (cases "arr_kind ?a = CHR ''a'' \<or> arr_kind ?a = CHR ''t''")
    case True
    then have "arr_kind ?a \<noteq> CHR ''v''" by auto
    with True show ?thesis using walks_elems [OF w s _ e c] by simp
  next
    case False
    then have "elem_ptrs es = []" if "\<forall>e \<in> set es. elem_wf T A p (arr_kind ?a) e" for es
      using that by (induction es rule: elem_ptrs.induct) (auto simp: elem_wf_def)
    then have "elem_ptrs (arr_elems ?a) = []" using e by blast
    then show ?thesis using False by (simp add: frees_ret)
  qed
  then have "frees (seqE ?w (t_free p)) m (subtree T A m p)"
    using np by (intro frees_seqE [OF _ frees_free _ st]) auto
  then show ?thesis
    using p0(1) unfolding frees_def by (simp add: xfree_arr.simps [of "Suc f"] st split del: if_split cong: if_cong)
qed

lemma walk_table:
  assumes h: "heap_ok L r T A m" and w: "walks T A m f" and p: "p \<in> T"
    and f: "2 * card (subtree T A m p) \<le> Suc (Suc f)"
  shows "frees (xfree_tab (Suc f) p) m (subtree T A m p)"
proof -
  let ?t = "t_tables m p"
  have p0: "p \<noteq> 0" "p \<in> T \<union> A" using heap_okD(7) [OF h] p by auto
  have k: "kids T m p = tab_arr ?t @ tab_tab ?t" using p by (simp add: kids_def)
  have s: "siblings T A m (tab_arr ?t @ tab_tab ?t)" using siblings_kids [OF h p0(2)] k by simp
  note sp = siblings_split [OF h s]
  have st: "subtree T A m p = subtrees T A m (tab_arr ?t) \<union> (subtrees T A m (tab_tab ?t) \<union> {p})"
    using subtree_unfold [OF p0(2), of m] k by simp
  have c: "2 * card (subtrees T A m (tab_arr ?t @ tab_tab ?t)) \<le> f"
    using card_subtree [OF h p0(2)] f k by simp
  then have c': "2 * card (subtrees T A m (tab_arr ?t)) \<le> f" "2 * card (subtrees T A m (tab_tab ?t)) \<le> f"
    using sp(3) finite_subtrees [OF h sp(1)] finite_subtrees [OF h sp(2)] by (simp_all add: card_Un_disjoint)
  have np: "p \<notin> subtrees T A m (tab_arr ?t @ tab_tab ?t)"
    using not_below_itself [OF h p0(2)] unfolding k .
  have "set (tab_arr ?t) \<subseteq> A" "set (tab_tab ?t) \<subseteq> T" using heap_okD(3) [OF h p] by (auto simp: tab_wf_def)
  then have w: "frees (xfree_arrs f (tab_arr ?t)) m (subtrees T A m (tab_arr ?t))"
    "frees (xfree_tabs f (tab_tab ?t)) m (subtrees T A m (tab_tab ?t))"
    using w sp(1,2) c' unfolding walks_def by blast+
  have "frees (seqE (xfree_arrs f (tab_arr ?t)) (seqE (xfree_tabs f (tab_tab ?t)) (t_free p))) m (subtree T A m p)"
    by (rule frees_seqE [OF w(1) frees_seqE [OF w(2) frees_free _ refl] _ st]) (use np sp(3) in auto)
  then show ?thesis
    using p0(1) unfolding frees_def by (simp add: xfree_tab.simps [of "Suc f"] st)
qed

lemma walk_list:
  assumes h: "heap_ok L r T A m" and s: "siblings T A m (p # ps)" and f: "2 * card (subtrees T A m (p # ps)) \<le> Suc f"
    and v: "2 * card (subtree T A m p) \<le> Suc f \<Longrightarrow> frees v m (subtree T A m p)"
    and w: "siblings T A m ps \<Longrightarrow> 2 * card (subtrees T A m ps) \<le> f \<Longrightarrow> frees w m (subtrees T A m ps)"
  shows "frees (seqE v w) m (subtrees T A m (p # ps))"
proof -
  have s': "siblings T A m ([p] @ ps)" using s by simp
  note c = card_siblings [OF h s] and sp = siblings_split [OF h s']
  have "2 * card (subtree T A m p) \<le> Suc f" "2 * card (subtrees T A m ps) \<le> f" using c f by linarith+
  then show ?thesis using v w sp by (intro frees_seqE) auto
qed

lemma walks_all:
  assumes h: "heap_ok L r T A m"
  shows "walks T A m f"
proof (induction f)
  case 0
  have e: "card (subtrees T A m ps) \<noteq> 0" if "siblings T A m ps" "ps \<noteq> []" for ps
    using that card_siblings [OF h] by (cases ps) fastforce+
  have n: "2 * card (subtree T A m p) \<le> Suc 0 \<longleftrightarrow> False" if "p \<in> T \<union> A" for p
    using card_subtree [OF h that] by simp
  have l: "es = []" if "siblings T A m (elem_ptrs es)" "k \<noteq> CHR ''v''" "\<forall>e \<in> set es. elem_wf T A p k e"
      "card (subtrees T A m (elem_ptrs es)) = 0" for es p k
  proof -
    have "elem_ptrs es = []" using e that(1,4) by blast
    then show ?thesis using that(2,3) by (cases es rule: elem_ptrs.cases) (auto simp: elem_wf_def)
  qed
  have "frees (xfree_elems 0 es) m (subtrees T A m (elem_ptrs es))"
    if "siblings T A m (elem_ptrs es)" "k \<noteq> CHR ''v''" "\<forall>e \<in> set es. elem_wf T A p k e"
      "card (subtrees T A m (elem_ptrs es)) = 0" for es p k
    using l [OF that] by (simp add: frees_ret)
  moreover have "frees (xfree_arrs 0 ps) m (subtrees T A m ps)" "frees (xfree_tabs 0 ps) m (subtrees T A m ps)"
    if "siblings T A m ps" "card (subtrees T A m ps) = 0" for ps
    using e [OF that(1)] that(2) by (cases "ps = []"; simp add: frees_ret)+
  ultimately show ?case unfolding walks_def using n by auto
next
  case (Suc f)
  have a: "frees (xfree_arr f p) m (subtree T A m p)" if "p \<in> A" "2 * card (subtree T A m p) \<le> Suc f" for p
    using Suc.IH that by (simp add: walks_def)
  have t: "frees (xfree_tab f p) m (subtree T A m p)" if "p \<in> T" "2 * card (subtree T A m p) \<le> Suc f" for p
    using Suc.IH that by (simp add: walks_def)
  have "frees (xfree_elems (Suc f) es) m (subtrees T A m (elem_ptrs es))"
    if s: "siblings T A m (elem_ptrs es)" and k: "k \<noteq> CHR ''v''" "\<forall>e \<in> set es. elem_wf T A p k e"
      and c: "2 * card (subtrees T A m (elem_ptrs es)) \<le> Suc f" for es p k
  proof (cases es)
    case Nil
    then show ?thesis by (simp add: frees_ret)
  next
    case (Cons e es')
    have w: "siblings T A m (elem_ptrs es') \<Longrightarrow> 2 * card (subtrees T A m (elem_ptrs es')) \<le> f \<Longrightarrow>
        frees (xfree_elems f es') m (subtrees T A m (elem_ptrs es'))"
      using walks_elems [OF Suc.IH _ k(1), of es' p] k(2) Cons by simp
    have e: "elem_wf T A p k e" using k(2) Cons by simp
    show ?thesis
    proof (cases e)
      case (E_val v)
      then show ?thesis using e k(1) by (simp add: elem_wf_def)
    next
      case (E_arr q)
      then have q: "q \<in> A" using e by (simp add: elem_wf_def)
      show ?thesis using walk_list [OF h _ _ a [OF q] w] s c by (simp add: Cons E_arr)
    next
      case (E_tab q)
      then have q: "q \<in> T" using e by (simp add: elem_wf_def)
      show ?thesis using walk_list [OF h _ _ t [OF q] w] s c by (simp add: Cons E_tab)
    qed
  qed
  moreover have "frees (xfree_arrs (Suc f) ps) m (subtrees T A m ps)"
    if s: "siblings T A m ps" "set ps \<subseteq> A" "2 * card (subtrees T A m ps) \<le> Suc f" for ps
  proof (cases ps)
    case (Cons q qs)
    then show ?thesis using walk_list [OF h _ _ a, where ps = qs and w = "xfree_arrs f qs"] s Suc.IH
      by (simp add: walks_def)
  qed (simp add: frees_ret)
  moreover have "frees (xfree_tabs (Suc f) ps) m (subtrees T A m ps)"
    if s: "siblings T A m ps" "set ps \<subseteq> T" "2 * card (subtrees T A m ps) \<le> Suc f" for ps
  proof (cases ps)
    case (Cons q qs)
    then show ?thesis using walk_list [OF h _ _ t, where ps = qs and w = "xfree_tabs f qs"] s Suc.IH
      by (simp add: walks_def)
  qed (simp add: frees_ret)
  ultimately show ?case
    unfolding walks_def using walk_array [OF h Suc.IH] walk_table [OF h Suc.IH] by blast
qed

text \<open>Releasing the root releases the tree, and nothing else.\<close>

lemma toml_free_tree:
  assumes h: "heap_ok L r T A m"
  shows "toml_free r m = (Inr (), m\<lparr>t_live := t_live m - (T \<union> A)\<rparr>)"
proof -
  have st: "subtree T A m r = T \<union> A" by (rule subtree_root [OF h])
  have "T \<union> A \<subseteq> {..<t_brk m}" using heap_okD(11,12) [OF h] by auto
  then have "card (T \<union> A) \<le> t_brk m" using card_mono [of "{..<t_brk m}"] by simp
  then have "frees (xfree_tab (2 * t_brk m) r) m (subtree T A m r)"
    using conjunct1 [OF conjunct2 [OF walks_all [OF h, of "2 * t_brk m", unfolded walks_def]],
        rule_format, OF heap_okD(5) [OF h]] by (simp add: st)
  moreover have "T \<union> A \<subseteq> t_live m" using heap_okD(9,10) [OF h] by blast
  ultimately have "xfree_tab (2 * t_brk m) r (m\<lparr>t_live := t_live m\<rparr>) = (Inr (), m\<lparr>t_live := t_live m - (T \<union> A)\<rparr>)"
    unfolding frees_def st by blast
  then show ?thesis by (simp add: toml_free_def)
qed

end
