(* ===== verification/Toml_Safe.thy ===== *)
theory Toml_Safe
  imports Toml_Free
begin

text \<open>
  The parser of \<^verbatim>\<open>src/external/toml.c\<close> keeps its invariant: whatever text it is given, it builds
  a well-formed tree, never touches a structure that is not there, and leaves only by returning,
  by the jump of an error routine, or in the loop that skips newlines. The rules are stated for
  weakest preconditions: the hypothesis of a rule says what is known after the call.
\<close>

definition pinv :: "string \<Rightarrow> toml_mem \<Rightarrow> nat \<Rightarrow> nat set \<Rightarrow> nat set \<Rightarrow> toml_ctx \<Rightarrow> bool" where
  "pinv c L r T A s \<longleftrightarrow>
     heap_ok L r T A s \<and> cx_root s = r \<and> cx_curtab s \<in> T \<and> cx_conf s = c \<and> token_ok c (cx_tok s)"

text \<open>Leaving the parser before it returns.\<close>

definition jumps :: "toml_mem \<Rightarrow> nat \<Rightarrow> halt \<Rightarrow> toml_ctx \<Rightarrow> bool" where
  "jumps L r h s \<longleftrightarrow>
     h = Diverges \<or> h = Longjmp \<and> cx_root s = r \<and> (\<exists>T A. heap_ok L r T A s)"

definition pos :: "toml_ctx \<Rightarrow> nat" where "pos s = tk_ptr (cx_tok s)"

lemma pinvD:
  assumes "pinv c L r T A s"
  shows "heap_ok L r T A s" "cx_root s = r" "cx_curtab s \<in> T" "cx_conf s = c" "token_ok c (cx_tok s)" "r \<in> T"
  using assms heap_okD(5) by (auto simp: pinv_def)

lemma pinv_heap:
  assumes "pinv c L r T A s" "heap_ok L r T' A' t" "T \<subseteq> T'"
    "cx_root t = cx_root s" "cx_curtab t = cx_curtab s" "cx_conf t = cx_conf s" "cx_tok t = cx_tok s"
  shows "pinv c L r T' A' t"
  using assms by (auto simp: pinv_def)

lemma heap_ok_ctx [simp]:
  "heap_ok L r T A (s\<lparr>cx_errbuf := e\<rparr>) = heap_ok L r T A s"
  "heap_ok L r T A (s\<lparr>cx_tok := t\<rparr>) = heap_ok L r T A s"
  "heap_ok L r T A (s\<lparr>cx_tpath := p\<rparr>) = heap_ok L r T A s"
  "heap_ok L r T A (s\<lparr>cx_curtab := n\<rparr>) = heap_ok L r T A s"
  by (auto elim: heap_ok_cong)

lemma heap_ok_brk: "heap_ok L r T A s \<Longrightarrow> heap_ok L r T A (s\<lparr>t_brk := Suc (t_brk s)\<rparr>)"
  by (erule heap_ok_cong) auto

lemma pinv_brk: "pinv c L r T A s \<Longrightarrow> pinv c L r T A (s\<lparr>t_brk := Suc (t_brk s)\<rparr>)"
  by (auto simp: pinv_def heap_ok_brk)

lemma pinv_tpath [simp]: "pinv c L r T A (s\<lparr>cx_tpath := p\<rparr>) = pinv c L r T A s"
  by (simp add: pinv_def)

lemma pinv_curtab: "pinv c L r T A s \<Longrightarrow> p \<in> T \<Longrightarrow> pinv c L r T A (s\<lparr>cx_curtab := p\<rparr>)"
  by (simp add: pinv_def)

section \<open>Errors\<close>

named_theorems parser_rules \<open>what is known after a call of the parser\<close>

lemma wp_raise: "heap_ok L r T A s \<Longrightarrow> cx_root s = r \<Longrightarrow> wp (raise_error m) Q (jumps L r) s"
  by (auto simp: raise_error_def wp_simps jumps_def)

lemma wp_raise_pinv [parser_rules]:
  assumes "pinv c L r T A s"
  shows "wp (raise_error m) Q (jumps L r) s" "wp (e_outofmemory n) Q (jumps L r) s"
    "wp (e_internal_error n) Q (jumps L r) s" "wp (e_syntax_error l m) Q (jumps L r) s"
    "wp (e_bad_key_error l) Q (jumps L r) s" "wp (e_key_exists_error tk) Q (jumps L r) s"
    "wp (syntax_here m) Q (jumps L r) s"
  using wp_raise [OF pinvD(1,2) [OF assms]]
  by (simp_all add: e_outofmemory_def e_internal_error_def e_syntax_error_def e_bad_key_error_def
      e_key_exists_error_def syntax_here_def cur_tok_def wp_simps)

section \<open>Tokens\<close>

lemma wp_cur_tok [wp_simps]: "wp cur_tok Q E s = Q (cx_tok s) s"
  by (simp add: cur_tok_def wp_simps)

lemma wp_next_token [parser_rules]:
  assumes s: "pinv c L r T A s"
    and Q: "\<And>t. pinv c L r T A t \<Longrightarrow> pos s + tk_len (cx_tok s) \<le> pos t \<Longrightarrow> cx_tpath t = cx_tpath s \<Longrightarrow> Q () t"
  shows "wp (next_token d) Q (jumps L r) s"
proof (cases "next_tok c d (cx_tok s)")
  case (Inl e)
  then show ?thesis using pinvD(4) [OF s] wp_raise_pinv [OF s]
    by (cases e) (simp add: next_token_def wp_simps)
next
  case (Inr t)
  have "tk_ptr (cx_tok s) + tk_len (cx_tok s) \<le> length c" using pinvD(5) [OF s] by (simp add: token_ok_def)
  note n = next_tok_ok [OF Inr this]
  have "Q () (s\<lparr>cx_tok := t\<rparr>)" using s n by (intro Q) (auto simp: pinv_def pos_def)
  then show ?thesis using Inr pinvD(4) [OF s] by (simp add: next_token_def wp_simps)
qed

lemma token_ok_len:
  "token_ok c t \<Longrightarrow> tk_tok t \<noteq> NEWLINE \<Longrightarrow> tk_tok t \<noteq> STRING \<Longrightarrow> tk_len t = 1"
  by (auto simp: token_ok_def split: if_splits)

lemma wp_eat_token [parser_rules]:
  assumes s: "pinv c L r T A s"
    and Q: "\<And>t. pinv c L r T A t \<Longrightarrow> pos s \<le> pos t \<Longrightarrow> pos s < pos t \<or> typ = STRING \<or> typ = NEWLINE \<Longrightarrow>
      tk_tok (cx_tok s) = typ \<Longrightarrow> (typ = NEWLINE \<Longrightarrow> \<not> tk_eof (cx_tok s) \<Longrightarrow> pos s < pos t) \<Longrightarrow> Q () t"
  shows "wp (eat_token typ n) Q (jumps L r) s"
proof (cases "tk_tok (cx_tok s) = typ")
  case True
  have len: "tk_len (cx_tok s) = 1 \<or> typ = STRING \<or> typ = NEWLINE"
    "typ = NEWLINE \<Longrightarrow> \<not> tk_eof (cx_tok s) \<Longrightarrow> tk_len (cx_tok s) = 1"
    using pinvD(5) [OF s] True by (auto simp: token_ok_def split: if_splits)
  have "wp (next_token False) Q (jumps L r) s"
    by (rule wp_next_token [OF s], rule Q) (use True len in auto)
  then show ?thesis using True by (simp add: eat_token_def wp_simps)
next
  case False
  then show ?thesis using wp_raise_pinv(3) [OF s] by (simp add: eat_token_def wp_simps)
qed

lemma skip_loop_ok:
  assumes "skip_loop c t = Some (Inr t')" "token_ok c t"
  shows "token_ok c t' \<and> tk_ptr t \<le> tk_ptr t' \<and> tk_tok t' \<noteq> NEWLINE"
proof -
  have "token_ok c t \<longrightarrow> (case y of Inl e \<Rightarrow> True
      | Inr t' \<Rightarrow> token_ok c t' \<and> tk_ptr t \<le> tk_ptr t' \<and> tk_tok t' \<noteq> NEWLINE)"
    if "skip_loop c t = Some y" for y
    using that
  proof (rule skip_loop.raw_induct [rotated, of _ _ _ "\<lambda>c t y. token_ok c t \<longrightarrow> (case y of Inl e \<Rightarrow> True
      | Inr t' \<Rightarrow> token_ok c t' \<and> tk_ptr t \<le> tk_ptr t' \<and> tk_tok t' \<noteq> NEWLINE)"], goal_cases)
    case (1 f c t y)
    show ?case
    proof
      assume ok: "token_ok c t"
      show "case y of Inl e \<Rightarrow> True
          | Inr t' \<Rightarrow> token_ok c t' \<and> tk_ptr t \<le> tk_ptr t' \<and> tk_tok t' \<noteq> NEWLINE"
      proof (cases "tk_tok t = NEWLINE")
        case False
        then show ?thesis using 1(2) ok by auto
      next
        case True
        show ?thesis
        proof (cases "next_tok c False t")
          case (Inl e)
          then have "y = Inl e" using 1(2) True by simp
          then show ?thesis by simp
        next
          case (Inr t')
          then have "f c t' = Some y" using 1(2) True by simp
          from 1(1) [OF this] next_tok_ok [OF Inr] ok show ?thesis
            by (auto simp: token_ok_def split: sum.splits)
        qed
      qed
    qed
  qed
  from this [OF assms(1)] assms(2) show ?thesis by simp
qed

lemma wp_skip_newlines [parser_rules]:
  assumes s: "pinv c L r T A s"
    and Q: "\<And>t. pinv c L r T A t \<Longrightarrow> pos s \<le> pos t \<Longrightarrow> tk_tok (cx_tok t) \<noteq> NEWLINE \<Longrightarrow> Q () t"
  shows "wp skip_newlines Q (jumps L r) s"
proof (cases "skip_loop c (cx_tok s)")
  case None
  then show ?thesis using pinvD(4) [OF s] by (simp add: skip_newlines_def wp_simps jumps_def)
next
  case (Some y)
  show ?thesis
  proof (cases y)
    case (Inl e)
    then show ?thesis using Some pinvD(4) [OF s] wp_raise_pinv [OF s]
      by (cases e) (simp add: skip_newlines_def wp_simps)
  next
    case (Inr t)
    note n = skip_loop_ok [OF Some [unfolded Inr] pinvD(5) [OF s]]
    have "Q () (s\<lparr>cx_tok := t\<rparr>)" using s n by (intro Q) (auto simp: pinv_def pos_def)
    then show ?thesis using Some Inr pinvD(4) [OF s] by (simp add: skip_newlines_def wp_simps)
  qed
qed

lemma wp_expect_token [parser_rules]:
  assumes s: "pinv c L r T A s" and Q: "tk_tok (cx_tok s) = typ \<Longrightarrow> Q () s"
  shows "wp (expect_token typ m) Q (jumps L r) s"
  using Q by (simp add: expect_token_def wp_simps wp_raise_pinv(4) [OF s])

section \<open>The store\<close>

lemma wp_need_room: "wp (need_room n) Q (jumps L r) s" if "pinv c L r T A s"
  "Q () (s\<lparr>t_brk := Suc (t_brk s)\<rparr>)"
  using that(2)
  by (simp add: need_room_def t_room_def wp_simps wp_eq [of t_room] wp_raise_pinv(2) [OF pinv_brk [OF that(1)]])

lemma wp_deref: "p \<noteq> 0 \<Longrightarrow> p \<in> t_live s \<Longrightarrow> wp (t_deref p) Q E s = Q () s"
  by (simp add: wp_def t_deref_def)

lemma wp_the_table:
  "pinv c L r T A s \<Longrightarrow> p \<in> T \<Longrightarrow> wp (the_table p) Q E s = Q (t_tables s p) s"
  by (simp add: the_table_def wp_simps wp_deref heap_okD [OF pinvD(1)])

lemma wp_the_array:
  "pinv c L r T A s \<Longrightarrow> p \<in> A \<Longrightarrow> wp (the_array p) Q E s = Q (t_arrays s p) s"
  by (simp add: the_array_def wp_simps wp_deref heap_okD [OF pinvD(1)])

lemma wp_upd_table:
  "p \<noteq> 0 \<Longrightarrow> p \<in> t_live s \<Longrightarrow>
   wp (upd_table p f) Q E s = Q () (s\<lparr>t_tables := (t_tables s)(p := f (t_tables s p))\<rparr>)"
  by (simp add: upd_table_def wp_simps wp_deref)

lemma wp_upd_array:
  "p \<noteq> 0 \<Longrightarrow> p \<in> t_live s \<Longrightarrow>
   wp (upd_array p f) Q E s = Q () (s\<lparr>t_arrays := (t_arrays s)(p := f (t_arrays s p))\<rparr>)"
  by (simp add: upd_array_def wp_simps wp_deref)

text \<open>The kinds of result that \<open>check_key\<close> has in a well-formed table.\<close>

lemma check_key_eq:
  assumes s: "pinv c L r T A s" and p: "p \<in> T"
  obtains k where "check_key p key s = (Inr k, s)"
    "k = No_key \<Longrightarrow> key \<notin> set (table_keys s p)"
    "\<And>q. k = Key_tab q \<Longrightarrow> q \<in> T" "\<And>q. k = Key_arr q \<Longrightarrow> q \<in> A"
proof -
  note h = pinvD(1) [OF s]
  let ?t = "t_tables s p"
  have w: "tab_wf T A s p" using heap_okD(3) [OF h p] .
  have arr: "\<forall>q \<in> set (tab_arr ?t). q \<noteq> 0 \<and> q \<in> t_live s \<and> arr_key (t_arrays s q) \<noteq> None"
    and tab: "\<forall>q \<in> set (tab_tab ?t). q \<noteq> 0 \<and> q \<in> t_live s \<and> tab_key (t_tables s q) \<noteq> None"
    using w heap_okD(7-10) [OF h] unfolding tab_wf_def by blast+
  let ?a = "first_ptr (\<lambda>q. arr_key (t_arrays s q) = Some key) (tab_arr ?t)"
  let ?p = "first_ptr (\<lambda>q. tab_key (t_tables s q) = Some key) (tab_tab ?t)"
  let ?k = "case find_kval key (tab_kval ?t) of Some kv \<Rightarrow> Key_val kv
    | None \<Rightarrow> if ?a \<noteq> 0 then Key_arr ?a else if ?p \<noteq> 0 then Key_tab ?p else No_key"
  have eq: "check_key p key s = (Inr ?k, s)"
    using find_arr_eq [OF arr, of key] find_tab_eq [OF tab, of key] heap_okD(7,9) [OF h p]
    by (simp add: check_key_def ret_def split: option.splits)
  have "key \<notin> set (table_keys s p)" if "?k = No_key"
  proof -
    have "find_kval key (tab_kval ?t) = None" "?a = 0" "?p = 0"
      using that by (auto split: option.splits if_splits)
    moreover from this have "arr_key (t_arrays s q) \<noteq> Some key" if "q \<in> set (tab_arr ?t)" for q
      using that arr first_ptr_pos [of "tab_arr ?t" "\<lambda>q. arr_key (t_arrays s q) = Some key"] by blast
    moreover from calculation have "tab_key (t_tables s q) \<noteq> Some key" if "q \<in> set (tab_tab ?t)" for q
      using that tab first_ptr_pos [of "tab_tab ?t" "\<lambda>q. tab_key (t_tables s q) = Some key"] by blast
    ultimately show ?thesis using arr tab unfolding table_keys_def find_kval_None
      by (auto simp: image_iff)
  qed
  moreover have "q \<in> T" if "?k = Key_tab q" for q
    using that first_ptr_in [of _ "tab_tab ?t"] w
    by (fastforce simp: tab_wf_def split: option.splits if_splits)
  moreover have "q \<in> A" if "?k = Key_arr q" for q
    using that first_ptr_in [of _ "tab_arr ?t"] w
    by (fastforce simp: tab_wf_def split: option.splits if_splits)
  ultimately show ?thesis using that [OF eq] by blast
qed

lemma wp_check_key:
  assumes "pinv c L r T A s" "p \<in> T"
    and "\<And>k. (k = No_key \<Longrightarrow> key \<notin> set (table_keys s p)) \<Longrightarrow> (\<And>q. k = Key_tab q \<Longrightarrow> q \<in> T) \<Longrightarrow>
      (\<And>q. k = Key_arr q \<Longrightarrow> q \<in> A) \<Longrightarrow> Q k s"
  shows "wp (check_key p key) Q E s"
  by (rule check_key_eq [OF assms(1,2), of key]) (simp add: wp_eq assms(3))

lemma wp_normalized_key:
  assumes s: "pinv c L r T A s" and t: "token_ok c t" "tk_tok t = STRING"
    and Q: "\<And>k. Q k (s\<lparr>t_brk := Suc (t_brk s)\<rparr>)"
  shows "wp (normalized_key t) Q (jumps L r) s"
proof -
  note e = wp_raise_pinv [OF s] wp_raise_pinv [OF pinv_brk [OF s]]
  show ?thesis
  proof (cases "normalize_key c t")
    case (Key_fault f)
    then show ?thesis using normalize_key_no_fault [OF t] by simp
  qed (simp_all add: normalized_key_def wp_simps pinvD(4) [OF s] e t_room_def wp_eq [of t_room] Q)
qed

section \<open>New entries\<close>

text \<open>Allocation: with room, and without.\<close>

lemma wp_t_calloc [wp_simps]:
  "wp t_calloc Q E s = (if t_alloc_ok s (t_brk s)
     then Q (t_brk s) (s\<lparr>t_brk := Suc (t_brk s), t_live := insert (t_brk s) (t_live s)\<rparr>)
     else Q 0 (s\<lparr>t_brk := Suc (t_brk s)\<rparr>))"
  by (simp add: wp_def t_calloc_def)

lemma wp_new_table:
  assumes "pinv c L r T A s"
    and "t_alloc_ok s (t_brk s) \<Longrightarrow>
      Q (t_brk s) (s\<lparr>t_brk := Suc (t_brk s), t_live := insert (t_brk s) (t_live s),
        t_tables := (t_tables s)(t_brk s := fresh_table)\<rparr>)"
  shows "wp (new_table n) Q (jumps L r) s"
  using assms(2) heap_okD(14) [OF pinvD(1) [OF assms(1)]]
  by (simp add: new_table_def wp_simps wp_raise_pinv(2) [OF pinv_brk [OF assms(1)]])

lemma wp_new_array:
  assumes "pinv c L r T A s"
    and "t_alloc_ok s (t_brk s) \<Longrightarrow>
      Q (t_brk s) (s\<lparr>t_brk := Suc (t_brk s), t_live := insert (t_brk s) (t_live s),
        t_arrays := (t_arrays s)(t_brk s := fresh_array)\<rparr>)"
  shows "wp (new_array n) Q (jumps L r) s"
  using assms(2) heap_okD(14) [OF pinvD(1) [OF assms(1)]]
  by (simp add: new_array_def wp_simps wp_raise_pinv(2) [OF pinv_brk [OF assms(1)]])

lemma pinv_less: "pinv c L r T A s \<Longrightarrow> p \<in> T \<union> A \<Longrightarrow> p \<noteq> 0 \<and> p \<in> t_live s \<and> p < t_brk s"
  unfolding pinv_def using heap_okD(7-12) by (metis Un_iff)

lemma table_keys_ctx [simp]: "table_keys (s\<lparr>t_brk := n\<rparr>) p = table_keys s p"
  by (simp add: table_keys_def)

lemma wp_create_keyval [parser_rules]:
  assumes s: "pinv c L r T A s" and tab: "tab \<in> T" and key: "token_ok c key" "tk_tok key = STRING"
    and Q: "\<And>i t. pinv c L r T A t \<Longrightarrow> cx_tok t = cx_tok s \<Longrightarrow> Q i t"
  shows "wp (create_keyval_in_table tab key) Q (jumps L r) s"
proof -
  note s1 = pinv_brk [OF s]
  note s2 = pinv_brk [OF s1]
  note s3 = pinv_brk [OF s2]
  have q: "tab \<noteq> 0" "tab \<in> t_live s" using pinv_less [OF s] tab by auto
  have "pinv c L r T A (s\<lparr>t_brk := Suc (Suc (Suc (t_brk s))),
      t_tables := (t_tables s)(tab := (t_tables s tab)\<lparr>tab_kval := tab_kval (t_tables s tab) @ [\<lparr>kv_key = k, kv_val = None\<rparr>]\<rparr>)\<rparr>)"
    (is "pinv c L r T A ?t") if k: "k \<notin> set (table_keys s tab)" for k
  proof -
    have "distinct (table_keys s tab)" using heap_okD(3) [OF pinvD(1) [OF s] tab] by (simp add: tab_wf_def)
    then have "heap_ok L r T A ?t"
      using k heap_ok_upd_table [OF pinvD(1) [OF s3] tab,
          of "(t_tables s tab)\<lparr>tab_kval := tab_kval (t_tables s tab) @ [\<lparr>kv_key = k, kv_val = None\<rparr>]\<rparr>"]
      by (auto simp: table_keys_def)
    from pinv_heap [OF s this] show ?thesis by simp
  qed
  note t = this
  show ?thesis
    unfolding create_keyval_in_table_def wp_simps
    apply (rule wp_normalized_key [OF s key], rule wp_check_key [OF s1 tab])
    apply (split if_split, intro conjI impI)
     apply (rule wp_raise_pinv(6) [OF s1])
    apply (rule wp_need_room [OF s1], rule wp_need_room [OF s2])
    apply (simp add: wp_simps wp_the_table [OF s3 [simplified] tab] wp_upd_table q)
    apply (rule Q, rule t, simp_all)
    done
qed

lemma wp_create_keytable [parser_rules]:
  assumes s: "pinv c L r T A s" and tab: "tab \<in> T" and key: "token_ok c key" "tk_tok key = STRING"
    and Q: "\<And>T' p t. pinv c L r T' A t \<Longrightarrow> T \<subseteq> T' \<Longrightarrow> p \<in> T' \<Longrightarrow> cx_tok t = cx_tok s \<Longrightarrow> Q p t"
  shows "wp (create_keytable_in_table tab key) Q (jumps L r) s"
proof -
  note s1 = pinv_brk [OF s]
  note s2 = pinv_brk [OF s1]
  let ?q = "Suc (Suc (t_brk s))"
  have q: "tab \<noteq> 0" "tab \<in> t_live s" "?q \<noteq> tab" using pinv_less [OF s, of tab] tab by auto
  have imp: "pinv c L r T A (s\<lparr>t_brk := Suc (t_brk s),
      t_tables := (t_tables s)(p := (t_tables s p)\<lparr>tab_implicit := False\<rparr>)\<rparr>)" (is "pinv c L r T A ?t")
    if p: "p \<in> T" for p
  proof -
    have "distinct (table_keys s p)" using heap_okD(3) [OF pinvD(1) [OF s] p] by (simp add: tab_wf_def)
    then have "heap_ok L r T A ?t"
      using heap_ok_upd_table [OF pinvD(1) [OF s1] p, of "(t_tables s p)\<lparr>tab_implicit := False\<rparr>"]
      by (auto simp: table_keys_def)
    from pinv_heap [OF s this] show ?thesis by simp
  qed
  show ?thesis
    unfolding create_keytable_in_table_def wp_simps
    apply (rule wp_normalized_key [OF s key], rule wp_check_key [OF s1 tab])
    subgoal for newkey k
      apply (cases k)
         apply (simp_all only: key_kind.simps)
         apply (unfold wp_simps)
         apply (rule wp_need_room [OF s1], rule wp_new_table [OF s2])
         apply (simp add: wp_simps wp_upd_table q q(3) [symmetric])
         apply (rule Q, rule pinv_heap [OF s], rule link_table_in_table [OF pinvD(1) [OF s] tab,
             where q = ?q and key = newkey and b = False])
                         apply (auto simp: fresh_table_def q q(3) [symmetric]) [17]
        apply (rule wp_raise_pinv(6) [OF s1])
       apply (rule wp_raise_pinv(6) [OF s1])
      apply (simp add: wp_simps wp_the_table [OF s1] wp_upd_table pinv_less [OF s] wp_raise_pinv(6) [OF s1])
      apply (intro impI, rule Q, rule imp, simp_all)
      done
    done
qed

lemma wp_create_keyarray [parser_rules]:
  assumes s: "pinv c L r T A s" and tab: "tab \<in> T" and key: "token_ok c key" "tk_tok key = STRING"
    and Q: "\<And>A' p t. pinv c L r T A' t \<Longrightarrow> A \<subseteq> A' \<Longrightarrow> p \<in> A' \<or> skip \<and> p = 0 \<Longrightarrow> cx_tok t = cx_tok s \<Longrightarrow> Q p t"
  shows "wp (create_keyarray_in_table tab key skip) Q (jumps L r) s"
proof -
  note s1 = pinv_brk [OF s]
  note s2 = pinv_brk [OF s1]
  let ?q = "Suc (Suc (t_brk s))"
  have q: "tab \<noteq> 0" "tab \<in> t_live s" "?q \<noteq> tab" using pinv_less [OF s, of tab] tab by auto
  show ?thesis
    unfolding create_keyarray_in_table_def wp_simps
    apply (rule wp_normalized_key [OF s key], rule wp_check_key [OF s1 tab])
    subgoal for newkey k
      apply (cases k)
         apply (simp_all only: key_kind.simps)
         apply (unfold wp_simps)
         apply (rule wp_need_room [OF s1], rule wp_new_array [OF s2])
         apply (simp add: wp_simps wp_upd_table wp_upd_array q)
         apply (rule Q, rule pinv_heap [OF s], rule link_array_in_table [OF pinvD(1) [OF s] tab,
             where q = ?q and key = newkey])
                         apply (auto simp: q q(3) [symmetric]) [17]
        apply (auto intro!: Q [OF s1] wp_raise_pinv(6) [OF s1])
      done
    done
qed

lemma wp_create_array_in_array [parser_rules]:
  assumes s: "pinv c L r T A s" and arr: "arr \<in> A" "arr_kind (t_arrays s arr) = CHR ''a''"
    and Q: "\<And>A' p t. pinv c L r T A' t \<Longrightarrow> A \<subseteq> A' \<Longrightarrow> p \<in> A' \<Longrightarrow> cx_tok t = cx_tok s \<Longrightarrow> Q p t"
  shows "wp (create_array_in_array arr) Q (jumps L r) s"
proof -
  note s1 = pinv_brk [OF s]
  let ?q = "Suc (t_brk s)"
  have q: "arr \<noteq> 0" "arr \<in> t_live s" "?q \<noteq> arr" using pinv_less [OF s, of arr] arr by auto
  show ?thesis
    unfolding create_array_in_array_def array_push_def wp_simps
    apply (rule wp_need_room [OF s], rule wp_new_array [OF s1])
    apply (simp add: wp_simps wp_upd_array q q(3) [symmetric])
    apply (rule Q, rule pinv_heap [OF s], rule link_array_in_array [OF pinvD(1) [OF s] arr(1),
        where q = ?q])
                   apply (auto simp: q q(3) [symmetric] arr)
    done
qed

lemma wp_create_table_in_array [parser_rules]:
  assumes s: "pinv c L r T A s" and arr: "arr \<in> A" "arr_kind (t_arrays s arr) = CHR ''t''"
    and Q: "\<And>T' p t. pinv c L r T' A t \<Longrightarrow> T \<subseteq> T' \<Longrightarrow> p \<in> T' \<Longrightarrow> cx_tok t = cx_tok s \<Longrightarrow> Q p t"
  shows "wp (create_table_in_array arr) Q (jumps L r) s"
proof -
  note s1 = pinv_brk [OF s]
  let ?q = "Suc (t_brk s)"
  have q: "arr \<noteq> 0" "arr \<in> t_live s" using pinv_less [OF s, of arr] arr by auto
  show ?thesis
    unfolding create_table_in_array_def array_push_def wp_simps
    apply (rule wp_need_room [OF s], rule wp_new_table [OF s1])
    apply (simp add: wp_simps wp_upd_array q)
    apply (rule Q, rule pinv_heap [OF s], rule link_table_in_array [OF pinvD(1) [OF s] arr(1),
        where q = ?q and k = None])
                   apply (auto simp: arr fresh_table_def)
    done
qed

section \<open>Values\<close>

lemma map_update_same: "map f (xs[i := y]) = map f xs" if "i < length xs \<Longrightarrow> f y = f (xs ! i)"
  by (cases "i < length xs") (simp_all add: map_update that list_update_beyond flip: nth_map)

lemma wp_set_kval [parser_rules]:
  assumes s: "pinv c L r T A s" and tab: "tab \<in> T"
    and Q: "\<And>t. pinv c L r T A t \<Longrightarrow> cx_tok t = cx_tok s \<Longrightarrow> Q () t"
  shows "wp (set_kval tab i v) Q (jumps L r) s"
proof -
  have q: "tab \<noteq> 0" "tab \<in> t_live s" using pinv_less [OF s, of tab] tab by auto
  let ?kvs = "(tab_kval (t_tables s tab))[i := (tab_kval (t_tables s tab) ! i)\<lparr>kv_val := Some v\<rparr>]"
  have k: "map kv_key ?kvs = map kv_key (tab_kval (t_tables s tab))" by (rule map_update_same) simp
  have "distinct (table_keys s tab)" using heap_okD(3) [OF pinvD(1) [OF s] tab] by (simp add: tab_wf_def)
  then have d: "distinct (map kv_key ?kvs @ drop (length (tab_kval (t_tables s tab))) (table_keys s tab))"
    unfolding k by (simp add: table_keys_def)
  show ?thesis
    unfolding set_kval_def
    apply (simp add: wp_upd_table q)
    apply (rule Q, rule pinv_heap [OF s], rule heap_ok_upd_table [OF pinvD(1) [OF s] tab])
           apply (use d in simp_all)
    done
qed

text \<open>Changing the kind of an array without elements, or its type.\<close>

lemma pinv_upd_array:
  assumes s: "pinv c L r T A s" and arr: "arr \<in> A"
    and a': "arr_key a' = arr_key (t_arrays s arr)" "elem_ptrs (arr_elems a') = elem_ptrs (arr_elems (t_arrays s arr))"
    and e: "\<And>e. e \<in> set (arr_elems a') \<Longrightarrow> elem_wf T A arr (arr_kind a') e"
  shows "pinv c L r T A (s\<lparr>t_arrays := (t_arrays s)(arr := a')\<rparr>)"
  by (rule pinv_heap [OF s heap_ok_upd_array [OF pinvD(1) [OF s] arr a' e]]) simp_all

lemma pinv_elem_wf:
  "pinv c L r T A s \<Longrightarrow> arr \<in> A \<Longrightarrow> e \<in> set (arr_elems (t_arrays s arr)) \<Longrightarrow>
   elem_wf T A arr (arr_kind (t_arrays s arr)) e"
  using heap_okD(4) [OF pinvD(1), of c L r T A s arr] by (simp add: arr_wf_def)

lemma pinv_no_elems:
  assumes "pinv c L r T A s" "arr \<in> A" "arr_kind (t_arrays s arr) = NUL"
  shows "arr_elems (t_arrays s arr) = []"
proof (rule ccontr)
  assume "arr_elems (t_arrays s arr) \<noteq> []"
  then have "elem_wf T A arr NUL (hd (arr_elems (t_arrays s arr)))"
    using pinv_elem_wf [OF assms(1,2) hd_in_set] assms(3) by simp
  then show False by (auto simp: elem_wf_def split: toml_elem.splits)
qed

lemma pinv_set_kind:
  assumes "pinv c L r T A s" "arr \<in> A" "arr_kind (t_arrays s arr) = NUL"
  shows "pinv c L r T A (s\<lparr>t_arrays := (t_arrays s)(arr := (t_arrays s arr)\<lparr>arr_kind := k\<rparr>)\<rparr>)"
  by (rule pinv_upd_array [OF assms(1,2)]) (use pinv_no_elems [OF assms] in simp_all)

lemma wp_set_kind [parser_rules]:
  assumes s: "pinv c L r T A s" and arr: "arr \<in> A"
    and Q: "\<And>t. pinv c L r T A t \<Longrightarrow> cx_tok t = cx_tok s \<Longrightarrow> arr_kind (t_arrays t arr) = k \<Longrightarrow> Q () t"
  shows "wp (set_kind arr k m) Q (jumps L r) s"
proof -
  have q: "arr \<noteq> 0" "arr \<in> t_live s" using pinv_less [OF s, of arr] arr by auto
  show ?thesis
  proof (cases "arr_kind (t_arrays s arr) = NUL")
    case True
    note t = pinv_set_kind [OF s arr True, of k]
    show ?thesis
      by (simp add: set_kind_def wp_simps wp_the_array [OF s arr] True wp_upd_array q wp_the_array [OF t arr])
        (rule Q [OF t], simp_all)
  next
    case False
    then show ?thesis using Q [OF s]
      by (auto simp: set_kind_def wp_simps wp_the_array [OF s arr] wp_raise_pinv(7) [OF s])
  qed
qed

lemma wp_push_value [parser_rules]:
  assumes s: "pinv c L r T A s" and arr: "arr \<in> A"
    and Q: "\<And>t. pinv c L r T A t \<Longrightarrow> pos s \<le> pos t \<Longrightarrow> Q () t"
  shows "wp (push_value arr) Q (jumps L r) s"
proof -
  let ?v = "tk_text (cx_conf s) (cx_tok s)"
  have push: "pinv c L r T A (t\<lparr>t_brk := Suc (Suc (t_brk t)), t_arrays := (t_arrays t)(arr :=
      (t_arrays t arr)\<lparr>arr_elems := arr_elems (t_arrays t arr) @ [E_val ?v], arr_type := ty\<rparr>)\<rparr>)"
    if t: "pinv c L r T A t" and k: "arr_kind (t_arrays t arr) = CHR ''v''" for t ty
  proof -
    have "elem_wf T A arr (CHR ''v'') e" if "e \<in> set (arr_elems (t_arrays t arr) @ [E_val ?v])" for e
      using pinv_elem_wf [OF t arr, of e] k that by (auto simp: elem_wf_def)
    then show ?thesis
      using pinv_upd_array [OF pinv_brk [OF pinv_brk [OF t]] arr, of
          "(t_arrays t arr)\<lparr>arr_elems := arr_elems (t_arrays t arr) @ [E_val ?v], arr_type := ty\<rparr>"] k by simp
  qed
  have push': "pinv c L r T A (t\<lparr>t_brk := Suc (Suc (t_brk t)), t_arrays := (t_arrays t)(arr :=
      (t_arrays t arr)\<lparr>arr_elems := arr_elems (t_arrays t arr) @ [E_val ?v]\<rparr>)\<rparr>)"
    if t: "pinv c L r T A t" and k: "arr_kind (t_arrays t arr) = CHR ''v''" for t
    using push [OF that, of "arr_type (t_arrays t arr)"] by simp
  have eat: "wp (eat_token STRING 866) Q (jumps L r) u"
    if "pinv c L r T A u" "cx_tok u = cx_tok s" for u
    by (rule wp_eat_token [OF that(1)], rule Q) (use that(2) in \<open>simp_all add: pos_def\<close>)
  show ?thesis
    unfolding push_value_def wp_simps
    apply (rule wp_set_kind [OF s arr])
    subgoal premises p for t
      apply (rule wp_need_room [OF p(1)], rule wp_need_room [OF pinv_brk [OF p(1)]])
      apply (simp add: array_push_def wp_upd_array pinv_less [OF p(1)] arr wp_the_array [OF push' [OF p(1,3)] arr]
          wp_simps del: One_nat_def)
      apply (use push [OF p(1,3), of "valtype ?v"] push' [OF p(1,3)] p(2) in \<open>auto intro!: eat wp_raise_pinv(7)\<close>)
      done
    done
qed

section \<open>Table selectors\<close>

text \<open>The tokens of a path are keys.\<close>

definition path_ok :: "string \<Rightarrow> (string \<times> token) list \<Rightarrow> bool" where
  "path_ok c path \<longleftrightarrow> (\<forall>(k, t) \<in> set path. token_ok c t \<and> tk_tok t = STRING)"

lemma wp_fill_loop:
  assumes "pinv c L r T A s" "path_ok c (cx_tpath s)"
    and "\<And>t. pinv c L r T A t \<Longrightarrow> pos s \<le> pos t \<Longrightarrow> path_ok c (cx_tpath t) \<Longrightarrow> cx_tpath t \<noteq> [] \<Longrightarrow>
      tk_tok (cx_tok t) = RBRACKET \<Longrightarrow> Q () t"
  shows "wp (fill_loop l k) Q (jumps L r) s"
  using assms
proof (induction k arbitrary: s)
  case 0
  then show ?case by (simp add: wp_raise_pinv(4))
next
  case (Suc k)
  note s = Suc.prems(1) and Q = Suc.prems(3)
  show ?case
  proof (cases "tk_tok (cx_tok s) = STRING")
    case False
    then show ?thesis by (simp add: wp_simps wp_raise_pinv(4) [OF s])
  next
    case True
    have p: "path_ok c (cx_tpath s @ [(key, cx_tok s)])" for key
      using Suc.prems(2) pinvD(5) [OF s] True by (auto simp: path_ok_def)
    let ?s = "\<lambda>key. s\<lparr>t_brk := Suc (t_brk s), cx_tpath := cx_tpath s @ [(key, cx_tok s)]\<rparr>"
    have s1: "pinv c L r T A (?s key)" for key using pinv_brk [OF s] by simp
    show ?thesis
      apply (simp add: wp_simps True)
      apply (rule wp_normalized_key [OF s pinvD(5) [OF s] True])
      apply (simp add: wp_simps)
      apply (rule wp_next_token [OF s1])
      subgoal premises pr for key t
      proof -
        have t: "pos s \<le> pos t" "path_ok c (cx_tpath t)" "cx_tpath t \<noteq> []"
          using pr(2,3) p by (simp_all add: pos_def)
        have "wp (next_token True) (\<lambda>_. wp (fill_loop l k) Q (jumps L r)) (jumps L r) t"
          by (rule wp_next_token [OF pr(1)], rule Suc.IH, assumption) (use t in \<open>auto intro: Q\<close>)
        then show ?thesis
          using t by (auto simp: wp_simps wp_raise_pinv(4) [OF pr(1)] intro: Q [OF pr(1)])
      qed
      done
  qed
qed

lemma wp_fill_tabpath [parser_rules]:
  assumes s: "pinv c L r T A s"
    and Q: "\<And>t. pinv c L r T A t \<Longrightarrow> pos s \<le> pos t \<Longrightarrow> path_ok c (cx_tpath t) \<Longrightarrow> cx_tpath t \<noteq> [] \<Longrightarrow>
      tk_tok (cx_tok t) = RBRACKET \<Longrightarrow> Q () t"
  shows "wp fill_tabpath Q (jumps L r) s"
proof -
  have t: "pinv c L r T A (s\<lparr>cx_tpath := []\<rparr>)" using s by simp
  show ?thesis unfolding fill_tabpath_def wp_simps
    by (rule wp_fill_loop [OF t]) (simp_all add: path_ok_def Q pos_def)
qed

text \<open>A structure that is allocated and not yet in the tree, when room may run out.\<close>

lemma heap_ok_dangling:
  assumes h: "heap_ok L r T A m" and q: "t_brk m \<le> q" "q < t_brk m'" and n: "\<not> t_alloc_ok m n"
    and m': "t_live m' = insert q (t_live m)" "t_alloc_ok m' = t_alloc_ok m" "t_arrays m' = t_arrays m"
    and tx: "\<And>x. x \<noteq> q \<Longrightarrow> t_tables m' x = t_tables m x"
  shows "heap_ok L r T A m'"
proof -
  note f = heap_fresh [OF h q(1)] and hD = heap_okD [OF h]
  have txT: "t_tables m' x = t_tables m x" if "x \<in> T" for x using that f by (intro tx) auto
  show ?thesis
  proof (rule heap_okI)
    have a: "alloc_wf L T A m" by (rule hD(1))
    have "x < t_brk m'" if "x \<in> t_live m" for x using a q that unfolding alloc_wf_def by fastforce
    moreover have "0 < q" using hD(14) q(1) by simp
    ultimately show "alloc_wf L T A m'" using a n q(2) m'(1,2) unfolding alloc_wf_def by auto
    have "kids T m' x = kids T m x" for x using txT m'(3) by (simp add: kids_def)
    then show "tree_wf r T A m'" using hD(2) by (simp add: tree_wf_def)
    show "tab_wf T A m' x" if "x \<in> T" for x
      using that txT m'(3) by (intro tab_wf_frame [OF hD(3)]) auto
    show "arr_wf T A m' x" if "x \<in> A" for x
      using that m'(3) by (intro arr_wf_frame [OF hD(4)]) auto
  qed
qed

lemma wp_need_room_dangling:
  assumes "cx_root s = r" "\<not> t_alloc_ok s (t_brk s) \<Longrightarrow> heap_ok L r T A (s\<lparr>t_brk := Suc (t_brk s)\<rparr>)"
    and "Q () (s\<lparr>t_brk := Suc (t_brk s)\<rparr>)"
  shows "wp (need_room n) Q (jumps L r) s"
  using assms wp_raise [OF assms(2)]
  by (auto simp: need_room_def t_room_def wp_simps wp_eq [of t_room] e_outofmemory_def)

text \<open>A new table that waits for its place in the tree.\<close>

lemma pinv_dangling:
  assumes s: "pinv c L r T A s" and n: "\<not> t_alloc_ok s n"
    and t: "t_brk t = Suc (Suc (Suc (t_brk s)))" "t_live t = insert (Suc (t_brk s)) (t_live s)"
      "t_alloc_ok t = t_alloc_ok s" "t_arrays t = t_arrays s" "t_tables t = (t_tables s)(Suc (t_brk s) := t')"
  shows "heap_ok L r T A t"
  by (rule heap_ok_dangling [OF pinvD(1) [OF s], where q = "Suc (t_brk s)" and n = n]) (use n t in auto)

lemma wp_walk_path:
  assumes "pinv c L r T A s" "tab \<in> T" "path_ok c path"
    and "\<And>T' p t. pinv c L r T' A t \<Longrightarrow> T \<subseteq> T' \<Longrightarrow> p \<in> T' \<Longrightarrow> cx_tok t = cx_tok s \<Longrightarrow> Q p t"
  shows "wp (walk_path path tab) Q (jumps L r) s"
  using assms
proof (induction path arbitrary: tab s T)
  case Nil
  then show ?case by (simp add: wp_simps)
next
  case (Cons kt path)
  obtain key tok where kt: "kt = (key, tok)" by (cases kt)
  note s = Cons.prems(1) and tab = Cons.prems(2) and Q = Cons.prems(4)
  have path: "path_ok c path" using Cons.prems(3) by (simp add: path_ok_def)
  note s1 = pinv_brk [OF s]
  let ?q = "Suc (t_brk s)"
  have q: "tab \<noteq> 0" "tab \<in> t_live s" "?q \<noteq> tab" using pinv_less [OF s, of tab] tab by auto
  have down: "wp (walk_path path p) Q (jumps L r) s" if "p \<in> T" for p
    by (rule Cons.IH [OF s that path]) (rule Q)
  show ?case
    unfolding kt walk_path.simps wp_simps
    apply (rule wp_check_key [OF s tab])
    subgoal premises k for k
    proof (cases k)
      case No_key
      show ?thesis
        apply (simp add: No_key)
        apply (unfold wp_simps)
        apply (rule wp_need_room [OF s], rule wp_new_table [OF s1], rule wp_need_room_dangling [where T = T and A = A])
          apply (simp add: pinvD [OF s])
         apply (rule pinv_dangling [OF s, where n = "Suc (Suc (t_brk s))"], simp_all) [1]
        apply (simp add: wp_simps wp_upd_table q q(3) [symmetric])
        apply (rule Cons.IH [where T = "insert ?q T"])
           apply (rule pinv_heap [OF s], rule link_table_in_table [OF pinvD(1) [OF s] tab,
             where q = ?q and key = key and b = True])
                         apply (use k(1) No_key in \<open>auto simp: fresh_table_def q q(3) [symmetric]\<close>) [16]
         apply (rule path)
        apply (rule Q, assumption, auto)
        done
    next
      case (Key_val kv)
      then show ?thesis by (simp add: wp_raise_pinv(6) [OF s])
    next
      case (Key_arr a)
      then have a: "a \<in> A" using k(3) by simp
      have "\<exists>p. last (arr_elems (t_arrays s a)) = E_tab p \<and> p \<in> T"
        if "arr_kind (t_arrays s a) = CHR ''t''" "arr_elems (t_arrays s a) \<noteq> []"
        using pinv_elem_wf [OF s a last_in_set [OF that(2)]] that(1)
        by (auto simp: elem_wf_def split: toml_elem.splits)
      then show ?thesis
        using down by (auto simp: Key_arr wp_simps wp_the_array [OF s a] wp_raise_pinv(3) [OF s])
    next
      case (Key_tab p)
      then show ?thesis using k(2) down by simp
    qed
    done
qed

lemma wp_walk_tabpath [parser_rules]:
  assumes s: "pinv c L r T A s" and p: "path_ok c (cx_tpath s)"
    and Q: "\<And>T' t. pinv c L r T' A t \<Longrightarrow> T \<subseteq> T' \<Longrightarrow> cx_tok t = cx_tok s \<Longrightarrow> Q () t"
  shows "wp walk_tabpath Q (jumps L r) s"
proof -
  have r: "cx_root s \<in> T" using pinvD(2,6) [OF s] by simp
  show ?thesis unfolding walk_tabpath_def wp_simps
    apply simp
    apply (unfold wp_simps)
    apply (rule wp_walk_path [OF s r p])
    apply (rule Q, rule pinv_curtab, assumption+, simp)
    done
qed

lemma wp_add_array_table [parser_rules]:
  assumes s: "pinv c L r T A s" and z: "token_ok c z" "tk_tok z = STRING"
    and Q: "\<And>T' A' p t. pinv c L r T' A' t \<Longrightarrow> T \<subseteq> T' \<Longrightarrow> p \<in> T' \<Longrightarrow> cx_tok t = cx_tok s \<Longrightarrow> Q p t"
  shows "wp (add_array_table z) Q (jumps L r) s"
proof -
  have fill: "wp (seqE (need_room 1159) (bindE (new_table 1165) (\<lambda>dest.
        seqE (need_room 1170)
        (seqE (upd_table dest (\<lambda>t. t\<lparr>tab_key := Some ''__anon__''\<rparr>))
        (seqE (array_push arr (E_tab dest)) (ret dest)))))) Q (jumps L r) u"
    if u: "pinv c L r T A' u" and arr: "arr \<in> A'" and k: "arr_kind (t_arrays u arr) = CHR ''t''"
      and tok: "cx_tok u = cx_tok s" for u A' arr
  proof -
    let ?q = "Suc (t_brk u)"
    have q: "arr \<noteq> 0" "arr \<in> t_live u" "?q \<noteq> arr" using pinv_less [OF u, of arr] arr by auto
    show ?thesis
      unfolding wp_simps array_push_def
      apply (rule wp_need_room [OF u], rule wp_new_table [OF pinv_brk [OF u]], rule wp_need_room_dangling [where T = T and A = A'])
        apply (simp add: pinvD [OF u])
       apply (rule pinv_dangling [OF u, where n = "Suc (Suc (t_brk u))"], simp_all) [1]
      apply (simp add: wp_simps wp_upd_table wp_upd_array q)
      apply (rule Q, rule pinv_heap [OF u], rule link_table_in_array [OF pinvD(1) [OF u] arr,
          where q = ?q and k = "Some ''__anon__''"])
                       apply (use tok k in \<open>auto simp: fresh_table_def\<close>)
      done
  qed
  show ?thesis
    unfolding add_array_table_def wp_simps
    apply (rule wp_create_keyarray [OF s pinvD(3) [OF s] z])
    subgoal premises a for A' arr t
    proof (cases "arr = 0")
      case True
      then show ?thesis by (simp add: wp_raise_pinv(4) [OF a(1)])
    next
      case False
      then have arr: "arr \<in> A'" using a(3) by simp
      have q: "arr \<noteq> 0" "arr \<in> t_live t" using pinv_less [OF a(1), of arr] arr by auto
      show ?thesis
      proof (cases "arr_kind (t_arrays t arr) = NUL")
        case True
        note t = pinv_set_kind [OF a(1) arr True, of "CHR ''t''"]
        show ?thesis using False fill [OF t arr, unfolded wp_simps] a(4)
          by (simp add: wp_the_array [OF a(1) arr] wp_the_array [OF t arr] wp_simps True wp_upd_array q)
      next
        case kind: False
        then show ?thesis using False fill [OF a(1) arr _ a(4), unfolded wp_simps]
          by (simp add: wp_the_array [OF a(1) arr] wp_simps wp_raise_pinv(4) [OF a(1)])
      qed
    qed
    done
qed

lemma path_ok_last:
  assumes "path_ok c p" "p \<noteq> []"
  shows "token_ok c (snd (last p)) \<and> tk_tok (snd (last p)) = STRING"
  using bspec [OF assms(1) [unfolded path_ok_def] last_in_set [OF assms(2)]] by (simp add: case_prod_unfold)

lemma path_ok_butlast: "path_ok c p \<Longrightarrow> path_ok c (butlast p)"
  by (auto simp: path_ok_def dest: in_set_butlastD)

lemma wp_select_target [parser_rules]:
  assumes s: "pinv c L r T A s" and z: "token_ok c z \<and> tk_tok z = STRING"
    and Q: "\<And>T' A' p t. pinv c L r T' A' t \<Longrightarrow> p \<in> T' \<Longrightarrow> cx_tok t = cx_tok s \<Longrightarrow> Q p t"
  shows "wp (select_target double z) Q (jumps L r) s"
  using z by (auto simp: select_target_def wp_simps intro!: wp_add_array_table [OF s]
      wp_create_keytable [OF s pinvD(3) [OF s]] Q)

lemma wp_close_select [parser_rules]:
  assumes s: "pinv c L r T A s" and Q: "\<And>t. pinv c L r T A t \<Longrightarrow> pos s \<le> pos t \<Longrightarrow> Q () t"
  shows "wp (close_select double) Q (jumps L r) s"
  unfolding close_select_def wp_simps
  apply (rule wp_expect_token [OF s], rule wp_eat_token [OF s])
  apply (split if_split, intro conjI impI)
   apply (rule wp_expect_token, assumption, rule wp_eat_token, assumption, rule wp_expect_token, assumption)
   apply (rule Q; simp)
  apply (rule wp_expect_token, assumption)
  apply (rule Q; simp)
  done

lemma wp_parse_select [parser_rules]:
  assumes s: "pinv c L r T A s"
    and Q: "\<And>T' A' t. pinv c L r T' A' t \<Longrightarrow> pos s < pos t \<Longrightarrow> Q () t"
  shows "wp parse_select Q (jumps L r) s"
proof (cases "tk_tok (cx_tok s) = LBRACKET")
  case False
  then show ?thesis by (simp add: parse_select_def wp_simps wp_raise_pinv(3) [OF s])
next
  case True
  then have len: "tk_len (cx_tok s) = 1" using token_ok_len [OF pinvD(5) [OF s]] by simp
  have rest: "wp (seqE fill_tabpath
       (bindE (gets (\<lambda>s. snd (last (cx_tpath s)))) (\<lambda>z.
       seqE (modify (\<lambda>s. s\<lparr>cx_tpath := butlast (cx_tpath s)\<rparr>))
       (seqE walk_tabpath
       (bindE (select_target double z) (\<lambda>dest.
       seqE (modify (\<lambda>s. s\<lparr>cx_curtab := dest\<rparr>))
       (close_select double))))))) Q (jumps L r) u"
    if u: "pinv c L r T A u" "pos s < pos u" for double u
    unfolding wp_simps
    apply (rule wp_fill_tabpath [OF u(1)])
    subgoal premises v for v
      apply (rule wp_walk_tabpath [of c L r T A])
        apply (use v(1) in simp)
       apply (use path_ok_butlast [OF v(3)] in simp)
      apply (rule wp_select_target, assumption, rule path_ok_last [OF v(3,4)])
      apply (rule wp_close_select, rule pinv_curtab, assumption, assumption)
      apply (rule Q, assumption)
      apply (use u(2) v(2) in \<open>simp add: pos_def\<close>)
      done
    done
  show ?thesis
    unfolding parse_select_def wp_simps
    apply (simp add: True)
    apply (rule wp_next_token [OF s])
    apply (intro conjI impI)
     apply (rule wp_next_token, assumption)
     apply (rule rest [unfolded wp_simps], assumption, simp add: len)
    apply (rule rest [unfolded wp_simps], assumption, simp add: len)
    done
qed

section \<open>The recursion\<close>

text \<open>A call that keeps the invariant, lets the tree grow and steps over at least \<open>d\<close>
  characters.\<close>

definition goes :: "string \<Rightarrow> toml_mem \<Rightarrow> nat \<Rightarrow> nat set \<Rightarrow> nat set \<Rightarrow> nat \<Rightarrow> unit parser \<Rightarrow> toml_ctx \<Rightarrow> bool" where
  "goes c L r T A d m s \<longleftrightarrow>
     wp m (\<lambda>_ t. \<exists>T' A'. T \<subseteq> T' \<and> A \<subseteq> A' \<and> pinv c L r T' A' t \<and> pos s + d \<le> pos t) (jumps L r) s"

lemma wp_goes:
  assumes "goes c L r T A d m s"
    and "\<And>T' A' t. pinv c L r T' A' t \<Longrightarrow> T \<subseteq> T' \<Longrightarrow> A \<subseteq> A' \<Longrightarrow> pos s + d \<le> pos t \<Longrightarrow> Q () t"
  shows "wp m Q (jumps L r) s"
  using assms(1) unfolding goes_def by (rule wp_mono) (auto intro: assms(2))

lemma goes_done:
  "pinv c L r T' A' t \<Longrightarrow> T \<subseteq> T' \<Longrightarrow> A \<subseteq> A' \<Longrightarrow> n \<le> pos t \<Longrightarrow>
   \<exists>T' A'. T \<subseteq> T' \<and> A \<subseteq> A' \<and> pinv c L r T' A' t \<and> n \<le> pos t"
  by blast

lemma goes_weaken:
  assumes "goes c L r T' A' d m t" "T \<subseteq> T'" "A \<subseteq> A'" "pos s + e \<le> pos t + d"
  shows "wp m (\<lambda>_ t. \<exists>T' A'. T \<subseteq> T' \<and> A \<subseteq> A' \<and> pinv c L r T' A' t \<and> pos s + e \<le> pos t) (jumps L r) t"
  using assms(1)
proof (rule wp_goes)
  fix T'' A'' u
  assume u: "pinv c L r T'' A'' u" "T' \<subseteq> T''" "A' \<subseteq> A''" "pos t + d \<le> pos u"
  show "\<exists>T' A'. T \<subseteq> T' \<and> A \<subseteq> A' \<and> pinv c L r T' A' u \<and> pos s + e \<le> pos u"
    by (rule goes_done [OF u(1)]) (use assms(2-4) u(2-4) in auto)
qed

lemma pinv_pos: "pinv c L r T A s \<Longrightarrow> pos s \<le> length c"
  by (auto simp: pinv_def token_ok_def pos_def)

text \<open>With \<open>n\<close> characters to come from the current token on, a table or an array needs more than
  \<open>3 n\<close> steps, an entry more than \<open>3 n + 1\<close>, a loop more than \<open>3 n + 2\<close>.\<close>

definition parser_ok :: "string \<Rightarrow> toml_mem \<Rightarrow> nat \<Rightarrow> nat \<Rightarrow> bool" where
  "parser_ok c L r f \<longleftrightarrow> (\<forall>T A s p. pinv c L r T A s \<longrightarrow>
     (p \<in> T \<longrightarrow> 3 * (length c - pos s) < f \<longrightarrow> goes c L r T A 1 (parse_table f p) s) \<and>
     (p \<in> A \<longrightarrow> 3 * (length c - pos s) < f \<longrightarrow> goes c L r T A 1 (parse_array f p) s) \<and>
     (p \<in> T \<longrightarrow> 3 * (length c - pos s) + 2 < f \<longrightarrow> goes c L r T A 0 (table_loop f p) s) \<and>
     (p \<in> A \<longrightarrow> 3 * (length c - pos s) + 2 < f \<longrightarrow> goes c L r T A 0 (array_loop f p) s) \<and>
     (p \<in> T \<longrightarrow> 3 * (length c - pos s) + 1 < f \<longrightarrow> goes c L r T A 1 (parse_keyval f p) s))"

lemma parser_okD:
  assumes "parser_ok c L r f" "pinv c L r T A s"
  shows "p \<in> T \<Longrightarrow> 3 * (length c - pos s) < f \<Longrightarrow> goes c L r T A 1 (parse_table f p) s"
    "p \<in> A \<Longrightarrow> 3 * (length c - pos s) < f \<Longrightarrow> goes c L r T A 1 (parse_array f p) s"
    "p \<in> T \<Longrightarrow> 3 * (length c - pos s) + 2 < f \<Longrightarrow> goes c L r T A 0 (table_loop f p) s"
    "p \<in> A \<Longrightarrow> 3 * (length c - pos s) + 2 < f \<Longrightarrow> goes c L r T A 0 (array_loop f p) s"
    "p \<in> T \<Longrightarrow> 3 * (length c - pos s) + 1 < f \<Longrightarrow> goes c L r T A 1 (parse_keyval f p) s"
  using assms unfolding parser_ok_def by blast+

lemma wp_eat_special:
  assumes s: "pinv c L r T A s" and ty: "typ \<noteq> STRING" "typ \<noteq> NEWLINE"
    and Q: "\<And>t. pinv c L r T A t \<Longrightarrow> pos s < pos t \<Longrightarrow> Q () t"
  shows "wp (eat_token typ n) Q (jumps L r) s"
  by (rule wp_eat_token [OF s], rule Q) (use ty in auto)

lemma pinv_steps:
  assumes "pinv c L r T A t" "3 * (length c - n) + d < Suc f" "n < pos t"
  shows "3 * (length c - pos t) + d + 2 < f"
  using pinv_pos [OF assms(1)] assms(2,3) by linarith

lemma goes_parse_table:
  assumes f: "parser_ok c L r f" and s: "pinv c L r T A s" and p: "p \<in> T"
    and n: "3 * (length c - pos s) < Suc f"
  shows "goes c L r T A 1 (parse_table (Suc f) p) s"
  unfolding goes_def parse_table.simps [of "Suc f"] nat.case wp_simps
  apply (rule wp_eat_special [OF s], simp_all only: tokentype.distinct not_False_eq_True)
  subgoal premises t for t
    apply (rule wp_goes [OF parser_okD(3) [OF f t(1) p]])
     apply (use pinv_steps [OF t(1) _ t(2), of 0 f] n in simp)
    apply (rule wp_expect_token, assumption, rule wp_eat_token, assumption, rule goes_done, assumption+)
    apply (use t(2) in simp)
    done
  done

lemma goes_parse_array:
  assumes f: "parser_ok c L r f" and s: "pinv c L r T A s" and p: "p \<in> A"
    and n: "3 * (length c - pos s) < Suc f"
  shows "goes c L r T A 1 (parse_array (Suc f) p) s"
  unfolding goes_def parse_array.simps [of "Suc f"] nat.case wp_simps
  apply (rule wp_eat_special [OF s], simp_all only: tokentype.distinct not_False_eq_True)
  subgoal premises t for t
    apply (rule wp_goes [OF parser_okD(4) [OF f t(1) p]])
     apply (use pinv_steps [OF t(1) _ t(2), of 0 f] n in simp)
    apply (rule wp_expect_token, assumption, rule wp_eat_token, assumption, rule goes_done, assumption+)
    apply (use t(2) in simp)
    done
  done

lemma goes_table_loop:
  assumes f: "parser_ok c L r f" and s: "pinv c L r T A s" and p: "p \<in> T"
    and n: "3 * (length c - pos s) + 2 < Suc f"
  shows "goes c L r T A 0 (table_loop (Suc f) p) s"
  unfolding goes_def table_loop.simps [of "Suc f"] nat.case wp_simps
  apply (rule wp_skip_newlines [OF s])
  apply (split if_split, intro conjI impI)
   apply (rule goes_done, assumption, simp_all) [1]
  subgoal premises t for t
    apply (rule wp_expect_token [OF t(1)], rule wp_goes [OF parser_okD(5) [OF f t(1) p]])
     apply (use t(2) n pinv_pos [OF t(1)] in linarith)
    apply (rule wp_skip_newlines, assumption)
    apply (split if_split, intro conjI impI)
     apply (rule wp_eat_special, assumption, simp, simp)
     apply (rule goes_weaken, rule parser_okD(3) [OF f], assumption)
         apply (use p in blast)
        apply (insert t(2) n, (drule pinv_pos)+, linarith)
       apply (assumption | use t(2) in linarith)+
    apply (rule goes_done, assumption, assumption, assumption, use t(2) in linarith)
    done
  done

lemma wp_array_entry:
  assumes f: "parser_ok c L r f" and s: "pinv c L r T A s" and p: "p \<in> A"
    and n: "3 * (length c - pos s) < f"
    and Q: "\<And>T' A' t. pinv c L r T' A' t \<Longrightarrow> T \<subseteq> T' \<Longrightarrow> A \<subseteq> A' \<Longrightarrow> pos s \<le> pos t \<Longrightarrow> Q () t"
  shows "wp (case tk_tok (cx_tok s) of
              STRING \<Rightarrow> push_value p
            | LBRACKET \<Rightarrow>
                seqE (set_kind p (CHR ''a'') ''array type mismatch'')
                (bindE (create_array_in_array p) (\<lambda>q. parse_array f q))
            | LBRACE \<Rightarrow>
                seqE (set_kind p (CHR ''t'') ''array type mismatch'')
                (bindE (create_table_in_array p) (\<lambda>q. parse_table f q))
            | _ \<Rightarrow> syntax_here ''syntax error'') Q (jumps L r) s"
proof -
  have "wp (push_value p) Q (jumps L r) s"
    by (rule wp_push_value [OF s p], rule Q) auto
  moreover have "wp (seqE (set_kind p (CHR ''a'') ''array type mismatch'')
      (bindE (create_array_in_array p) (\<lambda>q. parse_array f q))) Q (jumps L r) s"
    unfolding wp_simps
    apply (rule wp_set_kind [OF s p])
    apply (rule wp_create_array_in_array, assumption, rule p, assumption)
    apply (rule wp_goes, rule parser_okD(2) [OF f], assumption, assumption)
     apply (use n in \<open>simp add: pos_def\<close>)
    apply (rule Q, assumption, assumption, blast, simp add: pos_def)
    done
  moreover have "wp (seqE (set_kind p (CHR ''t'') ''array type mismatch'')
      (bindE (create_table_in_array p) (\<lambda>q. parse_table f q))) Q (jumps L r) s"
    unfolding wp_simps
    apply (rule wp_set_kind [OF s p])
    apply (rule wp_create_table_in_array, assumption, rule p, assumption)
    apply (rule wp_goes, rule parser_okD(1) [OF f], assumption, assumption)
     apply (use n in \<open>simp add: pos_def\<close>)
    apply (rule Q, assumption, blast, assumption, simp add: pos_def)
    done
  ultimately show ?thesis by (simp add: wp_raise_pinv(7) [OF s] split: tokentype.split)
qed

lemma goes_array_loop:
  assumes f: "parser_ok c L r f" and s: "pinv c L r T A s" and p: "p \<in> A"
    and n: "3 * (length c - pos s) + 2 < Suc f"
  shows "goes c L r T A 0 (array_loop (Suc f) p) s"
  unfolding goes_def array_loop.simps [of "Suc f"] nat.case wp_simps
  apply (rule wp_skip_newlines [OF s])
  apply (split if_split, intro conjI impI)
   apply (rule goes_done, assumption, simp_all) [1]
  subgoal premises t for t
    apply (rule wp_array_entry [OF f t(1) p])
     apply (use t(2) n pinv_pos [OF t(1)] in linarith)
    apply (rule wp_skip_newlines, assumption)
    apply (split if_split, intro conjI impI)
     apply (rule wp_eat_special, assumption, simp, simp)
     apply (rule goes_weaken, rule parser_okD(4) [OF f], assumption)
         apply (use p in blast)
        apply (insert t(2) n, (drule pinv_pos)+, linarith)
       apply (assumption | use t(2) in linarith)+
    apply (rule goes_done, assumption, assumption, assumption, use t(2) in linarith)
    done
  done

lemma wp_keyval_value:
  assumes f: "parser_ok c L r f" and s: "pinv c L r T A s" and p: "p \<in> T"
    and n: "3 * (length c - pos s) < f" and key: "token_ok c key" "tk_tok key = STRING"
    and Q: "\<And>T' A' t. pinv c L r T' A' t \<Longrightarrow> T \<subseteq> T' \<Longrightarrow> A \<subseteq> A' \<Longrightarrow> pos s \<le> pos t \<Longrightarrow> Q () t"
  shows "wp (case tk_tok (cx_tok s) of
            STRING \<Rightarrow>
              bindE (create_keyval_in_table p key) (\<lambda>i.
              bindE cur_tok (\<lambda>val.
              seqE (need_room 951)
              (bindE (gets (\<lambda>s. tk_text (cx_conf s) val)) (\<lambda>v.
              seqE (set_kval p i v)
              (eat_token STRING 955)))))
          | LBRACKET \<Rightarrow>
              bindE (create_keyarray_in_table p key False) (\<lambda>arr. parse_array f arr)
          | LBRACE \<Rightarrow>
              bindE (create_keytable_in_table p key) (\<lambda>nxttab. parse_table f nxttab)
          | _ \<Rightarrow> syntax_here ''syntax error'') Q (jumps L r) s"
proof -
  have "wp (bindE (create_keyval_in_table p key) (\<lambda>i.
              bindE cur_tok (\<lambda>val.
              seqE (need_room 951)
              (bindE (gets (\<lambda>s. tk_text (cx_conf s) val)) (\<lambda>v.
              seqE (set_kval p i v)
              (eat_token STRING 955)))))) Q (jumps L r) s"
    unfolding wp_simps
    apply (rule wp_create_keyval [OF s p key])
    apply (rule wp_need_room, assumption)
    apply (rule wp_set_kval, rule pinv_brk, assumption, rule p)
    apply (rule wp_eat_token, assumption)
    apply (rule Q, assumption, simp_all add: pos_def)
    done
  moreover have "wp (bindE (create_keyarray_in_table p key False) (\<lambda>arr. parse_array f arr)) Q (jumps L r) s"
    unfolding wp_simps
    apply (rule wp_create_keyarray [OF s p key])
    apply (rule wp_goes, rule parser_okD(2) [OF f], assumption, simp)
     apply (use n in \<open>simp add: pos_def\<close>)
    apply (rule Q, assumption, assumption, blast, simp add: pos_def)
    done
  moreover have "wp (bindE (create_keytable_in_table p key) (\<lambda>nxttab. parse_table f nxttab)) Q (jumps L r) s"
    unfolding wp_simps
    apply (rule wp_create_keytable [OF s p key])
    apply (rule wp_goes, rule parser_okD(1) [OF f], assumption, assumption)
     apply (use n in \<open>simp add: pos_def\<close>)
    apply (rule Q, assumption, blast, assumption, simp add: pos_def)
    done
  ultimately show ?thesis by (simp add: wp_raise_pinv(7) [OF s] split: tokentype.split)
qed

lemma goes_parse_keyval:
  assumes f: "parser_ok c L r f" and s: "pinv c L r T A s" and p: "p \<in> T"
    and n: "3 * (length c - pos s) + 1 < Suc f"
  shows "goes c L r T A 1 (parse_keyval (Suc f) p) s"
proof (cases "tk_tok (cx_tok s) = STRING")
  case False
  then show ?thesis
    by (simp add: goes_def parse_keyval.simps [of "Suc f"] wp_simps wp_raise_pinv(3) [OF s])
next
  case True
  show ?thesis
    unfolding goes_def parse_keyval.simps [of "Suc f"] nat.case wp_simps
    apply (simp only: True simp_thms if_False)
    apply (rule wp_eat_token [OF s], rule wp_expect_token, assumption, rule wp_eat_special, assumption, simp, simp)
    subgoal premises t for t u
      apply (rule wp_keyval_value [OF f t(7) p _ pinvD(5) [OF s] True])
       apply (use t(2,8) n pinv_pos [OF t(7)] in linarith)
      apply (rule goes_done, assumption+)
      apply (use t(2,8) in linarith)
      done
    done
qed

text \<open>Every text keeps the invariant of the parser, and a number of steps that grows with the
  length of the text is enough.\<close>

lemma parser_ok_all: "parser_ok c L r f"
proof (induction f)
  case 0
  then show ?case by (simp add: parser_ok_def)
next
  case (Suc f)
  then show ?case
    unfolding parser_ok_def [of c L r "Suc f"]
    by (blast intro: goes_parse_table goes_parse_array goes_table_loop goes_array_loop goes_parse_keyval)
qed

section \<open>The whole text\<close>

lemma wp_parse_lines:
  assumes "pinv c L r T A s" "3 * (length c - pos s) + 2 < f"
  shows "wp (parse_lines f) (\<lambda>_ t. \<exists>T A. pinv c L r T A t) (jumps L r) s"
  using assms
proof (induction f arbitrary: T A s)
  case 0
  then show ?case by simp
next
  case (Suc f)
  note s = Suc.prems(1) and n = Suc.prems(2)
  let ?Q = "\<lambda>_ t. \<exists>T A. pinv c L r T A t"
  show ?case
  proof (cases "tk_eof (cx_tok s)")
    case True
    then show ?thesis using s by (auto simp: parse_lines.simps [of "Suc f"] wp_simps)
  next
    case False
    have next_line: "wp (parse_lines f) ?Q (jumps L r) t" if "pinv c L r T' A' t" "pos s < pos t" for T' A' t
      by (rule Suc.IH [OF that(1)]) (use that(2) n pinv_pos [OF that(1)] in linarith)
    have len: "tk_len (cx_tok s) = 1" if "tk_tok (cx_tok s) = NEWLINE"
      using pinvD(5) [OF s] that False by (simp add: token_ok_def)
    have "wp (seqE (next_token True) (parse_lines f)) ?Q (jumps L r) s" if "tk_tok (cx_tok s) = NEWLINE"
      unfolding wp_simps
      by (rule wp_next_token [OF s], rule next_line, assumption) (use len [OF that] in simp)
    moreover have "wp (seqE parse_select (parse_lines f)) ?Q (jumps L r) s"
      unfolding wp_simps by (rule wp_parse_select [OF s], rule next_line)
    moreover have "wp (seqE (parse_keyval f (cx_curtab s))
              (seqE (expect_token NEWLINE ''extra chars after value'')
              (seqE (eat_token NEWLINE 1258)
              (parse_lines f)))) ?Q (jumps L r) s"
      unfolding wp_simps
      apply (rule wp_goes [OF parser_okD(5) [OF parser_ok_all s pinvD(3) [OF s]]])
       apply (use n in linarith)
      apply (rule wp_expect_token, assumption, rule wp_eat_token, assumption, rule next_line, assumption)
      apply simp
      done
    ultimately show ?thesis using False
      by (simp add: parse_lines.simps [of "Suc f"] wp_simps wp_raise_pinv(1) [OF s] split: tokentype.split)
  qed
qed

text \<open>The artificial first newline is one more step.\<close>

lemma init_ctx_eqs:
  "t_brk (init_ctx conf n m) = t_brk m" "t_live (init_ctx conf n m) = t_live m"
  "t_alloc_ok (init_ctx conf n m) = t_alloc_ok m" "cx_root (init_ctx conf n m) = 0"
  "cx_conf (init_ctx conf n m) = cstr conf" "t_tables (init_ctx conf n m) = t_tables m"
  "cx_tok (init_ctx conf n m) = \<lparr>tk_tok = NEWLINE, tk_lineno = 1, tk_ptr = 0, tk_len = 0, tk_eof = False\<rparr>"
  by (simp_all add: init_ctx_def toml_mem.defs)

text \<open>The context after the root has been made.\<close>

definition root_ctx :: "string \<Rightarrow> nat \<Rightarrow> toml_mem \<Rightarrow> toml_ctx" where
  "root_ctx conf n m = (init_ctx conf n m)\<lparr>t_brk := Suc (t_brk m), t_live := insert (t_brk m) (t_live m),
     t_tables := (t_tables m)(t_brk m := fresh_table), cx_root := t_brk m, cx_curtab := t_brk m\<rparr>"

lemma make_root_eq:
  "t_alloc_ok m (t_brk m) \<Longrightarrow> 0 < t_brk m \<Longrightarrow> make_root (init_ctx conf n m) = (Inr (), root_ctx conf n m)"
  by (simp add: init_ctx_eqs make_root_def t_calloc_def root_ctx_def seqE_def bindE_def modify_def)

lemma wp_root_lines:
  assumes L: "\<And>p. p \<in> t_live m \<Longrightarrow> 0 < p \<and> p < t_brk m" "0 < t_brk m"
    and f: "3 * length (cstr conf) + 3 < fuel"
  shows "wp (parse_lines fuel) (\<lambda>_ t. \<exists>T A. pinv (cstr conf) m (t_brk m) T A t) (jumps m (t_brk m)) (root_ctx conf n m)"
proof -
  let ?r = "t_brk m" and ?u = "root_ctx conf n m"
  have i: "cx_conf ?u = cstr conf" "cx_root ?u = ?r" "cx_curtab ?u = ?r" "cx_tok ?u = cx_tok (init_ctx conf n m)"
    by (simp_all add: root_ctx_def init_ctx_eqs)
  obtain f where fuel: "fuel = Suc f" using f by (cases fuel) auto
  have h: "heap_ok m ?r {?r} {} ?u" by (rule heap_ok_root [OF L]) (simp_all add: root_ctx_def init_ctx_eqs)
  have first: "wp (next_token True) (\<lambda>_. wp (parse_lines f) (\<lambda>_ t. \<exists>T A. pinv (cstr conf) m ?r T A t) (jumps m ?r))
      (jumps m ?r) ?u"
  proof (cases "next_tok (cstr conf) True (cx_tok ?u)")
    case (Inl e)
    have "wp (raise_error msg) Q (jumps m ?r) ?u" for msg Q by (rule wp_raise [OF h]) (simp add: i)
    then show ?thesis using Inl by (cases e) (simp add: next_token_def wp_simps i e_syntax_error_def)
  next
    case (Inr t)
    have t: "token_ok (cstr conf) t" using next_tok_ok(1) [OF Inr] by (simp add: i init_ctx_eqs)
    have "pinv (cstr conf) m ?r {?r} {} (?u\<lparr>cx_tok := t\<rparr>)"
      using h t by (simp add: pinv_def i)
    then have "wp (parse_lines f) (\<lambda>_ t. \<exists>T A. pinv (cstr conf) m ?r T A t) (jumps m ?r) (?u\<lparr>cx_tok := t\<rparr>)"
      by (rule wp_parse_lines) (use f fuel in simp)
    then show ?thesis using Inr by (simp add: next_token_def wp_simps i)
  qed
  then show ?thesis by (simp add: fuel parse_lines.simps [of "Suc f"] wp_simps i init_ctx_eqs)
qed

text \<open>An error after the root has been made: the jump is caught and the tree released.\<close>

lemma catch_jump:
  assumes "parse_lines fuel (root_ctx conf n m) = (Inl Longjmp, t)" "jumps m (t_brk m) Longjmp t"
    and "t_alloc_ok m (t_brk m)" "0 < t_brk m"
  shows "\<exists>T A. heap_ok m (t_brk m) T A t \<and> catch_error (seqE make_root (parse_lines fuel)) (init_ctx conf n m) =
    (Inr 0, t\<lparr>t_live := t_live t - (T \<union> A)\<rparr>)"
proof -
  obtain T A where t: "cx_root t = t_brk m" "heap_ok m (t_brk m) T A t"
    using assms(2) by (auto simp: jumps_def)
  have "toml_free (t_brk m) t = (Inr (), t\<lparr>t_live := t_live t - (T \<union> A)\<rparr>)" by (rule toml_free_tree [OF t(2)])
  then show ?thesis
    using assms(1) make_root_eq [OF assms(3,4), of conf n] t by (auto simp: catch_error_def ret_def)
qed

lemma wp_parse_text:
  assumes L: "\<And>p. p \<in> t_live m \<Longrightarrow> 0 < p \<and> p < t_brk m" "0 < t_brk m"
    and f: "3 * length (cstr conf) + 3 < fuel"
  shows "wp (catch_error (seqE make_root (parse_lines fuel)))
     (\<lambda>p t. p \<noteq> 0 \<and> (\<exists>T A. heap_ok m p T A t) \<or>
        p = 0 \<and> t_live m \<subseteq> t_live t \<and> ((\<forall>n. t_alloc_ok m n) \<longrightarrow> t_live t = t_live m))
     (\<lambda>h t. h = Diverges) (init_ctx conf n m)"
proof (cases "t_alloc_ok m (t_brk m)")
  case False
  let ?s = "init_ctx conf n m"
  have "seqE make_root (parse_lines fuel) ?s =
    (Inl Longjmp, ?s\<lparr>t_brk := Suc (t_brk ?s),
      cx_errbuf := take (cx_errbufsz ?s - 1) (msg [''ERROR: out of memory ('', fline 1228, '')''])\<rparr>)"
    using False by (simp add: init_ctx_eqs make_root_def t_calloc_def raise_error_def seqE_def bindE_def modify_def stop_def)
  then show ?thesis
    by (simp add: init_ctx_eqs wp_def catch_error_def toml_free_def xfree_tab.simps seqE_def bindE_def gets_def ret_def)
next
  case True
  note root = make_root_eq [OF True L(2), of conf n]
  note lines = wp_root_lines [OF L f, of n]
  obtain res t where res: "parse_lines fuel (root_ctx conf n m) = (res, t)"
    by (cases "parse_lines fuel (root_ctx conf n m)")
  show ?thesis
  proof (cases res)
    case (Inr x)
    then obtain T A where t: "pinv (cstr conf) m (t_brk m) T A t"
      using wp_returns [OF lines] res by auto
    then show ?thesis using res Inr root pinvD(1,2) [OF t] L(2)
      by (auto simp: wp_def catch_error_def)
  next
    case (Inl h)
    then have j: "jumps m (t_brk m) h t" using wp_halts [OF lines] res by auto
    show ?thesis
    proof (cases "h = Diverges")
      case True
      then show ?thesis using res Inl root by (simp add: wp_def catch_error_def)
    next
      case False
      then have h: "h = Longjmp" using j by (simp add: jumps_def)
      obtain T A where t: "heap_ok m (t_brk m) T A t"
        "catch_error (seqE make_root (parse_lines fuel)) (init_ctx conf n m) = (Inr 0, t\<lparr>t_live := t_live t - (T \<union> A)\<rparr>)"
        using catch_jump [OF _ _ True L(2), of fuel conf n t] res Inl j h by auto
      show ?thesis using heap_okD(1) [OF t(1)] t(2) unfolding alloc_wf_def by (auto simp: wp_def)
    qed
  qed
qed

end
