(* ===== verification/Toml_Ends.thy ===== *)
theory Toml_Ends
  imports Toml_Safe
begin

text \<open>
  What a call of \<open>toml_parse\<close> (\<^verbatim>\<open>src/external/toml.c\<close>) comes to, for every text and every
  behaviour of the allocator: a well-formed tree, an error that leaves no structure behind, or the
  loop that skips newlines for ever at the end of an unclosed array or inline table.
\<close>

definition store_ok :: "toml_mem \<Rightarrow> bool" where
  "store_ok m \<longleftrightarrow> 0 < t_brk m \<and> (\<forall>p \<in> t_live m. 0 < p \<and> p < t_brk m)"

lemma heap_ok_truncate: "heap_ok L r T A t \<Longrightarrow> heap_ok L r T A (toml_mem.truncate t)"
  by (erule heap_ok_cong) (simp_all add: toml_mem.defs)

lemma wp_toml_parse:
  assumes "store_ok m" "3 * length (cstr conf) + 3 < fuel"
  shows "wp (toml_parse fuel conf n)
     (\<lambda>(p, e) t. p \<noteq> 0 \<and> (\<exists>T A. heap_ok m p T A t) \<or>
        p = 0 \<and> t_live m \<subseteq> t_live t \<and> ((\<forall>n. t_alloc_ok m n) \<longrightarrow> t_live t = t_live m))
     (\<lambda>h t. h = Diverges) m"
proof -
  obtain res t where res: "catch_error (seqE make_root (parse_lines fuel)) (init_ctx conf n m) = (res, t)"
    by (cases "catch_error (seqE make_root (parse_lines fuel)) (init_ctx conf n m)")
  have L: "0 < p \<and> p < t_brk m" if "p \<in> t_live m" for p using assms(1) that by (simp add: store_ok_def)
  have b: "0 < t_brk m" using assms(1) by (simp add: store_ok_def)
  note w = wp_parse_text [OF L b assms(2), of n, unfolded wp_def res]
  have l: "t_live (toml_mem.truncate t) = t_live t" by (simp add: toml_mem.defs)
  show ?thesis
  proof (cases res)
    case (Inl h)
    then show ?thesis using w res by (simp add: wp_def toml_parse_def)
  next
    case (Inr p)
    have "\<exists>T A. heap_ok m p T A (toml_mem.truncate t)" if "\<exists>T A. heap_ok m p T A t"
      using that heap_ok_truncate by blast
    then show ?thesis using w res Inr l by (simp add: wp_def toml_parse_def) blast
  qed
qed

text \<open>The tables and arrays below a table, as the lookup functions need them.\<close>

definition tree_of :: "toml_mem \<Rightarrow> nat set \<Rightarrow> nat set \<Rightarrow> bool" where
  "tree_of m T A \<longleftrightarrow>
     (\<forall>q \<in> T. table_ok m q \<and> distinct (table_keys m q) \<and>
        set (tab_tab (t_tables m q)) \<subseteq> T \<and> set (tab_arr (t_tables m q)) \<subseteq> A) \<and>
     (\<forall>q \<in> A. q \<in> t_live m \<and> (\<forall>e \<in> set (arr_elems (t_arrays m q)). case e of
         E_val v \<Rightarrow> arr_kind (t_arrays m q) = CHR ''v''
       | E_arr a \<Rightarrow> arr_kind (t_arrays m q) = CHR ''a'' \<and> a \<in> A
       | E_tab a \<Rightarrow> arr_kind (t_arrays m q) = CHR ''t'' \<and> a \<in> T))"

lemma heap_ok_tree_of:
  assumes h: "heap_ok L r T A m"
  shows "tree_of m T A"
proof -
  note hD = heap_okD [OF h]
  have "table_ok m q \<and> distinct (table_keys m q) \<and>
        set (tab_tab (t_tables m q)) \<subseteq> T \<and> set (tab_arr (t_tables m q)) \<subseteq> A" if "q \<in> T" for q
    using hD(3) [OF that] hD(7-10) that unfolding tab_wf_def table_ok_def by blast
  moreover have "case e of
         E_val v \<Rightarrow> arr_kind (t_arrays m q) = CHR ''v''
       | E_arr a \<Rightarrow> arr_kind (t_arrays m q) = CHR ''a'' \<and> a \<in> A
       | E_tab a \<Rightarrow> arr_kind (t_arrays m q) = CHR ''t'' \<and> a \<in> T"
    if "q \<in> A" "e \<in> set (arr_elems (t_arrays m q))" for q e
    using hD(4) [OF that(1)] that(2) by (auto simp: arr_wf_def elem_wf_def split: toml_elem.splits)
  ultimately show ?thesis unfolding tree_of_def using hD(10) by blast
qed

section \<open>Newlines at the end of the text\<close>

text \<open>Blank text: white space and newlines only.\<close>

definition blank_char :: "char \<Rightarrow> bool" where
  "blank_char c \<longleftrightarrow> c \<in> {LF, CR, CHR '' '', TAB}"

definition blank_from :: "string \<Rightarrow> nat \<Rightarrow> bool" where
  "blank_from conf p \<longleftrightarrow> (\<forall>c \<in> set (drop p conf). blank_char c)"

lemma blank_from_mono: "blank_from conf p \<Longrightarrow> p \<le> q \<Longrightarrow> blank_from conf q"
  using set_drop_subset_set_drop [of p q conf] by (auto simp: blank_from_def)

lemma make_token_blank:
  "blank_from conf p \<Longrightarrow> \<exists>t. make_token conf d l p = Inr t \<and> tk_tok t = NEWLINE \<and> blank_from conf (tk_ptr t + tk_len t)"
proof (induction conf d l p rule: make_token.induct)
  case (1 conf d l p)
  show ?case
  proof (cases "p < length conf")
    case False
    then show ?thesis by (subst make_token.simps) (simp add: ret_eof_def ret_token_def blank_from_def)
  next
    case True
    then have "conf ! p \<in> set (drop p conf)" by (metis Cons_nth_drop_Suc list.set_intros(1))
    then have "blank_char (conf ! p)" using "1.prems" by (simp add: blank_from_def)
    then consider "conf ! p = LF" | "conf ! p = CR \<or> conf ! p = CHR '' '' \<or> conf ! p = TAB"
      by (auto simp: blank_char_def)
    then show ?thesis
    proof cases
      case 1
      with True blank_from_mono [OF "1.prems", of "p + 1"] show ?thesis
        by (subst make_token.simps) (simp add: special_char_def ret_token_def)
    next
      case 2
      then have n: "conf ! p \<noteq> CHR ''#''" "\<not> (d \<and> conf ! p = CHR ''.'')" "special_char (conf ! p) = None"
        by (auto simp: special_char_def)
      have eq: "make_token conf d l p = make_token conf d l (p + 1)"
        using True 2 n by (subst make_token.simps) (auto simp: Let_def)
      have "blank_from conf (p + 1)" using blank_from_mono [OF "1.prems"] by simp
      from "1.IH"(2) [OF True refl n(1,2,3) 2 this] show ?thesis unfolding eq by auto
    qed
  qed
qed

lemma next_tok_blank:
  assumes "blank_from conf (tk_ptr t + tk_len t)"
  shows "\<exists>t'. next_tok conf d t = Inr t' \<and> tk_tok t' = NEWLINE \<and> blank_from conf (tk_ptr t' + tk_len t')"
  using make_token_blank [OF assms] unfolding next_tok_def by blast

text \<open>With nothing but blank text ahead, skipping newlines never ends.\<close>

lemma skip_loop_blank:
  assumes "tk_tok t = NEWLINE" "blank_from conf (tk_ptr t + tk_len t)"
  shows "skip_loop conf t = None"
proof (rule ccontr)
  assume "skip_loop conf t \<noteq> None"
  then obtain y where "skip_loop conf t = Some y" by auto
  then have "\<not> (tk_tok t = NEWLINE \<and> blank_from conf (tk_ptr t + tk_len t))"
  proof (rule skip_loop.raw_induct [rotated, of _ _ _ "\<lambda>conf t y. \<not> (tk_tok t = NEWLINE \<and> blank_from conf (tk_ptr t + tk_len t))"],
      goal_cases)
    case (1 f conf t y)
    show ?case
    proof
      assume t: "tk_tok t = NEWLINE \<and> blank_from conf (tk_ptr t + tk_len t)"
      obtain t' where t': "next_tok conf False t = Inr t'" "tk_tok t' = NEWLINE" "blank_from conf (tk_ptr t' + tk_len t')"
        using next_tok_blank [of conf t] t by blast
      then have "f conf t' = Some y" using 1(2) t by simp
      from 1(1) [OF this] t' show False by simp
    qed
  qed
  with assms show False by simp
qed

section \<open>An unclosed array or table at the end\<close>

definition bare_key :: "string \<Rightarrow> bool" where
  "bare_key k \<longleftrightarrow> k \<noteq> [] \<and> (\<forall>c \<in> set k. c_isalnum c \<or> c = CHR ''_'' \<or> c = CHR ''-'')"

lemma alnum_bare: "c_isalnum c \<Longrightarrow> bare_char d c"
  unfolding bare_char_def c_isalnum_def Let_def by (rule conjI) auto

lemma not_alnum:
  "\<not> c_isalnum SQ" "\<not> c_isalnum DQ" "\<not> c_isalnum (CHR ''#'')" "\<not> c_isalnum (CHR ''.'')" "\<not> c_isalnum LF"
  "\<not> c_isalnum CR" "\<not> c_isalnum (CHR '' '')" "\<not> c_isalnum TAB" "\<not> c_isalnum NUL"
  "\<not> c_isalnum (CHR '','')" "\<not> c_isalnum (CHR ''='')" "\<not> c_isalnum (CHR ''{'')" "\<not> c_isalnum (CHR ''}'')"
  "\<not> c_isalnum (CHR ''['')" "\<not> c_isalnum (CHR '']'')"
  by (simp_all add: c_isalnum_def)

lemma bare_char_key:
  assumes "c_isalnum c \<or> c = CHR ''_'' \<or> c = CHR ''-''"
  shows "bare_char d c" "c \<notin> {SQ, DQ, CHR ''#'', CHR ''.'', LF, CR, CHR '' '', TAB, NUL}" "special_char c = None"
proof -
  show "bare_char d c"
    using assms by (elim disjE alnum_bare) (simp_all add: bare_char_def)
  show "c \<notin> {SQ, DQ, CHR ''#'', CHR ''.'', LF, CR, CHR '' '', TAB, NUL}"
    using assms by (elim disjE) (use not_alnum in \<open>fastforce, simp_all\<close>)
  show "special_char c = None"
    using assms by (elim disjE) (use not_alnum in \<open>fastforce simp: special_char_def, simp_all add: special_char_def\<close>)
qed

lemma make_token_bare_key:
  assumes k: "bare_key k" and conf: "drop p conf = k @ c # r" and c: "\<not> bare_char d c"
  shows "make_token conf d l p = Inr (ret_token STRING l p (length k))"
proof -
  obtain a k' where a: "k = a # k'" using k by (cases k) (auto simp: bare_key_def)
  then have ca: "c_isalnum a \<or> a = CHR ''_'' \<or> a = CHR ''-''" using k by (simp add: bare_key_def)
  note b = bare_char_key [OF ca]
  have d: "drop p conf = a # k' @ c # r" using conf a by simp
  have p: "conf ! p = a" by (rule nth_via_drop [OF d])
  have pl: "p < length conf" using d drop_all [of conf p] by (cases "p < length conf") simp_all
  have "takeWhile (bare_char d) (k @ c # r) = k"
    using k c bare_char_key(1) [of _ d] by (subst takeWhile_append2) (auto simp: bare_key_def)
  then have "scan_string (drop p conf) d = Inr (length k)"
    using b(2) a unfolding conf scan_string_def by (simp add: prefix_of_def peek_def)
  then show ?thesis
    using p pl b(2,3) by (subst make_token.simps) (simp add: Let_def)
qed

lemma make_token_special:
  assumes "p < length conf" "conf ! p = c" "special_char c = Some t" "c \<noteq> CHR ''#''" "c \<noteq> CHR ''.''"
  shows "make_token conf d l p = Inr (ret_token t l p 1)"
  using assms by (subst make_token.simps) simp

lemma wp_next_token_eq:
  "wp (next_token d) Q E s = (case next_tok (cx_conf s) d (cx_tok s) of
     Inl e \<Rightarrow> wp (e_syntax_error (fst e) (snd e)) Q E s
   | Inr t \<Rightarrow> Q () (s\<lparr>cx_tok := t\<rparr>))"
  by (simp add: next_token_def wp_simps split: sum.split)

lemma ret_token_simps [simp]:
  "tk_tok (ret_token t l p n) = t" "tk_ptr (ret_token t l p n) = p" "tk_len (ret_token t l p n) = n"
  "tk_lineno (ret_token t l p n) = l" "tk_eof (ret_token t l p n) = False"
  by (simp_all add: ret_token_def)

text \<open>The three tokens of \<open>k = [\<close> or \<open>k = {\<close>, and the newline behind them.\<close>

lemma open_tokens:
  fixes k :: string and b :: char and rest :: string
  assumes conf: "conf = k @ CHR ''='' # b # rest"
    and k: "bare_key k" and b: "b = CHR ''['' \<or> b = CHR ''{''" and rest: "\<forall>c \<in> set rest. blank_char c"
    and t0: "tk_ptr t0 = 0" "tk_len t0 = 0"
  obtains l1 l2 l3 t4 where
    "next_tok conf True t0 = Inr (ret_token STRING l1 0 (length k))"
    "next_tok conf False (ret_token STRING l1 0 (length k)) = Inr (ret_token EQUAL l2 (length k) 1)"
    "next_tok conf False (ret_token EQUAL l2 (length k) 1) =
       Inr (ret_token (if b = CHR ''['' then LBRACKET else LBRACE) l3 (length k + 1) 1)"
    "next_tok conf False (ret_token (if b = CHR ''['' then LBRACKET else LBRACE) l3 (length k + 1) 1) = Inr t4"
    "skip_loop conf t4 = None"
proof -
  have e: "\<not> bare_char True (CHR ''='')" by (simp add: bare_char_def Let_def)
  have blank: "blank_from conf (length k + 1 + 1)" using rest by (simp add: blank_from_def conf)
  have at: "conf ! length k = CHR ''=''" "conf ! (length k + 1) = b" "length k + 1 < length conf"
    by (simp_all add: conf nth_append)
  have sb: "special_char b = Some (if b = CHR ''['' then LBRACKET else LBRACE)"
    using b by (auto simp: special_char_def)
  have "drop 0 conf = k @ CHR ''='' # b # rest" by (simp add: conf)
  from make_token_bare_key [OF k this e] obtain l1 where
    t1: "next_tok conf True t0 = Inr (ret_token STRING l1 0 (length k))" by (simp add: next_tok_def t0)
  have "make_token conf False l (length k) = Inr (ret_token EQUAL l (length k) 1)" for l
    by (rule make_token_special [where c = "CHR ''=''"]) (use at in \<open>simp_all add: special_char_def\<close>)
  then obtain l2 where
    t2: "next_tok conf False (ret_token STRING l1 0 (length k)) = Inr (ret_token EQUAL l2 (length k) 1)"
    by (simp add: next_tok_def)
  have "make_token conf False l (length k + 1) =
      Inr (ret_token (if b = CHR ''['' then LBRACKET else LBRACE) l (length k + 1) 1)" for l
    by (rule make_token_special [OF at(3,2) sb]) (use b in auto)
  then obtain l3 where
    t3: "next_tok conf False (ret_token EQUAL l2 (length k) 1) =
       Inr (ret_token (if b = CHR ''['' then LBRACKET else LBRACE) l3 (length k + 1) 1)"
    by (simp add: next_tok_def)
  let ?t3 = "ret_token (if b = CHR ''['' then LBRACKET else LBRACE) l3 (length k + 1) 1"
  obtain t4 where t4: "next_tok conf False ?t3 = Inr t4" "tk_tok t4 = NEWLINE" "blank_from conf (tk_ptr t4 + tk_len t4)"
    using next_tok_blank [of conf ?t3 False] blank by auto
  show ?thesis by (rule that [OF t1 t2 t3 t4(1) skip_loop_blank [OF t4(2,3)]])
qed

lemma cstr_open:
  assumes "bare_key k" "b = CHR ''['' \<or> b = CHR ''{''" "\<forall>c \<in> set rest. blank_char c"
  shows "cstr (k @ CHR ''='' # b # rest) = k @ CHR ''='' # b # rest"
proof -
  have k: "c \<noteq> NUL" if "c \<in> set k" for c
  proof -
    have "c_isalnum c \<or> c = CHR ''_'' \<or> c = CHR ''-''" using assms(1) that unfolding bare_key_def by blast
    from bare_char_key(2) [OF this] show ?thesis by simp
  qed
  have r: "c \<noteq> NUL" if "c \<in> set rest" for c
    using bspec [OF assms(3) that] by (auto simp: blank_char_def)
  have b: "b \<noteq> NUL" using assms(2) by auto
  have "\<forall>c \<in> set (k @ CHR ''='' # b # rest). c \<noteq> NUL"
  proof
    fix c assume "c \<in> set (k @ CHR ''='' # b # rest)"
    then consider "c \<in> set k" | "c = CHR ''=''" | "c = b" | "c \<in> set rest" by auto
    then show "c \<noteq> NUL" by cases (use k r b in auto)
  qed
  then show ?thesis unfolding cstr_def takeWhile_eq_all_conv .
qed

lemma normalize_bare_key:
  assumes k: "bare_key k"
  shows "normalize_key (k @ r) (ret_token STRING l 0 (length k)) = Key k"
proof -
  obtain a k' where a: "k = a # k'" using k by (cases k) (auto simp: bare_key_def)
  then have ca: "c_isalnum a \<or> a = CHR ''_'' \<or> a = CHR ''-''" using k by (simp add: bare_key_def)
  have "tk_text (k @ r) (ret_token STRING l 0 (length k)) = k" by (simp add: tk_text_def)
  moreover have "peek (k @ r) 0 = a" by (simp add: peek_def a)
  ultimately show ?thesis
    using bare_char_key(2) [OF ca] k by (simp add: normalize_key_def Let_def bare_key_def)
qed

text \<open>The state when the value begins: one entry of the root table is about to be made.\<close>

lemma unclosed_value:
  assumes "cx_conf s = k @ CHR ''='' # b # rest" "bare_key k" "b = CHR ''['' \<or> b = CHR ''{''"
    and "next_tok (cx_conf s) False (cx_tok s) = Inr t4" "skip_loop (cx_conf s) t4 = None"
    and "cx_tok s = ret_token (if b = CHR ''['' then LBRACKET else LBRACE) l3 (length k + 1) 1"
    and r: "t_tables s r = fresh_table" "r \<in> t_live s" "r \<noteq> 0" "r < t_brk s"
    and ok: "\<And>n. t_alloc_ok s n"
  shows "wp (case tk_tok (cx_tok s) of
            STRING \<Rightarrow>
              bindE (create_keyval_in_table r (ret_token STRING l1 0 (length k))) (\<lambda>i.
              bindE cur_tok (\<lambda>val.
              seqE (need_room 951)
              (bindE (gets (\<lambda>s. tk_text (cx_conf s) val)) (\<lambda>v.
              seqE (set_kval r i v)
              (eat_token STRING 955)))))
          | LBRACKET \<Rightarrow>
              bindE (create_keyarray_in_table r (ret_token STRING l1 0 (length k)) False) (\<lambda>arr. parse_array (Suc (Suc f)) arr)
          | LBRACE \<Rightarrow>
              bindE (create_keytable_in_table r (ret_token STRING l1 0 (length k))) (\<lambda>nxttab. parse_table (Suc (Suc f)) nxttab)
          | _ \<Rightarrow> syntax_here ''syntax error'') (\<lambda>_ _. False) (\<lambda>h t. h = Diverges) s"
proof -
  have key: "wp (normalized_key (ret_token STRING l1 0 (length k))) Q E s = Q k (s\<lparr>t_brk := Suc (t_brk s)\<rparr>)" for Q E
    using ok by (simp add: normalized_key_def wp_simps assms(1) normalize_bare_key [OF assms(2)] t_room_def wp_eq [of t_room])
  have chk: "wp (check_key r k) Q E u = Q No_key u" if "t_tables u r = fresh_table" "r \<in> t_live u" for u Q E
    using that r(3) by (simp add: wp_def check_key_def fresh_table_def ret_def)
  have room: "wp (need_room n) Q E u = Q () (u\<lparr>t_brk := Suc (t_brk u)\<rparr>)" if "t_alloc_ok u (t_brk u)" for n Q E u
    using that by (simp add: need_room_def t_room_def wp_simps wp_eq [of t_room])
  have skip: "wp skip_newlines Q E u = E Diverges u" if "skip_loop (cx_conf u) (cx_tok u) = None" for Q E u
    using that by (simp add: skip_newlines_def wp_simps)
  have eat: "wp (eat_token ty n) Q E u = wp (next_token False) Q E u"
    if "tk_tok (cx_tok u) = ty" for ty n Q E u
    using that by (simp add: eat_token_def wp_simps)
  have q: "r \<noteq> Suc (Suc (t_brk s))" "Suc (Suc (t_brk s)) \<noteq> r" using r(4) by simp_all
  note nt = assms(4) [unfolded assms(6)]
  show ?thesis
  proof (cases "b = CHR ''[''")
    case True
    then show ?thesis using nt
      by (simp add: assms(6) wp_simps create_keyarray_in_table_def key chk r room ok new_array_def wp_upd_table
          wp_upd_array parse_array.simps [of "Suc (Suc f)"] array_loop.simps [of "Suc f"] q
          eat wp_next_token_eq skip assms(5))
  next
    case False
    then show ?thesis using assms(3) nt
      by (simp add: assms(6) wp_simps create_keytable_in_table_def key chk r room ok new_table_def wp_upd_table
          parse_table.simps [of "Suc (Suc f)"] table_loop.simps [of "Suc f"] q
          eat wp_next_token_eq skip assms(5))
  qed
qed

lemma unclosed_text:
  assumes k: "bare_key k" and b: "b = CHR ''['' \<or> b = CHR ''{''" and rest: "\<forall>c \<in> set rest. blank_char c"
    and m: "store_ok m" "\<And>n. t_alloc_ok m n" and conf: "conf = k @ CHR ''='' # b # rest"
  shows "wp (seqE make_root (parse_lines (Suc (Suc (Suc (Suc (Suc f))))))) (\<lambda>_ _. False) (\<lambda>h t. h = Diverges)
    (init_ctx conf n m)"
proof -
  let ?s = "init_ctx conf n m" and ?r = "t_brk m"
  have i: "t_brk ?s = t_brk m" "t_live ?s = t_live m" "t_alloc_ok ?s = t_alloc_ok m" "cx_root ?s = 0"
    "cx_conf ?s = conf" "cx_tok ?s = \<lparr>tk_tok = NEWLINE, tk_lineno = 1, tk_ptr = 0, tk_len = 0, tk_eof = False\<rparr>"
    using cstr_open [OF k b rest] by (simp_all add: init_ctx_def toml_mem.defs conf)
  obtain l1 l2 l3 t4 where t:
    "next_tok conf True (cx_tok ?s) = Inr (ret_token STRING l1 0 (length k))"
    "next_tok conf False (ret_token STRING l1 0 (length k)) = Inr (ret_token EQUAL l2 (length k) 1)"
    "next_tok conf False (ret_token EQUAL l2 (length k) 1) =
       Inr (ret_token (if b = CHR ''['' then LBRACKET else LBRACE) l3 (length k + 1) 1)"
    "next_tok conf False (ret_token (if b = CHR ''['' then LBRACKET else LBRACE) l3 (length k + 1) 1) = Inr t4"
    "skip_loop conf t4 = None"
    by (rule open_tokens [OF conf k b rest, of "cx_tok ?s"]) (simp_all add: i)
  note t' = t(2,3) [unfolded One_nat_def add_Suc_right add_0_right]
  have r: "0 < ?r" using m(1) by (simp add: store_ok_def)
  let ?u = "?s\<lparr>t_brk := Suc ?r, t_live := insert ?r (t_live m), t_tables := (t_tables ?s)(?r := fresh_table),
     cx_root := ?r, cx_curtab := ?r\<rparr>"
  have root: "wp make_root Q E ?s = Q () ?u" for Q E
    using m(2) r by (simp add: make_root_def wp_simps i)
  have eat: "wp (eat_token ty n) Q E u = wp (next_token False) Q E u"
    if "tk_tok (cx_tok u) = ty" for ty n Q E u
    using that by (simp add: eat_token_def wp_simps)
  let ?v = "?u\<lparr>cx_tok := ret_token (if b = CHR ''['' then LBRACKET else LBRACE) l3 (length k + 1) 1\<rparr>"
  have val: "wp (case tk_tok (cx_tok ?v) of
            STRING \<Rightarrow>
              bindE (create_keyval_in_table ?r (ret_token STRING l1 0 (length k))) (\<lambda>i.
              bindE cur_tok (\<lambda>val.
              seqE (need_room 951)
              (bindE (gets (\<lambda>s. tk_text (cx_conf s) val)) (\<lambda>v.
              seqE (set_kval ?r i v)
              (eat_token STRING 955)))))
          | LBRACKET \<Rightarrow>
              bindE (create_keyarray_in_table ?r (ret_token STRING l1 0 (length k)) False) (\<lambda>arr. parse_array (Suc (Suc f)) arr)
          | LBRACE \<Rightarrow>
              bindE (create_keytable_in_table ?r (ret_token STRING l1 0 (length k))) (\<lambda>nxttab. parse_table (Suc (Suc f)) nxttab)
          | _ \<Rightarrow> syntax_here ''syntax error'') (\<lambda>_ _. False) (\<lambda>h t. h = Diverges) ?v"
    by (rule unclosed_value [OF _ k b, where rest = rest and ?l3.0 = l3 and ?t4.0 = t4]) (use t(4,5) conf i r m(2) in simp_all)
  have keyval: "wp (parse_keyval (Suc (Suc (Suc f))) ?r) (\<lambda>_ _. False) (\<lambda>h t. h = Diverges)
      (?u\<lparr>cx_tok := ret_token STRING l1 0 (length k)\<rparr>)"
    using val
    by (cases "b = CHR ''[''")
      (simp_all add: parse_keyval.simps [of "Suc (Suc (Suc f))"] wp_simps eat wp_next_token_eq i t' expect_token_def)
  have keyval': "wp (parse_keyval (Suc (Suc (Suc f))) ?r) Q (\<lambda>h t. h = Diverges)
      (?u\<lparr>cx_tok := ret_token STRING l1 0 (length k)\<rparr>)" for Q
    by (rule wp_mono [OF keyval]) simp_all
  show ?thesis
    by (simp add: keyval' wp_seqE root parse_lines.simps [of "Suc (Suc (Suc (Suc (Suc f))))"]
        parse_lines.simps [of "Suc (Suc (Suc (Suc f)))"] wp_simps i wp_next_token_eq t(1) [unfolded i])
qed

definition empty_store :: toml_mem where
  "empty_store = \<lparr>t_alloc_ok = (\<lambda>_. True), t_brk = 1, t_live = {},
     t_tables = (\<lambda>_. fresh_table), t_arrays = (\<lambda>_. fresh_array)\<rparr>"

lemma empty_store_ok: "store_ok empty_store" "\<forall>n. t_alloc_ok empty_store n" "t_live empty_store = {}"
  by (simp_all add: store_ok_def empty_store_def)

section \<open>Properties\<close>


text \<open>C1. Every text, however malformed, and however the allocator behaves: the parser returns a
  result or stays in the loop that skips newlines. It never follows a null, dangling or mistyped
  pointer, never frees twice and needs no more steps than three for each character.\<close>

theorem toml_parse_ends:
  assumes "store_ok m" "3 * length (cstr conf) + 3 < fuel"
  shows "(\<exists>p e m'. toml_parse fuel conf n m = (Inr (p, e), m')) \<or> (\<exists>m'. toml_parse fuel conf n m = (Inl Diverges, m'))"
proof (cases "toml_parse fuel conf n m")
  case (Pair res m')
  show ?thesis
  proof (cases res)
    case (Inl h)
    then show ?thesis using wp_halts [OF wp_toml_parse [OF assms]] Pair by blast
  next
    case (Inr pe)
    then show ?thesis using Pair by (cases pe) simp
  qed
qed



definition section_text :: string where
  "section_text = ''[s]'' @ nl @ ''k = 1'' @ nl"

lemma parse_section_text: "fst (toml_parse 40 section_text 99 empty_store) = Inr (1, [])"
  by code_simp

theorem toml_parse_ends_witness:
  "(\<exists>p e m'. toml_parse 40 section_text 99 empty_store = (Inr (p, e), m')) \<or>
   (\<exists>m'. toml_parse 40 section_text 99 empty_store = (Inl Diverges, m'))"
  by (rule toml_parse_ends [OF empty_store_ok(1)]) (simp add: section_text_def cstr_def)

lemma parse_bad_text: "fst (toml_parse 40 ''[s]x'' 99 empty_store) = Inr (0, ''line 1: extra chars after ] or ]]'')"
  by code_simp



end
