(* ===== verification/Config_Load.thy ===== *)
theory Config_Load
  imports Configfile Toml_Ends
begin

text \<open>
  \<open>configfile_load\<close> of \<^verbatim>\<open>src/configfile.c\<close> over the reader and the parser of
  \<^verbatim>\<open>src/external/toml.c\<close>: what the lookups assume of the configuration (\<open>config_loaded\<close>) is
  what a load that returns establishes.
\<close>

section \<open>Reading the file\<close>

text \<open>The reader only asks for room; the store stays as it was.\<close>

definition same_store :: "toml_mem \<Rightarrow> toml_mem \<Rightarrow> bool" where
  "same_store m t \<longleftrightarrow> store_ok t \<and> t_live t = t_live m \<and> t_alloc_ok t = t_alloc_ok m"

lemma same_store_brk: "same_store m t \<Longrightarrow> same_store m (t\<lparr>t_brk := Suc (t_brk t)\<rparr>)"
  by (auto simp: same_store_def store_ok_def less_SucI)

lemma wp_m_room: "wp m_room Q E t = Q (t_alloc_ok t (t_brk t)) (t\<lparr>t_brk := Suc (t_brk t)\<rparr>)"
  by (simp add: wp_def m_room_def)

lemma wp_read_file:
  assumes "same_store m t" "length buf \<le> bufsz" "length rest < 1000 * fuel"
  shows "wp (read_file fuel errtext failure bufsz buf rest)
     (\<lambda>r u. same_store m u \<and> (\<forall>text. r = Inr text \<longrightarrow> failure = None \<and> text = buf @ rest)) (\<lambda>_ _. False) t"
  using assms
proof (induction fuel arbitrary: bufsz buf rest t)
  case 0
  then show ?case by simp
next
  case (Suc fuel)
  let ?t = "t\<lparr>t_brk := Suc (t_brk t)\<rparr>" and ?want = "bufsz + 1000 - length buf"
  have t: "same_store m ?t" by (rule same_store_brk [OF Suc.prems(1)])
  have "wp (read_file fuel errtext failure (bufsz + 1000) (buf @ take ?want rest) (drop ?want rest))
     (\<lambda>r u. same_store m u \<and> (\<forall>text. r = Inr text \<longrightarrow> failure = None \<and> text = buf @ rest)) (\<lambda>_ _. False) ?t"
    if "\<not> length rest < ?want"
    by (rule wp_mono [OF Suc.IH [OF t]]) (use that Suc.prems(2,3) in auto)
  then show ?case using t
    by (auto simp: wp_simps wp_m_room Let_def split: option.split)
qed

lemma wp_toml_parse_file:
  assumes "store_ok m" "3 * length (f_bytes fp) + 3 < fuel"
  shows "wp (toml_parse_file fuel errtext fp n)
     (\<lambda>(p, e) t. p \<noteq> 0 \<longrightarrow> f_failure fp = None \<and> (\<exists>T A. p \<in> T \<and> tree_of t T A)) (\<lambda>h t. h = Diverges) m"
proof -
  let ?m = "m\<lparr>t_brk := Suc (t_brk m)\<rparr>"
  have m: "same_store ?m ?m" using assms(1) by (auto simp: same_store_def store_ok_def less_SucI)
  have len: "length (cstr buf) \<le> length buf" for buf unfolding cstr_def by (rule length_takeWhile_le)
  have tree: "\<exists>T A. p \<in> T \<and> tree_of u T A" if "heap_ok t p T A u" for t p T A u
    using heap_okD(5) [OF that] heap_ok_tree_of [OF that] by blast
  have "wp (toml_parse fuel buf n) (\<lambda>(p, e) t. p \<noteq> 0 \<longrightarrow> f_failure fp = None \<and> (\<exists>T A. p \<in> T \<and> tree_of t T A))
      (\<lambda>h t. h = Diverges) t" if t: "same_store ?m t" and buf: "f_failure fp = None" "buf = f_bytes fp" for t buf
  proof -
    have "store_ok t" "3 * length (cstr buf) + 3 < fuel"
      using t assms(2) len [of buf] buf(2) by (auto simp: same_store_def)
    from wp_toml_parse [OF this, of n] show ?thesis
      apply (rule wp_mono)
       apply (auto simp: buf(1))
      apply (drule tree, blast)
      done
  qed
  note parse = this
  have read: "wp (read_file fuel errtext (f_failure fp) 1000 [] (f_bytes fp))
     (\<lambda>r u. wp (case r of Inl e \<Rightarrow> ret (0, take (n - 1) e) | Inr buf \<Rightarrow> toml_parse fuel buf n)
        (\<lambda>(p, e) t. p \<noteq> 0 \<longrightarrow> f_failure fp = None \<and> (\<exists>T A. p \<in> T \<and> tree_of t T A)) (\<lambda>h t. h = Diverges) u)
     (\<lambda>h t. h = Diverges) ?m"
    by (rule wp_mono [OF wp_read_file [OF m]]) (use assms(2) parse in \<open>auto simp: wp_simps split: sum.split\<close>)
  show ?thesis
    unfolding toml_parse_file_def wp_simps wp_m_room
    by (split if_split, intro conjI impI) (simp, rule read)
qed

section \<open>Loading\<close>

lemma wp_on_toml: "wp (on_toml m) Q E s =
    wp m (\<lambda>x t. Q x (s\<lparr>toml_store := t\<rparr>)) (\<lambda>h t. E h (s\<lparr>toml_store := t\<rparr>)) (toml_store s)"
  by (simp add: wp_def on_toml_def split: prod.split)

lemma wp_sysread: "wp (sysread f) Q E s = Q (f (world s)) s"
  by (simp add: wp_def sysread_def)

lemma wp_fatal:
  assumes "message_buf s \<noteq> 0" "E (Exited exit_fatal) (log_msg log_level_fatal m s)"
  shows "wp (util_fatal m) Q E s"
  using assms by (simp add: wp_def)

lemma ready_toml [simp]:
  "ready (s\<lparr>toml_store := t\<rparr>) = ready s" "ready (s\<lparr>toml_root := p\<rparr>) = ready s"
  by (auto simp: ready_def mem_ok_def heap_inv_def simp del: readyD)

lemma wp_configfile_load:
  fixes s :: "('w, 'cb, 'z) config_state_scheme"
  assumes s: "ready s" "toml_root s = 0" "store_ok (toml_store s)"
    and fuel: "\<And>fp. os_fopen os path (world s) = Some fp \<Longrightarrow> 3 * length (f_bytes fp) + 3 < fuel"
  shows "wp (configfile_load os fuel path)
     (\<lambda>_ t. (\<exists>fp. os_fopen os path (world s) = Some fp \<and> f_failure fp = None) \<and> ready t \<and> toml_root t \<noteq> 0 \<and>
        (\<exists>T A. toml_root t \<in> T \<and> tree_of (toml_store t) T A))
     (\<lambda>h _. h = Exited exit_fatal \<or> h = Diverges) s"
proof (cases "os_fopen os path (world s)")
  case None
  then show ?thesis using s by (simp add: configfile_load_def wp_simps wp_sysread wp_fatal)
next
  case (Some fp)
  let ?E = "\<lambda>h (_ :: ('w, 'cb, 'z) config_state_scheme). h = Exited exit_fatal \<or> h = Diverges"
  have fatal: "wp (util_fatal m) Q ?E t" if "ready t" for m Q t
    by (rule wp_fatal) (use that in auto)
  have "wp (toml_parse_file fuel (strerror s) fp 1024)
      (\<lambda>(p, e) t. p \<noteq> 0 \<longrightarrow> f_failure fp = None \<and> (\<exists>T A. p \<in> T \<and> tree_of t T A)) (\<lambda>h t. h = Diverges) (toml_store s)"
    by (rule wp_toml_parse_file [OF s(3) fuel [OF Some]])
  then show ?thesis
    unfolding configfile_load_def using s Some
    apply (simp add: wp_simps wp_sysread wp_on_toml del: bindE_gets)
    apply (erule wp_mono)
     apply (auto simp: wp_simps wp_sysread fatal) [1]
     apply blast
    apply simp
    done
qed

text \<open>C9. Loading a file, in all cases: when \<open>configfile_load\<close> returns, the file could be opened and
  read, and the configuration is one that the lookups can work on, with an entry of each name at
  most once; otherwise the program has ended with the fatal status, or hangs in the parser. This
  holds for every content of the file and every behaviour of the allocator of the parser.\<close>

theorem configfile_load_cases:
  assumes "ready s" "toml_root s = 0" "store_ok (toml_store s)"
    and "\<forall>fp. os_fopen os path (world s) = Some fp \<longrightarrow> 3 * length (f_bytes fp) + 3 < fuel"
  shows "case configfile_load os fuel path s of
      (Inr _, t) \<Rightarrow> config_loaded t \<and> distinct (table_keys (toml_store t) (toml_root t)) \<and>
        (\<exists>fp. os_fopen os path (world s) = Some fp \<and> f_failure fp = None)
    | (Inl h, t) \<Rightarrow> h = Exited exit_fatal \<or> h = Diverges"
proof -
  have f: "3 * length (f_bytes fp) + 3 < fuel" if "os_fopen os path (world s) = Some fp" for fp
    using assms(4) that by blast
  show ?thesis
    using wp_configfile_load [OF assms(1-3), of os path fuel, OF f]
    by (auto simp: wp_def config_loaded_def tree_of_def split: prod.splits sum.splits)
qed

definition sample_stdio :: "unit stdio" where
  "sample_stdio = \<lparr>os_fopen = (\<lambda>path w. if path = ''righack.toml''
     then Some \<lparr>f_bytes = section_text, f_failure = None\<rparr> else None), os_fclose = (\<lambda>_ _. 0)\<rparr>"

definition sample_unloaded where
  "sample_unloaded = sample_config\<lparr>toml_store := empty_store, toml_root := 0\<rparr>"

theorem configfile_load_cases_witness:
  "case configfile_load sample_stdio 40 ''righack.toml'' sample_unloaded of
      (Inr _, t) \<Rightarrow> config_loaded t \<and> distinct (table_keys (toml_store t) (toml_root t)) \<and>
        (\<exists>fp. os_fopen sample_stdio ''righack.toml'' (world sample_unloaded) = Some fp \<and> f_failure fp = None)
    | (Inl h, t) \<Rightarrow> h = Exited exit_fatal \<or> h = Diverges"
proof (rule configfile_load_cases)
  show "ready sample_unloaded"
    using config_loadedD(1) [OF sample_config_loaded(1)] by (simp add: sample_unloaded_def)
qed (simp_all add: sample_unloaded_def empty_store_ok sample_stdio_def section_text_def)

end
