(* ===== verification/Toml_Text.thy ===== *)
theory Toml_Text
  imports Toml_Ends
begin

text \<open>
  The text of a configuration, as a list of lines: headers of sections, settings, and notes
  (comments and blank lines). This theory says how the lines are written and that the lexer of
  \<^verbatim>\<open>src/external/toml.c\<close> reads the words of a line as its tokens.
\<close>

section \<open>Words and lines\<close>

text \<open>The three ways to write a word: as it is, between double quotes with escapes, between single
  quotes.\<close>

datatype word = Bare string | Basic string | Literal string

datatype line = Note string | Header word | Setting word word

fun word_text :: "word \<Rightarrow> string" where
  "word_text (Bare k) = k"
| "word_text (Basic s) = quote_basic s"
| "word_text (Literal s) = [SQ] @ s @ [SQ]"

text \<open>What a word says, as a key.\<close>

fun word_key :: "word \<Rightarrow> string" where
  "word_key (Bare k) = k" | "word_key (Basic s) = s" | "word_key (Literal s) = s"

fun line_text :: "line \<Rightarrow> string" where
  "line_text (Note n) = n @ [LF]"
| "line_text (Header w) = ''['' @ word_text w @ '']'' @ [LF]"
| "line_text (Setting k v) = word_text k @ '' = '' @ word_text v @ [LF]"

definition lines_text :: "line list \<Rightarrow> string" where
  "lines_text ls = concat (map line_text ls)"

text \<open>A key has no line break; a bare value is a number, a date or a boolean, and the lexer takes
  all of them to be strings.\<close>

fun key_ok :: "word \<Rightarrow> bool" where
  "key_ok (Bare k) = bare_key k"
| "key_ok (Basic s) = (LF \<notin> set s \<and> NUL \<notin> set s)"
| "key_ok (Literal s) = (LF \<notin> set s \<and> NUL \<notin> set s \<and> SQ \<notin> set s)"

fun value_ok :: "word \<Rightarrow> bool" where
  "value_ok (Bare v) = (v \<noteq> [] \<and> (\<forall>c \<in> set v. bare_char False c))"
| "value_ok (Basic s) = (NUL \<notin> set s)"
| "value_ok (Literal s) = (LF \<notin> set s \<and> NUL \<notin> set s \<and> SQ \<notin> set s)"

definition skipped :: "char \<Rightarrow> bool" where
  "skipped c \<longleftrightarrow> c = CR \<or> c = CHR '' '' \<or> c = TAB"

definition note_ok :: "string \<Rightarrow> bool" where
  "note_ok n \<longleftrightarrow> LF \<notin> set n \<and> NUL \<notin> set n \<and>
     (dropWhile skipped n = [] \<or> hd (dropWhile skipped n) = CHR ''#'')"

fun line_ok :: "line \<Rightarrow> bool" where
  "line_ok (Note n) = note_ok n"
| "line_ok (Header w) = key_ok w"
| "line_ok (Setting k v) = (key_ok k \<and> value_ok v)"

section \<open>Reading ahead\<close>

text \<open>The token \<open>t\<close> is of the kind \<open>ty\<close> and made of the characters \<open>w\<close>, with \<open>r\<close> behind it.\<close>

definition tok_is :: "string \<Rightarrow> token \<Rightarrow> tokentype \<Rightarrow> string \<Rightarrow> string \<Rightarrow> bool" where
  "tok_is conf t ty w r \<longleftrightarrow>
     tk_tok t = ty \<and> \<not> tk_eof t \<and> drop (tk_ptr t) conf = w @ r \<and> tk_len t = length w"

lemma tok_isD:
  assumes "tok_is conf t ty w r"
  shows "tk_tok t = ty" "\<not> tk_eof t" "drop (tk_ptr t) conf = w @ r" "tk_len t = length w"
    "tk_text conf t = w" "drop (tk_ptr t + tk_len t) conf = r"
  using assms unfolding tok_is_def tk_text_def drop_drop [symmetric] add.commute [of "tk_ptr t"]
  by simp_all

text \<open>Reading \<open>w @ r\<close> gives the token \<open>w\<close>.\<close>

definition lexes :: "bool \<Rightarrow> string \<Rightarrow> tokentype \<Rightarrow> string \<Rightarrow> string \<Rightarrow> bool" where
  "lexes d text ty w r \<longleftrightarrow>
     (\<forall>conf l p. drop p conf = text \<longrightarrow> (\<exists>t. make_token conf d l p = Inr t \<and> tok_is conf t ty w r))"

lemma lexesI:
  assumes "\<And>conf l p a text'. text = a # text' \<Longrightarrow> drop p conf = text \<Longrightarrow> p < length conf \<Longrightarrow> conf ! p = a \<Longrightarrow>
      drop (Suc p) conf = text' \<Longrightarrow> \<exists>t. make_token conf d l p = Inr t \<and> tok_is conf t ty w r"
    and "text \<noteq> []"
  shows "lexes d text ty w r"
  unfolding lexes_def
proof (intro allI impI)
  fix conf :: string and l p
  assume d: "drop p conf = text"
  obtain a text' where t: "text = a # text'" using assms(2) by (cases "text") auto
  have p: "p < length conf" using d assms(2) by (metis drop_all linorder_not_less)
  show "\<exists>t. make_token conf d l p = Inr t \<and> tok_is conf t ty w r"
    using assms(1) [OF t d p] d p t by (simp add: nth_via_drop drop_Suc tl_drop [symmetric])
qed

lemma lexes_special:
  assumes "special_char c = Some ty" "c \<noteq> CHR ''#''" "c \<noteq> CHR ''.''"
  shows "lexes d (c # r) ty [c] r"
proof (rule lexesI)
  fix conf :: string and l p a text'
  assume a: "c # r = a # text'" "drop p conf = c # r" "p < length conf" "conf ! p = a"
  then show "\<exists>t. make_token conf d l p = Inr t \<and> tok_is conf t ty [c] r"
    using make_token_special [OF a(3) _ assms] by (auto simp: tok_is_def)
qed simp

lemma lexes_skip:
  assumes "skipped c" "lexes d rest ty w r"
  shows "lexes d (c # rest) ty w r"
proof (rule lexesI)
  fix conf :: string and l p a text'
  assume a: "c # rest = a # text'" "p < length conf" "conf ! p = a" "drop (Suc p) conf = text'"
  have c: "c \<noteq> CHR ''#''" "\<not> (d \<and> c = CHR ''.'')" "special_char c = None"
    using assms(1) by (auto simp: skipped_def special_char_def)
  then have "make_token conf d l p = make_token conf d l (Suc p)"
    using a assms(1) by (subst make_token.simps) (auto simp: Let_def skipped_def)
  then show "\<exists>t. make_token conf d l p = Inr t \<and> tok_is conf t ty w r"
    using assms(2) a unfolding lexes_def by auto
qed simp

lemma lexes_comment:
  assumes "LF \<notin> set c" "lexes d (LF # rest) ty w r"
  shows "lexes d (CHR ''#'' # c @ LF # rest) ty w r"
proof (rule lexesI)
  fix conf :: string and l p a text'
  assume a: "CHR ''#'' # c @ LF # rest = a # text'" "p < length conf" "conf ! p = a" "drop (Suc p) conf = text'"
  have d: "drop (Suc p) conf = c @ LF # rest" using a by simp
  have "takeWhile (\<lambda>x. x \<noteq> LF) (c @ LF # rest) = c"
    using assms(1) by (subst takeWhile_append2) auto
  then have "make_token conf d l p = make_token conf d l (p + 1 + length c)"
    using a d by (subst make_token.simps) simp
  moreover have "drop (p + 1 + length c) conf = LF # rest"
    using arg_cong [OF d, of "drop (length c)"] by (simp add: add.commute)
  ultimately show "\<exists>t. make_token conf d l p = Inr t \<and> tok_is conf t ty w r"
    using assms(2) unfolding lexes_def by auto
qed simp

lemma lexes_skips:
  assumes "\<forall>x \<in> set c. skipped x" "lexes d rest ty w r"
  shows "lexes d (c @ rest) ty w r"
  using assms by (induction c) (auto intro: lexes_skip)

text \<open>A note is read as the newline at its end.\<close>

lemma lexes_note:
  assumes "note_ok n"
  shows "lexes d (n @ LF # r) NEWLINE [LF] r"
proof -
  have LF: "lexes d (LF # r) NEWLINE [LF] r"
    by (rule lexes_special) (simp_all add: special_char_def)
  have "lexes d (dropWhile skipped n @ LF # r) NEWLINE [LF] r"
  proof (cases "dropWhile skipped n")
    case Nil
    show ?thesis unfolding Nil using LF by simp
  next
    case (Cons a c)
    have "set c \<subseteq> set n" using set_dropWhileD [of _ skipped n] Cons by auto
    then have "LF \<notin> set c" using assms by (auto simp: note_ok_def)
    moreover have "a = CHR ''#''" using assms Cons by (simp add: note_ok_def)
    ultimately show ?thesis using Cons lexes_comment [OF _ LF, of c] by simp
  qed
  moreover have "\<forall>x \<in> set (takeWhile skipped n). skipped x" using set_takeWhileD by fast
  ultimately have "lexes d (takeWhile skipped n @ dropWhile skipped n @ LF # r) NEWLINE [LF] r"
    using lexes_skips by blast
  then show ?thesis by (simp flip: append_assoc)
qed

section \<open>The words of a line\<close>

text \<open>What stands behind a word.\<close>

definition ends :: "char \<Rightarrow> bool" where
  "ends c \<longleftrightarrow> c = CHR '']'' \<or> c = CHR '' '' \<or> c = LF"

lemma not_bare:
  "\<not> bare_char d (CHR '']'')" "\<not> bare_char d (CHR '' '')" "\<not> bare_char d LF" "\<not> bare_char d SQ" "\<not> bare_char d DQ"
  "\<not> bare_char d (CHR ''#'')" "\<not> bare_char d CR" "\<not> bare_char d TAB" "\<not> bare_char d NUL"
  "\<not> bare_char d (CHR '','')" "\<not> bare_char d (CHR ''='')" "\<not> bare_char d (CHR ''{'')" "\<not> bare_char d (CHR ''}'')"
  "\<not> bare_char d (CHR ''['')"
  by (simp_all add: bare_char_def Let_def)

lemma bare_char_word:
  assumes "bare_char d c"
  shows "c \<notin> {SQ, DQ, CHR ''#'', LF, CR, CHR '' '', TAB, NUL}" "special_char c = None" "\<not> (d \<and> c = CHR ''.'')"
proof -
  show "c \<notin> {SQ, DQ, CHR ''#'', LF, CR, CHR '' '', TAB, NUL}" using assms not_bare by blast
  have "c \<notin> {CHR '','', CHR ''='', CHR ''{'', CHR ''}'', CHR ''['', CHR '']'', LF}" using assms not_bare by blast
  then show "special_char c = None" by (simp add: special_char_def)
  show "\<not> (d \<and> c = CHR ''.'')" using assms by (auto simp: bare_char_def)
qed

lemma scan_double_quoted:
  "scan_double False 0 (concat (map quote_char s) @ DQ # r) = Inr (length (concat (map quote_char s)))"
proof (induction s)
  case Nil
  then show ?case by simp
next
  case (Cons c s)
  then show ?case
    by (cases "c = DQ"; cases "c = BS"; cases "c = LF"; cases "c = CR"; cases "c = TAB")
      (simp_all add: quote_char_def simple_escape_def)
qed

lemma quoted_not_triple:
  assumes "f \<noteq> DQ"
  shows "\<not> prefix_of [DQ, DQ, DQ] (quote_basic s @ f # r)"
proof (cases s)
  case Nil
  then show ?thesis using assms by (simp add: quote_basic_def prefix_of_def)
next
  case (Cons c t)
  have "hd (quote_char c) \<noteq> DQ" "quote_char c \<noteq> []" by (auto simp: quote_char_def)
  then obtain d ds where "quote_char c = d # ds" "d \<noteq> DQ" by (cases "quote_char c") auto
  then show ?thesis by (simp add: Cons quote_basic_def prefix_of_def)
qed

lemma literal_not_triple:
  assumes "f \<noteq> SQ" "SQ \<notin> set s"
  shows "\<not> prefix_of [SQ, SQ, SQ] (SQ # s @ SQ # f # r)"
  using assms by (cases s) (auto simp: prefix_of_def)

lemma takeWhile_until:
  assumes "\<forall>c \<in> set s. P c" "\<not> P x"
  shows "takeWhile P (s @ x # r) = s"
  using assms by (subst takeWhile_append2) auto

lemma peek_skip: "peek (s @ x # r) (length s) = x"
  by (simp add: peek_def)

lemma scan_string_basic:
  assumes "f \<noteq> DQ"
  shows "scan_string (quote_basic s @ f # r) d = Inr (length (quote_basic s))"
proof -
  have "\<not> prefix_of [SQ, SQ, SQ] (quote_basic s @ f # r)" "peek (quote_basic s @ f # r) 0 = DQ"
    by (simp_all add: quote_basic_def prefix_of_def peek_def)
  moreover have "peek (quote_basic s @ f # r) (Suc (length (concat (map quote_char s)))) = DQ"
    using peek_skip [of "DQ # concat (map quote_char s)" DQ "f # r"] by (simp add: quote_basic_def)
  moreover have "tl (quote_basic s @ f # r) = concat (map quote_char s) @ DQ # f # r"
    by (simp add: quote_basic_def)
  ultimately show ?thesis
    using quoted_not_triple [OF assms, of s r]
    by (simp add: scan_string_def scan_double_quoted quote_basic_def)
qed

lemma scan_string_literal:
  assumes "f \<noteq> SQ" "SQ \<notin> set s" "LF \<notin> set s"
  shows "scan_string (SQ # s @ SQ # f # r) d = Inr (length s + 2)"
proof -
  have "takeWhile (\<lambda>c. c \<noteq> LF \<and> c \<noteq> SQ) (s @ SQ # f # r) = s"
    by (rule takeWhile_until) (use assms in auto)
  moreover have "peek (SQ # s @ SQ # f # r) (Suc (length s)) = SQ"
    using peek_skip [of "SQ # s" SQ "f # r"] by simp
  ultimately show ?thesis
    using literal_not_triple [OF assms(1,2), of r]
    by (simp add: scan_string_def prefix_of_def peek_def)
qed

lemma scan_string_bare:
  assumes "v \<noteq> []" "\<forall>c \<in> set v. bare_char d c" "\<not> bare_char d f"
  shows "scan_string (v @ f # r) d = Inr (length v)"
proof -
  obtain a v' where v: "v = a # v'" using assms(1) by (cases v) auto
  then have "bare_char d a" using assms(2) by simp
  from bare_char_word(1) [OF this] show ?thesis
    using takeWhile_until [OF assms(2,3), of r] v by (simp add: scan_string_def prefix_of_def peek_def)
qed

lemma lexes_string:
  assumes "scan_string (w @ f # r) d = Inr (length w)" "w = a # w'"
    and "a \<noteq> CHR ''#''" "\<not> (d \<and> a = CHR ''.'')" "special_char a = None" "\<not> skipped a"
  shows "lexes d (w @ f # r) STRING w (f # r)"
proof (rule lexesI)
  fix conf :: string and l p b text'
  assume b: "w @ f # r = b # text'" "drop p conf = w @ f # r" "p < length conf" "conf ! p = b"
  then have "b = a" using assms(2) by simp
  then have "make_token conf d l p = Inr (ret_token STRING l p (length w))"
    using b assms(1,3-6) by (subst make_token.simps) (auto simp: Let_def skipped_def)
  then show "\<exists>t. make_token conf d l p = Inr t \<and> tok_is conf t STRING w (f # r)"
    using b by (simp add: tok_is_def)
qed simp

lemma lexes_word:
  assumes "key_ok w \<or> value_ok w \<and> \<not> d" "ends f"
  shows "lexes d (word_text w @ f # r) STRING (word_text w) (f # r)"
proof -
  have f: "f \<noteq> DQ" "f \<noteq> SQ" "\<not> bare_char d f" using assms(2) not_bare by (auto simp: ends_def)
  have q: "special_char DQ = None" "special_char SQ = None" "\<not> skipped DQ" "\<not> skipped SQ"
    by (simp_all add: special_char_def skipped_def)
  show ?thesis
  proof (cases w)
    case (Basic s)
    show ?thesis unfolding Basic word_text.simps
      by (rule lexes_string [OF scan_string_basic [OF f(1)]]) (use q in \<open>simp_all add: quote_basic_def\<close>)
  next
    case (Literal s)
    then have s: "SQ \<notin> set s" "LF \<notin> set s" using assms(1) by auto
    show ?thesis unfolding Literal word_text.simps
      by (rule lexes_string [where a = SQ and w' = "s @ [SQ]"]) (use q scan_string_literal [OF f(2) s] in simp_all)
  next
    case (Bare v)
    from assms(1) have v: "v \<noteq> []" "\<forall>c \<in> set v. bare_char d c"
    proof (atomize (full), elim disjE)
      assume "key_ok w"
      then have k: "bare_key v" using Bare by simp
      show "v \<noteq> [] \<and> (\<forall>c \<in> set v. bare_char d c)"
        using k bare_char_key(1) unfolding bare_key_def by blast
    next
      assume "value_ok w \<and> \<not> d"
      then show "v \<noteq> [] \<and> (\<forall>c \<in> set v. bare_char d c)" using Bare by simp
    qed
    then obtain a v' where a: "v = a # v'" by (cases v) auto
    then have "bare_char d a" using v(2) by simp
    note b = bare_char_word [OF this]
    have "a \<noteq> CHR ''#''" "\<not> skipped a" using b(1) by (simp_all add: skipped_def)
    from lexes_string [OF scan_string_bare [OF v f(3)] a this(1) b(3,2) this(2)]
    show ?thesis unfolding Bare word_text.simps .
  qed
qed

section \<open>Keys\<close>

lemma cstr_id: "NUL \<notin> set s \<Longrightarrow> cstr s = s"
  unfolding cstr_def takeWhile_eq_all_conv by auto

text \<open>A key between single quotes, or between double quotes.\<close>

lemma normalize_key_once:
  assumes "drop (tk_ptr t) conf = sp" "peek sp 0 = ch" "ch = SQ \<or> ch = DQ" "\<not> prefix_of [ch, ch, ch] sp"
    and "2 \<le> tk_len t"
    and "ch = SQ \<Longrightarrow> take (tk_len t - 2) (tl sp) = key"
    and "ch = DQ \<Longrightarrow> normalize_string (tl sp) (tk_len t - 2) False = Norm_ok key"
    and "LF \<notin> set key" "NUL \<notin> set key"
  shows "normalize_key conf t = Key key"
proof -
  have "\<not> (peek sp 1 = ch \<and> peek sp 2 = ch)"
    using prefix_of_three [of ch sp] assms(2-4) by auto
  then have c: "(if peek sp 1 = ch \<and> peek sp 2 = ch then 3 else 1) = (1 :: nat)" by (rule if_not_P)
  show ?thesis
    unfolding normalize_key_def Let_def assms(1,2) c using assms(3,5-9)
    by (elim disjE) (simp_all add: cstr_id drop_Suc)
qed

text \<open>The key that a word says.\<close>

lemma normalize_word:
  assumes "key_ok w" "ends f" "tok_is conf t STRING (word_text w) (f # r)"
  shows "normalize_key conf t = Key (word_key w)"
proof -
  have f: "f \<noteq> DQ" "f \<noteq> SQ" using assms(2) by (auto simp: ends_def)
  note t = tok_isD [OF assms(3)]
  show ?thesis
  proof (cases w)
    case (Basic s)
    have "drop (tk_ptr t) conf = quote_basic s @ f # r" "tk_len t = length (quote_basic s)" using t Basic by simp_all
    moreover have "normalize_string (tl (quote_basic s @ f # r)) (length (quote_basic s) - 2) False = Norm_ok s"
      using normalize_quoted [of "[]" 0 False s "DQ # f # r"] by (simp add: normalize_string_def quote_basic_def)
    ultimately show ?thesis
      using quoted_not_triple [OF f(1), of s r] Basic assms(1)
      by (intro normalize_key_once [where ch = DQ and sp = "quote_basic s @ f # r"]) (simp_all add: peek_def quote_basic_def)
  next
    case (Literal s)
    have "drop (tk_ptr t) conf = SQ # s @ SQ # f # r" "tk_len t = length s + 2" using t Literal by simp_all
    then show ?thesis
      using literal_not_triple [OF f(2), of s r] Literal assms(1)
      by (intro normalize_key_once [where ch = SQ and sp = "SQ # s @ SQ # f # r"]) (simp_all add: peek_def)
  next
    case (Bare k)
    then have k: "bare_key k" using assms(1) by simp
    then obtain a k' where a: "k = a # k'" by (cases k) (auto simp: bare_key_def)
    then have ca: "c_isalnum a \<or> a = CHR ''_'' \<or> a = CHR ''-''" using k by (simp add: bare_key_def)
    from bare_char_key(2) [OF ca] show ?thesis
      using Bare a k by (simp add: normalize_key_def t Let_def bare_key_def peek_def)
  qed
qed

section \<open>The first token of the lines\<close>

fun at_lines :: "string \<Rightarrow> line list \<Rightarrow> token \<Rightarrow> bool" where
  "at_lines conf [] t = tk_eof t"
| "at_lines conf (Note n # ls) t = tok_is conf t NEWLINE [LF] (lines_text ls)"
| "at_lines conf (Header w # ls) t = tok_is conf t LBRACKET ''['' (word_text w @ '']'' @ [LF] @ lines_text ls)"
| "at_lines conf (Setting k v # ls) t =
     tok_is conf t STRING (word_text k) ('' = '' @ word_text v @ [LF] @ lines_text ls)"

lemma lines_text_simps [simp]: "lines_text [] = []" "lines_text (x # xs) = line_text x @ lines_text xs"
  by (simp_all add: lines_text_def)

lemma first_token:
  assumes "\<forall>x \<in> set ls. line_ok x" "drop p conf = lines_text ls"
  shows "\<exists>t. make_token conf d l p = Inr t \<and> at_lines conf ls t"
proof (cases ls)
  case Nil
  then have "\<not> p < length conf" using assms(2) by simp
  then show ?thesis using Nil by (subst make_token.simps) (simp add: ret_eof_def ret_token_def)
next
  case (Cons x xs)
  have x: "line_ok x" using assms(1) Cons by simp
  show ?thesis
  proof (cases x)
    case (Note n)
    then show ?thesis using lexes_note [of n d "lines_text xs"] x assms(2) Cons by (simp add: lexes_def)
  next
    case (Header w)
    have "lexes d (CHR ''['' # word_text w @ '']'' @ [LF] @ lines_text xs) LBRACKET ''['' (word_text w @ '']'' @ [LF] @ lines_text xs)"
      by (rule lexes_special) (simp_all add: special_char_def)
    then show ?thesis using Header assms(2) Cons by (simp add: lexes_def)
  next
    case (Setting k v)
    then show ?thesis
      using lexes_word [of k d "CHR '' ''" "''= '' @ word_text v @ [LF] @ lines_text xs"] x assms(2) Cons
      by (simp add: lexes_def ends_def)
  qed
qed

end
