(* ===== verification/Toml_Read.thy ===== *)
theory Toml_Read
  imports Toml_Text
begin

text \<open>
  What \<open>toml_parse\<close> of \<^verbatim>\<open>src/external/toml.c\<close> makes of a configuration text: the settings of each
  section in the order of the lines (\<open>read_lines\<close>), or an error exactly when a name is used twice.
  The allocator is one that always has room.
\<close>

section \<open>What the lines say\<close>

type_synonym settings = "(string \<times> string) list"
type_synonym config = "settings \<times> (string \<times> settings) list"

text \<open>The settings before the first section belong to the root; a value is kept as it is written.\<close>

fun add_line :: "config \<Rightarrow> line \<Rightarrow> config option" where
  "add_line c (Note n) = Some c"
| "add_line (root, secs) (Header w) =
     (if word_key w \<in> fst ` set root \<or> word_key w \<in> fst ` set secs then None
      else Some (root, secs @ [(word_key w, [])]))"
| "add_line (root, secs) (Setting k v) =
     (if secs = [] then
        (if word_key k \<in> fst ` set root then None else Some (root @ [(word_key k, word_text v)], []))
      else
        (let (n, kvs) = last secs in
         if word_key k \<in> fst ` set kvs then None
         else Some (root, butlast secs @ [(n, kvs @ [(word_key k, word_text v)])])))"

fun read_lines :: "config \<Rightarrow> line list \<Rightarrow> config option" where
  "read_lines c [] = Some c"
| "read_lines c (l # ls) = (case add_line c l of None \<Rightarrow> None | Some c' \<Rightarrow> read_lines c' ls)"

section \<open>A configuration in the store\<close>

definition settings_table :: "string option \<Rightarrow> settings \<Rightarrow> nat list \<Rightarrow> toml_table_t" where
  "settings_table key kvs ps =
     \<lparr>tab_key = key, tab_implicit = False, tab_kval = map (\<lambda>(k, v). \<lparr>kv_key = k, kv_val = Some v\<rparr>) kvs,
      tab_arr = [], tab_tab = ps\<rparr>"

definition is_section :: "'z toml_mem_scheme \<Rightarrow> nat \<Rightarrow> string \<times> settings \<Rightarrow> bool" where
  "is_section m q sec \<longleftrightarrow> q \<noteq> 0 \<and> q \<in> t_live m \<and> t_tables m q = settings_table (Some (fst sec)) (snd sec) []"

text \<open>The root at \<open>r\<close> and the sections at the addresses \<open>ps\<close> hold a configuration.\<close>

fun holds :: "'z toml_mem_scheme \<Rightarrow> nat \<Rightarrow> nat list \<Rightarrow> config \<Rightarrow> bool" where
  "holds m r ps (root, secs) \<longleftrightarrow>
     r \<noteq> 0 \<and> r \<in> t_live m \<and> t_tables m r = settings_table None root ps \<and> distinct (r # ps) \<and>
     list_all2 (is_section m) ps secs"

lemma settings_table_simps [simp]:
  "tab_key (settings_table key kvs ps) = key" "\<not> tab_implicit (settings_table key kvs ps)"
  "tab_arr (settings_table key kvs ps) = []" "tab_tab (settings_table key kvs ps) = ps"
  "tab_kval (settings_table key kvs ps) = map (\<lambda>(k, v). \<lparr>kv_key = k, kv_val = Some v\<rparr>) kvs"
  by (simp_all add: settings_table_def)

lemma find_setting:
  "find_kval key (map (\<lambda>(k, v). \<lparr>kv_key = k, kv_val = Some v\<rparr>) kvs) =
     map_option (\<lambda>v. \<lparr>kv_key = key, kv_val = Some v\<rparr>) (map_of kvs key)"
  by (induction kvs) auto

text \<open>The section of a name.\<close>

lemma find_section:
  assumes "list_all2 (is_section m) ps secs"
  shows "find_tab key ps m = (Inr (first_ptr (\<lambda>q. tab_key (t_tables m q) = Some key) ps), m)"
    and "key \<in> fst ` set secs \<longleftrightarrow> first_ptr (\<lambda>q. tab_key (t_tables m q) = Some key) ps \<noteq> 0"
    and "map_of secs key = Some kvs \<Longrightarrow> is_section m (first_ptr (\<lambda>q. tab_key (t_tables m q) = Some key) ps) (key, kvs)"
proof -
  show "find_tab key ps m = (Inr (first_ptr (\<lambda>q. tab_key (t_tables m q) = Some key) ps), m)"
    by (rule find_tab_eq) (use assms in \<open>auto simp: is_section_def list_all2_conv_all_nth in_set_conv_nth\<close>)
  show "key \<in> fst ` set secs \<longleftrightarrow> first_ptr (\<lambda>q. tab_key (t_tables m q) = Some key) ps \<noteq> 0"
    using assms by (induction rule: list_all2_induct) (auto simp: first_ptr_def is_section_def)
  show "map_of secs key = Some kvs \<Longrightarrow> is_section m (first_ptr (\<lambda>q. tab_key (t_tables m q) = Some key) ps) (key, kvs)"
    using assms by (induction rule: list_all2_induct) (auto simp: first_ptr_def is_section_def split: if_splits)
qed

lemma wp_check_settings:
  assumes p: "p \<noteq> 0" "p \<in> t_live s" "t_tables s p = settings_table n kvs ps"
    and secs: "list_all2 (is_section s) ps secs"
    and "key \<notin> fst ` set kvs \<Longrightarrow> key \<notin> fst ` set secs \<Longrightarrow> Q No_key s"
    and "\<And>kv. key \<in> fst ` set kvs \<Longrightarrow> Q (Key_val kv) s"
    and "\<And>q. key \<in> fst ` set secs \<Longrightarrow> q \<noteq> 0 \<Longrightarrow> q \<in> t_live s \<Longrightarrow> \<not> tab_implicit (t_tables s q) \<Longrightarrow> Q (Key_tab q) s"
  shows "wp (check_key p key) Q E s"
proof (cases "map_of kvs key")
  case (Some v)
  then have "key \<in> fst ` set kvs" by (auto dest!: map_of_SomeD intro: rev_image_eqI)
  with Some p assms(6) show ?thesis
    by (simp add: check_key_def wp_simps the_table_def wp_deref find_setting)
next
  case None
  let ?q = "first_ptr (\<lambda>q. tab_key (t_tables s q) = Some key) ps"
  have kvs: "key \<notin> fst ` set kvs" using None by (simp add: map_of_eq_None_iff)
  have w: "wp (find_tab key ps) Q' E s = Q' ?q s" for Q'
    using find_section(1) [OF secs, of key] by (simp add: wp_def)
  have eq: "wp (check_key p key) Q E s = Q (if ?q \<noteq> 0 then Key_tab ?q else No_key) s"
    using p None by (simp add: check_key_def wp_simps the_table_def wp_deref find_setting w)
  show ?thesis
  proof (cases "key \<in> fst ` set secs")
    case False
    then show ?thesis using assms(5) [OF kvs] find_section(2) [OF secs, of key] by (simp add: eq)
  next
    case True
    then obtain kvs' where "map_of secs key = Some kvs'" by (cases "map_of secs key") (auto simp: map_of_eq_None_iff)
    then have "is_section s ?q (key, kvs')" by (rule find_section(3) [OF secs])
    then show ?thesis using assms(7) [OF True, of ?q] by (simp add: eq is_section_def)
  qed
qed

section \<open>Steps of the parser\<close>

text \<open>The parser is in the middle of the text, the last section is the current one.\<close>

definition reading :: "string \<Rightarrow> nat \<Rightarrow> nat list \<Rightarrow> config \<Rightarrow> toml_ctx \<Rightarrow> bool" where
  "reading conf r ps c s \<longleftrightarrow> holds s r ps c \<and> (\<forall>q \<in> set (r # ps). q < t_brk s) \<and> (\<forall>n. t_alloc_ok s n) \<and>
     cx_conf s = conf \<and> cx_root s = r \<and> cx_curtab s = last (r # ps)"

lemma readingD:
  assumes "reading conf r ps (root, secs) s"
  shows "r \<noteq> 0" "r \<in> t_live s" "t_tables s r = settings_table None root ps" "distinct (r # ps)"
    "list_all2 (is_section s) ps secs" "r < t_brk s" "\<And>q. q \<in> set ps \<Longrightarrow> q < t_brk s" "\<And>n. t_alloc_ok s n"
    "cx_conf s = conf" "cx_root s = r" "cx_curtab s = last (r # ps)"
  using assms by (auto simp: reading_def)

lemma is_section_cong:
  "t_live m = t_live s \<Longrightarrow> t_tables m q = t_tables s q \<Longrightarrow> is_section m q sec = is_section s q sec"
  by (simp add: is_section_def)

lemma sections_cong:
  assumes "t_live s \<subseteq> t_live m" "\<And>q. q \<in> set ps \<Longrightarrow> t_tables m q = t_tables s q" "list_all2 (is_section s) ps secs"
  shows "list_all2 (is_section m) ps secs"
  using assms by (auto simp: list_all2_conv_all_nth is_section_def)

lemma reading_cong:
  assumes "reading conf r ps c s" "t_live t = t_live s" "t_tables t = t_tables s" "t_brk s \<le> t_brk t"
    "t_alloc_ok t = t_alloc_ok s" "cx_conf t = cx_conf s" "cx_root t = cx_root s" "cx_curtab t = cx_curtab s"
  shows "reading conf r ps c t"
proof (cases c)
  case (Pair root secs)
  then show ?thesis using assms sections_cong [of s t ps secs] by (auto simp: reading_def intro: less_le_trans)
qed

text \<open>The table that a setting goes to.\<close>

lemma current_table:
  assumes s: "reading conf r ps c s"
  obtains n kvs c' where
    "cx_curtab s \<noteq> 0" "cx_curtab s \<in> t_live s" "t_tables s (cx_curtab s) = settings_table n kvs []"
    "add_line c (Setting k v) = (if word_key k \<in> fst ` set kvs then None else Some c')"
    "\<And>t. t_tables t = (t_tables s)(cx_curtab s := settings_table n (kvs @ [(word_key k, word_text v)]) []) \<Longrightarrow>
       t_live t = t_live s \<Longrightarrow> t_brk s \<le> t_brk t \<Longrightarrow> t_alloc_ok t = t_alloc_ok s \<Longrightarrow> cx_conf t = cx_conf s \<Longrightarrow>
       cx_root t = cx_root s \<Longrightarrow> cx_curtab t = cx_curtab s \<Longrightarrow> reading conf r ps c' t"
proof -
  obtain root secs where c: "c = (root, secs)" by (cases c)
  note sD = readingD [OF s [unfolded c]]
  show thesis
  proof (cases ps rule: rev_cases)
    case Nil
    then have "secs = []" "cx_curtab s = r" using sD(5,11) by auto
    then show thesis
      using that [of None root "(root @ [(word_key k, word_text v)], [])"] sD Nil c
      by (auto simp: reading_def)
  next
    case (snoc ps' q)
    then obtain secs' n kvs where secs: "secs = secs' @ [(n, kvs)]" "list_all2 (is_section s) ps' secs'" "is_section s q (n, kvs)"
      using sD(5) by (auto simp: list_all2_append1 list_all2_Cons1)
    have cur: "cx_curtab s = q" using sD(11) snoc by simp
    have q: "q \<noteq> r" "q \<notin> set ps'" using sD(4) snoc by auto
    let ?c = "(root, secs' @ [(n, kvs @ [(word_key k, word_text v)])])"
    have "reading conf r ps ?c t"
      if "t_tables t = (t_tables s)(q := settings_table (Some n) (kvs @ [(word_key k, word_text v)]) [])"
        "t_live t = t_live s" "t_brk s \<le> t_brk t" "t_alloc_ok t = t_alloc_ok s" "cx_conf t = cx_conf s"
        "cx_root t = cx_root s" "cx_curtab t = cx_curtab s" for t
    proof -
      have "list_all2 (is_section t) ps' secs'"
        by (rule sections_cong [OF _ _ secs(2)]) (use that q in auto)
      moreover have "is_section t q (n, kvs @ [(word_key k, word_text v)])"
        using secs(3) that(1,2) by (simp add: is_section_def)
      moreover have "\<forall>p \<in> set (r # ps). p < t_brk t"
        using sD(6,7) that(3) by (auto intro: less_le_trans)
      ultimately show ?thesis
        using sD q that snoc by (simp add: reading_def list_all2_appendI)
    qed
    then show thesis
      using that [of "Some n" kvs ?c] secs c cur by (simp add: is_section_def)
  qed
qed

lemma wp_lex:
  assumes "lexes d txt ty w r" "drop (tk_ptr (cx_tok s) + tk_len (cx_tok s)) (cx_conf s) = txt"
    and "\<And>t. tok_is (cx_conf s) t ty w r \<Longrightarrow> Q () (s\<lparr>cx_tok := t\<rparr>)"
  shows "wp (next_token d) Q E s"
proof -
  obtain t where "next_tok (cx_conf s) d (cx_tok s) = Inr t" "tok_is (cx_conf s) t ty w r"
    using assms(1,2) unfolding lexes_def next_tok_def by blast
  then show ?thesis using assms(3) by (simp add: wp_next_token_eq)
qed

lemma wp_lex_lines:
  assumes "\<forall>x \<in> set ls. line_ok x" "drop (tk_ptr (cx_tok s) + tk_len (cx_tok s)) (cx_conf s) = lines_text ls"
    and "\<And>t. at_lines (cx_conf s) ls t \<Longrightarrow> Q () (s\<lparr>cx_tok := t\<rparr>)"
  shows "wp (next_token d) Q E s"
proof -
  obtain t where "next_tok (cx_conf s) d (cx_tok s) = Inr t" "at_lines (cx_conf s) ls t"
    using first_token [OF assms(1,2)] unfolding next_tok_def by blast
  then show ?thesis using assms(3) by (simp add: wp_next_token_eq)
qed

lemma wp_eat: "tk_tok (cx_tok s) = ty \<Longrightarrow> wp (next_token False) Q E s \<Longrightarrow> wp (eat_token ty n) Q E s"
  by (simp add: eat_token_def wp_simps)

lemma wp_expect: "tk_tok (cx_tok s) = ty \<Longrightarrow> Q () s \<Longrightarrow> wp (expect_token ty m) Q E s"
  by (simp add: expect_token_def wp_simps)

lemma wp_room: "t_alloc_ok s (t_brk s) \<Longrightarrow> wp (need_room n) Q E s = Q () (s\<lparr>t_brk := Suc (t_brk s)\<rparr>)"
  by (simp add: need_room_def t_room_def wp_simps wp_eq [of t_room])

lemma wp_key:
  "normalize_key (cx_conf s) t = Key key \<Longrightarrow> t_alloc_ok s (t_brk s) \<Longrightarrow>
   wp (normalized_key t) Q E s = Q key (s\<lparr>t_brk := Suc (t_brk s)\<rparr>)"
  by (simp add: normalized_key_def wp_simps t_room_def wp_eq [of t_room])

lemma wp_key_exists: "(\<And>u. E Longjmp u) \<Longrightarrow> wp (e_key_exists_error t) Q E s"
  by (simp add: e_key_exists_error_def raise_error_def wp_simps)

lemma fill_setting:
  "settings_table n kvs ps\<lparr>tab_kval := (map (\<lambda>(k, v). \<lparr>kv_key = k, kv_val = Some v\<rparr>) kvs @ [\<lparr>kv_key = k, kv_val = None\<rparr>])
     [length kvs := ((map (\<lambda>(k, v). \<lparr>kv_key = k, kv_val = Some v\<rparr>) kvs @ [\<lparr>kv_key = k, kv_val = None\<rparr>]) ! length kvs)
        \<lparr>kv_val := Some v\<rparr>]\<rparr> = settings_table n (kvs @ [(k, v)]) ps"
  by (simp add: settings_table_def list_update_append nth_append)

text \<open>A setting: the tokens of its line, and the new entry of the current table.\<close>

lemma lexes_assign:
  "lexes d (CHR '' '' # CHR ''='' # r) EQUAL ''='' r"
  by (rule lexes_skip) (simp_all add: skipped_def special_char_def lexes_special)

lemma wp_new_entry:
  assumes s: "reading conf r ps c s" and k: "normalize_key conf kt = Key (word_key k)"
    and E: "\<And>u. add_line c (Setting k v) = None \<Longrightarrow> E Longjmp u"
    and Q: "\<And>c' u. add_line c (Setting k v) = Some c' \<Longrightarrow> reading conf r ps c' u \<Longrightarrow> cx_tok u = cx_tok s \<Longrightarrow>
      wp (eat_token STRING 955) Q E u"
    and v: "tk_text conf (cx_tok s) = word_text v"
  shows "wp (bindE (create_keyval_in_table (cx_curtab s) kt) (\<lambda>i.
      bindE cur_tok (\<lambda>val.
      seqE (need_room 951)
      (bindE (gets (\<lambda>s. tk_text (cx_conf s) val)) (\<lambda>v.
      seqE (set_kval (cx_curtab s) i v)
      (eat_token STRING 955)))))) Q E s"
proof (rule current_table [OF s, of k v])
  fix n kvs c'
  assume cur:
    "cx_curtab s \<noteq> 0" "cx_curtab s \<in> t_live s" "t_tables s (cx_curtab s) = settings_table n kvs []"
    "add_line c (Setting k v) = (if word_key k \<in> fst ` set kvs then None else Some c')"
    "\<And>t. t_tables t = (t_tables s)(cx_curtab s := settings_table n (kvs @ [(word_key k, word_text v)]) []) \<Longrightarrow>
       t_live t = t_live s \<Longrightarrow> t_brk s \<le> t_brk t \<Longrightarrow> t_alloc_ok t = t_alloc_ok s \<Longrightarrow> cx_conf t = cx_conf s \<Longrightarrow>
       cx_root t = cx_root s \<Longrightarrow> cx_curtab t = cx_curtab s \<Longrightarrow> reading conf r ps c' t"
  have conf: "cx_conf s = conf" and ok: "\<And>n. t_alloc_ok s n" using s by (simp_all add: reading_def)
  let ?s = "s\<lparr>t_brk := Suc (t_brk s)\<rparr>"
  show ?thesis
  proof (cases "word_key k \<in> fst ` set kvs")
    case True
    have "wp (check_key (cx_curtab s) (word_key k)) (\<lambda>x u. x \<noteq> No_key \<and> u = ?s) E ?s"
      by (rule wp_check_settings [where kvs = kvs and ps = "[]" and secs = "[]"]) (use cur True in simp_all)
    then show ?thesis
      unfolding create_keyval_in_table_def wp_simps
      apply (simp add: wp_key conf k ok)
      apply (erule wp_mono)
       apply (simp_all add: wp_key_exists E cur True)
      done
  next
    case False
    have "map_of kvs (word_key k) = None" using False by (simp add: map_of_eq_None_iff)
    then have chk: "wp (check_key (cx_curtab s) (word_key k)) Q' E ?s = Q' No_key ?s" for Q'
      using cur(1-3) by (simp add: check_key_def wp_simps the_table_def wp_deref find_setting)
    show ?thesis
      unfolding create_keyval_in_table_def wp_simps
      apply (simp add: wp_key conf k ok chk wp_room wp_simps the_table_def wp_deref wp_upd_table cur(1-3) v set_kval_def fill_setting)
      apply (rule Q [of c'])
        apply (simp add: cur(4) False)
       apply (rule cur(5))
             apply simp_all
      done
  qed
qed

lemma wp_read_setting:
  assumes s: "reading conf r ps c s"
    and t: "tok_is conf (cx_tok s) STRING (word_text k) ('' = '' @ word_text v @ [LF] @ rest)"
    and k: "key_ok k" and v: "value_ok v"
    and E: "\<And>u. add_line c (Setting k v) = None \<Longrightarrow> E Longjmp u"
    and Q: "\<And>c' u. add_line c (Setting k v) = Some c' \<Longrightarrow> reading conf r ps c' u \<Longrightarrow>
      tok_is conf (cx_tok u) NEWLINE [LF] rest \<Longrightarrow> Q () u"
  shows "wp (parse_keyval (Suc f) (cx_curtab s)) Q E s"
proof -
  have conf: "cx_conf s = conf" using s by (simp add: reading_def)
  note tD = tok_isD [OF t]
  have kt: "normalize_key conf (cx_tok s) = Key (word_key k)"
    by (rule normalize_word [OF k, of "CHR '' ''" _ _ "''= '' @ word_text v @ [LF] @ rest"]) (use t in \<open>simp_all add: ends_def\<close>)
  have lv: "lexes False (CHR '' '' # word_text v @ LF # rest) STRING (word_text v) (LF # rest)"
    by (rule lexes_skip [OF _ lexes_word]) (use v in \<open>simp_all add: skipped_def ends_def\<close>)
  have nl: "lexes False (LF # rest) NEWLINE [LF] rest" by (rule lexes_special) (simp_all add: special_char_def)
  show ?thesis
    unfolding parse_keyval.simps [of "Suc f"] nat.case wp_simps
    apply (simp add: tD(1) wp_simps)
    apply (rule wp_eat [OF tD(1)], rule wp_lex [OF lexes_assign])
     apply (simp add: conf tD(6))
    subgoal premises 1 for t1
    proof -
      note t1 = tok_isD [OF 1 [unfolded conf]]
      show ?thesis
        apply (rule wp_expect)
         apply (simp add: t1(1))
        apply (rule wp_eat, simp add: t1(1))
        apply (rule wp_lex [OF lv])
         apply (simp add: conf t1(6))
        subgoal premises 2 for t2
        proof -
          note t2 = tok_isD [OF 2 [simplified, unfolded conf]]
          let ?s = "s\<lparr>cx_tok := t2\<rparr>"
          have cur: "cx_curtab ?s = cx_curtab s" by simp
          have r: "reading conf r ps c ?s" by (rule reading_cong [OF s]) simp_all
          show ?thesis
            apply (simp add: t2(1))
            apply (rule wp_new_entry [OF r kt, of v E Q, unfolded cur])
              apply (erule E)
             apply (rule wp_eat, simp add: t2(1))
             apply (rule wp_lex [OF nl], simp add: reading_def t2(6))
             apply (rule Q, assumption)
              apply (erule reading_cong, simp_all add: t2(5))
            apply (simp add: reading_def)
            done
        qed
        done
    qed
    done
qed

text \<open>A header: the path is one key long, the new section becomes the current table.\<close>

lemma wp_new_section:
  assumes s: "reading conf r ps c s" and k: "normalize_key conf kt = Key (word_key w)"
    and E: "\<And>u. add_line c (Header w) = None \<Longrightarrow> E Longjmp u"
    and Q: "\<And>c' u p. add_line c (Header w) = Some c' \<Longrightarrow> cx_tok u = cx_tok s \<Longrightarrow>
      reading conf r (ps @ [p]) c' (u\<lparr>cx_curtab := p\<rparr>) \<Longrightarrow> Q p u"
  shows "wp (create_keytable_in_table r kt) Q E (s\<lparr>cx_curtab := q\<rparr>)"
proof -
  obtain root secs where c: "c = (root, secs)" by (cases c)
  note sD = readingD [OF s [unfolded c]]
  let ?s = "s\<lparr>cx_curtab := q, t_brk := Suc (t_brk s)\<rparr>"
  have secs: "list_all2 (is_section ?s) ps secs" by (rule sections_cong [OF _ _ sD(5)]) simp_all
  show ?thesis
  proof (cases "word_key w \<in> fst ` set root \<or> word_key w \<in> fst ` set secs")
    case True
    then have dup: "add_line c (Header w) = None" by (simp add: c)
    have "wp (check_key r (word_key w)) (\<lambda>x u. u = ?s \<and> ((\<exists>kv. x = Key_val kv) \<or>
        (\<exists>q. x = Key_tab q \<and> q \<noteq> 0 \<and> q \<in> t_live s \<and> \<not> tab_implicit (t_tables s q)))) E ?s"
      by (rule wp_check_settings [OF _ _ _ secs]) (use sD True in auto)
    then show ?thesis
      unfolding create_keytable_in_table_def wp_simps
      apply (simp add: wp_key sD(8,9) k)
      apply (erule wp_mono)
       apply (auto simp: wp_simps the_table_def wp_deref intro!: wp_key_exists E [OF dup])
      done
  next
    case False
    have chk: "wp (check_key r (word_key w)) Q' E ?s = Q' No_key ?s" for Q'
    proof -
      let ?q = "first_ptr (\<lambda>q. tab_key (t_tables ?s q) = Some (word_key w)) ps"
      have "wp (find_tab (word_key w) ps) Q'' E ?s = Q'' ?q ?s" for Q''
        using find_section(1) [OF secs, of "word_key w"] by (simp add: wp_def)
      moreover have "?q = 0" using find_section(2) [OF secs, of "word_key w"] False by simp
      moreover have "map_of root (word_key w) = None" using False by (simp add: map_of_eq_None_iff)
      ultimately show ?thesis using sD(1-3)
        by (simp add: check_key_def wp_simps the_table_def wp_deref find_setting)
    qed
    let ?p = "Suc (Suc (t_brk s))"
    have p: "?p \<noteq> r" "?p \<notin> set ps" "r \<noteq> ?p" using sD(6,7) by fastforce+
    let ?c = "(root, secs @ [(word_key w, [])])"
    let ?u = "s\<lparr>cx_curtab := q, t_brk := Suc (Suc (Suc (t_brk s))), t_live := insert ?p (t_live s),
      t_tables := (t_tables s)(r := settings_table None root ps\<lparr>tab_tab := ps @ [?p]\<rparr>,
        ?p := fresh_table\<lparr>tab_key := Some (word_key w)\<rparr>)\<rparr>"
    have new: "reading conf r (ps @ [?p]) ?c (?u\<lparr>cx_curtab := ?p\<rparr>)"
    proof -
      have "list_all2 (is_section (?u\<lparr>cx_curtab := ?p\<rparr>)) ps secs"
        by (rule sections_cong [OF _ _ sD(5)]) (use p sD(4) in auto)
      moreover have "is_section (?u\<lparr>cx_curtab := ?p\<rparr>) ?p (word_key w, [])"
        by (simp add: is_section_def settings_table_def fresh_table_def)
      ultimately show ?thesis
        using sD p by (auto simp: reading_def list_all2_appendI settings_table_def less_SucI)
    qed
    show ?thesis
      unfolding create_keytable_in_table_def wp_simps
      apply (simp add: wp_key sD(8,9) k chk wp_room wp_simps new_table_def wp_upd_table sD(1-3) p)
      apply (rule Q [of ?c])
        apply (simp add: c False)
      apply simp
      apply (rule new)
      done
  qed
qed

lemma wp_read_header:
  assumes s: "reading conf r ps c s"
    and t: "tok_is conf (cx_tok s) LBRACKET ''['' (word_text w @ '']'' @ [LF] @ rest)" and w: "key_ok w"
    and E: "\<And>u. add_line c (Header w) = None \<Longrightarrow> E Longjmp u"
    and Q: "\<And>c' u p. add_line c (Header w) = Some c' \<Longrightarrow> reading conf r (ps @ [p]) c' u \<Longrightarrow>
      tok_is conf (cx_tok u) NEWLINE [LF] rest \<Longrightarrow> Q () u"
  shows "wp parse_select Q E s"
proof -
  have conf: "cx_conf s = conf" and ok: "\<And>n. t_alloc_ok s n" and root: "cx_root s = r"
    using s by (cases c, simp add: reading_def)+
  note tD = tok_isD [OF t]
  have lw: "lexes True (word_text w @ CHR '']'' # LF # rest) STRING (word_text w) (CHR '']'' # LF # rest)"
    by (rule lexes_word) (use w in \<open>simp_all add: ends_def\<close>)
  have lb: "lexes d (CHR '']'' # LF # rest) RBRACKET '']'' (LF # rest)" for d
    by (rule lexes_special) (simp_all add: special_char_def)
  have nl: "lexes d (LF # rest) NEWLINE [LF] rest" for d
    by (rule lexes_special) (simp_all add: special_char_def)
  show ?thesis
    unfolding parse_select_def wp_simps
    apply (simp add: tD(1))
    apply (rule wp_lex [OF lw])
     apply (simp add: conf tD(6))
    subgoal premises 1 for t1
    proof -
      note t1 = tok_isD [OF 1 [unfolded conf]]
      have kt: "normalize_key conf t1 = Key (word_key w)"
        by (rule normalize_word [OF w, of "CHR '']''"]) (use 1 conf in \<open>simp_all add: ends_def\<close>)
      show ?thesis
        apply (simp add: t1(1) fill_tabpath_def fill_loop.simps numeral_eq_Suc wp_simps wp_key conf ok kt)
        apply (rule wp_lex [OF lb])
         apply (simp add: conf t1(6))
        subgoal premises 2 for t2
        proof -
          note t2 = tok_isD [OF 2 [simplified, unfolded conf]]
          let ?s = "s\<lparr>t_brk := Suc (t_brk s), cx_tok := t2, cx_tpath := []\<rparr>"
          show ?thesis
            apply (simp add: t2(1) wp_simps walk_tabpath_def select_target_def root)
            apply (rule wp_new_section [of conf r ps c ?s t1 w E _ r, simplified])
               apply (rule reading_cong [OF s], simp_all add: kt)
             apply (erule E)
            subgoal premises 3 for c' u p
            proof -
              have cu: "cx_conf u = conf" using 3(3) by (cases c') (simp add: reading_def)
              show ?thesis
                unfolding close_select_def wp_simps
                apply (rule wp_expect, simp add: 3(2) t2(1))
                apply (rule wp_eat, simp add: 3(2) t2(1))
                apply (rule wp_lex [OF nl], simp add: 3(2) t2(6) cu)
                apply simp
                apply (rule wp_expect, simp add: tok_isD(1))
                apply (rule Q [OF 3(1)])
                 apply (rule reading_cong [OF 3(3)], simp_all add: cu)
                done
            qed
            done
        qed
        done
    qed
    done
qed

section \<open>The whole text\<close>

lemma wp_newline:
  assumes "tok_is (cx_conf s) (cx_tok s) NEWLINE w (lines_text ls)" "\<forall>x \<in> set ls. line_ok x"
    and "\<And>t. at_lines (cx_conf s) ls t \<Longrightarrow> wp (parse_lines f) Q E (s\<lparr>cx_tok := t\<rparr>)"
  shows "wp (parse_lines (Suc f)) Q E s"
proof -
  note tD = tok_isD [OF assms(1)]
  have "wp (next_token True) (\<lambda>_. wp (parse_lines f) Q E) E s"
    by (rule wp_lex_lines [OF assms(2) tD(6)]) (rule assms(3))
  then show ?thesis by (simp add: parse_lines.simps [of "Suc f"] wp_simps tD(1,2))
qed

lemma reading_conf: "reading conf r ps c s \<Longrightarrow> cx_conf s = conf"
  by (simp add: reading_def)

lemma wp_read_lines:
  assumes "reading conf r ps c s" "at_lines conf ls (cx_tok s)" "\<forall>x \<in> set ls. line_ok x" "length (lines_text ls) < fuel"
  shows "wp (parse_lines fuel) (\<lambda>_ t. \<exists>c' ps'. read_lines c ls = Some c' \<and> reading conf r ps' c' t)
    (\<lambda>h _. h = Longjmp \<and> read_lines c ls = None) s"
  using assms
proof (induction ls arbitrary: c ps s fuel)
  case Nil
  then obtain f where "fuel = Suc f" by (cases fuel) auto
  with Nil show ?case by (auto simp: parse_lines.simps [of "Suc f"] wp_simps)
next
  case (Cons l ls)
  note s = Cons.prems(1)
  obtain f where fuel: "fuel = Suc f" using Cons.prems(4) by (cases fuel) auto
  have ls: "\<forall>x \<in> set ls. line_ok x" and l: "line_ok l" using Cons.prems(3) by simp_all
  let ?Q = "\<lambda>c. \<lambda>_ t. \<exists>c' ps'. read_lines c ls = Some c' \<and> reading conf r ps' c' t"
  let ?E = "\<lambda>c. \<lambda>h (_ :: toml_ctx). h = Longjmp \<and> read_lines c ls = None"
  have go_on: "wp (parse_lines (Suc g)) (?Q c') (?E c') u"
    if "reading conf r ps' c' u" "tok_is conf (cx_tok u) NEWLINE w (lines_text ls)" "length (lines_text ls) < g" for g c' ps' u w
  proof (rule wp_newline [OF _ ls])
    show "tok_is (cx_conf u) (cx_tok u) NEWLINE w (lines_text ls)" using that(1,2) reading_conf by simp
    show "wp (parse_lines g) (?Q c') (?E c') (u\<lparr>cx_tok := t\<rparr>)" if t: "at_lines (cx_conf u) ls t" for t
      by (rule Cons.IH [OF reading_cong [OF \<open>reading conf r ps' c' u\<close>] _ ls \<open>length (lines_text ls) < g\<close>])
        (use t reading_conf [OF \<open>reading conf r ps' c' u\<close>] in simp_all)
  qed
  show ?case
  proof (cases l)
    case (Note n)
    then show ?thesis
      using go_on [OF s, of "[LF]" f] Cons.prems(2,4) fuel by simp
  next
    case (Header w)
    have tok: "tok_is conf (cx_tok s) LBRACKET ''['' (word_text w @ '']'' @ [LF] @ lines_text ls)"
      using Cons.prems(2) Header by simp
    obtain g where g: "f = Suc g" "length (lines_text ls) < g" using Cons.prems(4) Header fuel by (cases f) auto
    have "wp parse_select (\<lambda>_. wp (parse_lines f) (\<lambda>_ t. \<exists>c' ps'. read_lines c (l # ls) = Some c' \<and> reading conf r ps' c' t)
        (\<lambda>h _. h = Longjmp \<and> read_lines c (l # ls) = None)) (\<lambda>h _. h = Longjmp \<and> read_lines c (l # ls) = None) s"
    proof (rule wp_read_header [OF s tok])
      show "key_ok w" using l Header by simp
    next
      fix c' u p
      assume "add_line c (Header w) = Some c'" "reading conf r (ps @ [p]) c' u" "tok_is conf (cx_tok u) NEWLINE [LF] (lines_text ls)"
      then show "wp (parse_lines f) (\<lambda>_ t. \<exists>c' ps'. read_lines c (l # ls) = Some c' \<and> reading conf r ps' c' t)
        (\<lambda>h _. h = Longjmp \<and> read_lines c (l # ls) = None) u"
        using go_on [OF _ _ g(2)] Header g(1) by simp
    qed (simp add: Header)
    then show ?thesis
      using tok_isD(1,2) [OF tok] by (simp add: fuel parse_lines.simps [of "Suc f"] wp_simps)
  next
    case (Setting k v)
    have tok: "tok_is conf (cx_tok s) STRING (word_text k) ('' = '' @ word_text v @ [LF] @ lines_text ls)"
      using Cons.prems(2) Setting by simp
    obtain g where g: "f = Suc g" using Cons.prems(4) Setting fuel by (cases f) auto
    have len: "length (lines_text ls) < f" using Cons.prems(4) Setting fuel by simp
    let ?rest = "\<lambda>f. seqE (expect_token NEWLINE ''extra chars after value'') (seqE (eat_token NEWLINE 1258) (parse_lines f))"
    have "wp (parse_keyval f (cx_curtab s)) (\<lambda>_. wp (?rest f) (\<lambda>_ t. \<exists>c' ps'. read_lines c (l # ls) = Some c' \<and> reading conf r ps' c' t)
        (\<lambda>h _. h = Longjmp \<and> read_lines c (l # ls) = None)) (\<lambda>h _. h = Longjmp \<and> read_lines c (l # ls) = None) s"
      unfolding g
    proof (rule wp_read_setting [OF s tok])
      show "key_ok k" "value_ok v" using l Setting by simp_all
    next
      fix c' u
      assume u: "add_line c (Setting k v) = Some c'" "reading conf r ps c' u" "tok_is conf (cx_tok u) NEWLINE [LF] (lines_text ls)"
      note tu = tok_isD [OF u(3)] and cu = reading_conf [OF u(2)]
      have "wp (parse_lines f) (?Q c') (?E c') (u\<lparr>cx_tok := t\<rparr>)" if "at_lines conf ls t" for t
        by (rule Cons.IH [OF reading_cong [OF u(2)] _ ls len]) (use that in simp_all)
      then have "wp (next_token False) (\<lambda>_. wp (parse_lines f) (?Q c') (?E c')) (?E c') u"
        using tu(6) cu by (intro wp_lex_lines [OF ls]) simp_all
      then show "wp (?rest (Suc g)) (\<lambda>_ t. \<exists>c' ps'. read_lines c (l # ls) = Some c' \<and> reading conf r ps' c' t)
        (\<lambda>h _. h = Longjmp \<and> read_lines c (l # ls) = None) u"
        unfolding wp_simps using Setting u(1) g by (intro wp_expect wp_eat) (simp_all add: tu(1))
    qed (simp add: Setting)
    then show ?thesis
      using tok_isD(1,2) [OF tok] by (simp add: fuel parse_lines.simps [of "Suc f"] wp_simps)
  qed
qed

lemma key_no_NUL: "key_ok w \<Longrightarrow> NUL \<notin> set (word_text w)"
  and value_no_NUL: "value_ok w \<Longrightarrow> NUL \<notin> set (word_text w)"
proof -
  have q: "NUL \<notin> set (quote_basic s)" if "NUL \<notin> set s" for s
  proof -
    have "NUL \<notin> set (quote_char c)" if "c \<in> set s" for c
      using that \<open>NUL \<notin> set s\<close> by (auto simp: quote_char_def)
    then show ?thesis by (auto simp: quote_basic_def)
  qed
  show "key_ok w \<Longrightarrow> NUL \<notin> set (word_text w)"
  proof (cases w)
    case (Bare k)
    assume "key_ok w"
    then have "\<forall>c \<in> set k. c_isalnum c \<or> c = CHR ''_'' \<or> c = CHR ''-''" using Bare by (simp add: bare_key_def)
    then show ?thesis using bare_char_key(2) Bare by fastforce
  qed (use q in auto)
  show "value_ok w \<Longrightarrow> NUL \<notin> set (word_text w)"
    using q not_bare(9) [of False] by (cases w) auto
qed

lemma cstr_lines: "\<forall>x \<in> set ls. line_ok x \<Longrightarrow> cstr (lines_text ls) = lines_text ls"
proof (rule cstr_id)
  assume ok: "\<forall>x \<in> set ls. line_ok x"
  have "NUL \<notin> set (line_text x)" if "x \<in> set ls" for x
    using bspec [OF ok that] key_no_NUL value_no_NUL by (cases x) (auto simp: note_ok_def)
  then show "NUL \<notin> set (lines_text ls)" by (auto simp: lines_text_def)
qed

lemma read_from_root:
  assumes ls: "\<forall>x \<in> set ls. line_ok x" and m: "store_ok m" "\<forall>n. t_alloc_ok m n"
    and fuel: "length (lines_text ls) + 1 < fuel"
  shows "wp (parse_lines fuel) (\<lambda>_ t. \<exists>c ps. read_lines ([], []) ls = Some c \<and> reading (lines_text ls) (t_brk m) ps c t)
    (\<lambda>h _. h = Longjmp \<and> read_lines ([], []) ls = None) (root_ctx (lines_text ls) n m)"
proof -
  let ?u = "root_ctx (lines_text ls) n m"
  have c: "cx_conf ?u = lines_text ls" "cx_tok ?u = cx_tok (init_ctx (lines_text ls) n m)"
    using cstr_lines [OF ls] by (simp_all add: root_ctx_def init_ctx_eqs)
  have r: "reading (lines_text ls) (t_brk m) [] ([], []) ?u"
    using m c(1) by (simp add: reading_def store_ok_def root_ctx_def init_ctx_eqs fresh_table_def settings_table_def)
  obtain f where f: "fuel = Suc f" "length (lines_text ls) < f" using fuel by (cases fuel) auto
  show ?thesis unfolding f(1)
  proof (rule wp_newline [OF _ ls])
    show "tok_is (cx_conf ?u) (cx_tok ?u) NEWLINE [] (lines_text ls)" using c by (simp add: tok_is_def init_ctx_eqs)
    show "wp (parse_lines f) (\<lambda>_ t. \<exists>c ps. read_lines ([], []) ls = Some c \<and> reading (lines_text ls) (t_brk m) ps c t)
      (\<lambda>h _. h = Longjmp \<and> read_lines ([], []) ls = None) (?u\<lparr>cx_tok := t\<rparr>)" if "at_lines (cx_conf ?u) ls t" for t
      by (rule wp_read_lines [OF reading_cong [OF r] _ ls f(2)]) (use that c in simp_all)
  qed
qed

lemma wp_toml_parse_lines:
  assumes ls: "\<forall>x \<in> set ls. line_ok x" and m: "store_ok m" "\<forall>n. t_alloc_ok m n"
    and fuel: "3 * length (lines_text ls) + 3 < fuel"
  shows "wp (toml_parse fuel (lines_text ls) n)
    (\<lambda>(p, e) t. case read_lines ([], []) ls of None \<Rightarrow> p = 0 | Some c \<Rightarrow> \<exists>ps. holds t p ps c) (\<lambda>_ _. False) m"
proof -
  let ?t = "lines_text ls"
  have L: "0 < p \<and> p < t_brk m" if "p \<in> t_live m" for p using m(1) that by (simp add: store_ok_def)
  have b: "0 < t_brk m" and a: "t_alloc_ok m (t_brk m)" using m by (simp_all add: store_ok_def)
  have f: "3 * length (cstr ?t) + 3 < fuel" using fuel cstr_lines [OF ls] by simp
  have f': "length ?t + 1 < fuel" using fuel by simp
  note safe = wp_root_lines [OF L b f, of n]
  note read = read_from_root [OF ls m f', of n]
  note root = make_root_eq [OF a b, of ?t n]
  obtain res t where res: "parse_lines fuel (root_ctx ?t n m) = (res, t)" by (cases "parse_lines fuel (root_ctx ?t n m)")
  show ?thesis
  proof (cases res)
    case (Inr x)
    then obtain c ps where c: "read_lines ([], []) ls = Some c" "reading ?t (t_brk m) ps c t"
      using wp_returns [OF read] res by auto
    then have "cx_root t = t_brk m" "holds (toml_mem.truncate t) (t_brk m) ps c"
      by (cases c, auto simp: reading_def toml_mem.defs is_section_def list_all2_conv_all_nth)+
    then show ?thesis using res Inr root c(1) by (auto simp: wp_def toml_parse_def catch_error_def)
  next
    case (Inl h)
    then have h: "h = Longjmp" "read_lines ([], []) ls = None" using wp_halts [OF read] res by auto
    then obtain T A where "catch_error (seqE make_root (parse_lines fuel)) (init_ctx ?t n m) =
        (Inr 0, t\<lparr>t_live := t_live t - (T \<union> A)\<rparr>)"
      using catch_jump [OF _ _ a b, of fuel ?t n t] wp_halts [OF safe] res Inl by blast
    then show ?thesis using h(2) by (simp add: wp_def toml_parse_def)
  qed
qed

section \<open>Looking up what was read\<close>

lemma holds_table_ok:
  assumes "holds m p ps (root, secs)"
  shows "table_ok m p" and "table_keys m p = map fst root @ map fst secs"
proof -
  have ps: "list_all2 (is_section m) ps secs" using assms by simp
  show "table_ok m p"
    using assms by (auto simp: table_ok_def is_section_def list_all2_conv_all_nth in_set_conv_nth)
  have "map (\<lambda>q. the (tab_key (t_tables m q))) ps = map fst secs"
    using ps by (induction rule: list_all2_induct) (simp_all add: is_section_def)
  then show "table_keys m p = map fst root @ map fst secs"
    using assms by (auto simp: table_keys_def)
qed

text \<open>The value of a key in the section that the configuration has for a name.\<close>

definition lookup :: "config \<Rightarrow> string \<Rightarrow> string \<Rightarrow> string option option" where
  "lookup c sec key = map_option (\<lambda>kvs. map_of kvs key) (map_of (snd c) sec)"

lemma holds_lookup:
  assumes "holds m p ps c"
  shows "(if first_ptr (\<lambda>q. tab_key (t_tables m q) = Some sec) (tab_tab (t_tables m p)) = 0 then None
     else Some (case find_kval key (tab_kval (t_tables m
         (first_ptr (\<lambda>q. tab_key (t_tables m q) = Some sec) (tab_tab (t_tables m p)))))
       of None \<Rightarrow> None | Some kv \<Rightarrow> kv_val kv)) = lookup c sec key"
proof -
  obtain root secs where c: "c = (root, secs)" by (cases c)
  let ?q = "first_ptr (\<lambda>q. tab_key (t_tables m q) = Some sec) ps"
  have ps: "list_all2 (is_section m) ps secs" and tabs: "tab_tab (t_tables m p) = ps" using assms c by simp_all
  show ?thesis
  proof (cases "map_of secs sec")
    case None
    then have "?q = 0" using find_section(2) [OF ps, of sec] by (auto simp: map_of_eq_None_iff)
    with None show ?thesis by (simp add: lookup_def c tabs)
  next
    case (Some kvs)
    from find_section(3) [OF ps Some] show ?thesis
      using Some by (cases "map_of kvs key") (simp_all add: lookup_def c tabs is_section_def find_setting)
  qed
qed

section \<open>Properties\<close>

text \<open>C2. A configuration that is written as lines (headers of sections, settings, comments and
  blank lines, in any order and with any of the three ways to write a word) is parsed to exactly
  what its lines say: the root and one table for each header, in order, with its settings in order
  and every value as it is written. When a name is used twice in a table, and only then, the parse
  fails.\<close>

theorem toml_parse_reads:
  assumes "\<forall>x \<in> set ls. line_ok x" "store_ok m" "\<forall>n. t_alloc_ok m n" "3 * length (lines_text ls) + 3 < fuel"
  shows "\<exists>p e m'. toml_parse fuel (lines_text ls) n m = (Inr (p, e), m') \<and>
    (case read_lines ([], []) ls of None \<Rightarrow> p = 0 | Some c \<Rightarrow> \<exists>ps. holds m' p ps c)"
proof -
  obtain res m' where res: "toml_parse fuel (lines_text ls) n m = (res, m')" by (cases "toml_parse fuel (lines_text ls) n m")
  show ?thesis
    using wp_toml_parse_lines [OF assms, of n] res by (cases res) (auto simp: wp_def)
qed

text \<open>The first lines of the configuration file of the repository.\<close>

definition righack_conf :: "line list" where
  "righack_conf =
     [Header (Basic ''totally testing''),
      Setting (Literal ''module.name'') (Basic ''test''),
      Setting (Literal ''vserial.port'') (Basic ''/home/tyler/.wine/com1''),
      Setting (Literal ''hamlib.rigid'') (Bare ''1''),
      Note (''#'' @ word_text (Literal ''hamlib.serial.port'') @ '' = '' @ word_text (Literal ''/dev/ttyUSB0'')),
      Note [],
      Note ''# behave like CAT7200'']"

lemma righack_conf_ok: "\<forall>x \<in> set righack_conf. line_ok x" "length (lines_text righack_conf) = 166"
  by (simp_all add: righack_conf_def note_ok_def skipped_def bare_char_def Let_def quote_basic_def quote_char_def)

lemma righack_conf_reads:
  "read_lines ([], []) righack_conf = Some ([], [(''totally testing'',
     [(''module.name'', [DQ] @ ''test'' @ [DQ]), (''vserial.port'', [DQ] @ ''/home/tyler/.wine/com1'' @ [DQ]),
      (''hamlib.rigid'', ''1'')])])"
  by (simp add: righack_conf_def quote_basic_def quote_char_def)

theorem toml_parse_reads_witness:
  "\<exists>p e m' ps. toml_parse 600 (lines_text righack_conf) 99 empty_store = (Inr (p, e), m') \<and>
    holds m' p ps ([], [(''totally testing'',
     [(''module.name'', [DQ] @ ''test'' @ [DQ]), (''vserial.port'', [DQ] @ ''/home/tyler/.wine/com1'' @ [DQ]),
      (''hamlib.rigid'', ''1'')])])"
  using toml_parse_reads [OF righack_conf_ok(1) empty_store_ok(1,2), of 600 99]
  unfolding righack_conf_ok(2) righack_conf_reads by auto

end
