(* ===== verification/Config_Read.thy ===== *)
theory Config_Read
  imports Config_Load Toml_Read
begin

text \<open>
  From the text of a configuration file to the values that the program asks for:
  \<open>configfile_load\<close> of \<^verbatim>\<open>src/configfile.c\<close> over a file that is written as lines, followed by the
  typed lookups.
\<close>

section \<open>Reading a file that can be read\<close>

lemma wp_read_whole_file:
  assumes "same_store m t" "\<forall>n. t_alloc_ok m n" "length buf \<le> bufsz" "length rest < 1000 * fuel"
  shows "wp (read_file fuel errtext None bufsz buf rest) (\<lambda>r u. same_store m u \<and> r = Inr (buf @ rest)) (\<lambda>_ _. False) t"
  using assms
proof (induction fuel arbitrary: bufsz buf rest t)
  case 0
  then show ?case by simp
next
  case (Suc fuel)
  let ?t = "t\<lparr>t_brk := Suc (t_brk t)\<rparr>" and ?want = "bufsz + 1000 - length buf"
  have t: "same_store m ?t" by (rule same_store_brk [OF Suc.prems(1)])
  have room: "t_alloc_ok t (t_brk t)" using Suc.prems(1,2) by (simp add: same_store_def)
  have "wp (read_file fuel errtext None (bufsz + 1000) (buf @ take ?want rest) (drop ?want rest))
     (\<lambda>r u. same_store m u \<and> r = Inr (buf @ rest)) (\<lambda>_ _. False) ?t"
    if "\<not> length rest < ?want"
    by (rule wp_mono [OF Suc.IH [OF t Suc.prems(2)]]) (use that Suc.prems(3,4) in auto)
  then show ?case using t room by (simp add: wp_simps wp_m_room Let_def)
qed

lemma wp_toml_parse_file_lines:
  assumes m: "store_ok m" "\<forall>n. t_alloc_ok m n" and ls: "\<forall>x \<in> set ls. line_ok x"
    and fuel: "3 * length (lines_text ls) + 3 < fuel"
  shows "wp (toml_parse_file fuel errtext \<lparr>f_bytes = lines_text ls, f_failure = None\<rparr> n)
    (\<lambda>(p, e) t. case read_lines ([], []) ls of None \<Rightarrow> p = 0 | Some c \<Rightarrow> \<exists>ps. holds t p ps c) (\<lambda>_ _. False) m"
proof -
  let ?m = "m\<lparr>t_brk := Suc (t_brk m)\<rparr>"
  have ok: "same_store ?m ?m" using m(1) by (auto simp: same_store_def store_ok_def less_SucI)
  have "wp (read_file fuel errtext None 1000 [] (lines_text ls)) (\<lambda>r u. same_store ?m u \<and> r = Inr ([] @ lines_text ls)) (\<lambda>_ _. False) ?m"
    by (rule wp_read_whole_file [OF ok]) (use m fuel in simp_all)
  then show ?thesis
    unfolding toml_parse_file_def wp_simps wp_m_room
    apply (simp add: m(2) del: append_Nil)
    apply (erule wp_mono)
     apply clarify
     apply simp
     apply (rule wp_toml_parse_lines [OF ls _ _ fuel])
      apply (simp_all add: same_store_def m(2))
    done
qed

section \<open>Loading it\<close>

lemma wp_configfile_load_lines:
  fixes s :: "('w, 'cb, 'z) config_state_scheme"
  assumes s: "ready s" "toml_root s = 0" "store_ok (toml_store s)" "\<forall>n. t_alloc_ok (toml_store s) n"
    and fp: "os_fopen os path (world s) = Some \<lparr>f_bytes = lines_text ls, f_failure = None\<rparr>" "os_fclose os path (world s) = 0"
    and ls: "\<forall>x \<in> set ls. line_ok x" and fuel: "3 * length (lines_text ls) + 3 < fuel"
  shows "wp (configfile_load os fuel path)
     (\<lambda>_ t. \<exists>m' p c ps. t = s\<lparr>toml_store := m', toml_root := p\<rparr> \<and> read_lines ([], []) ls = Some c \<and> holds m' p ps c)
     (\<lambda>h _. h = Exited exit_fatal \<and> read_lines ([], []) ls = None) s"
proof -
  let ?P = "\<lambda>(p, e :: string) (t :: toml_mem). case read_lines ([], []) ls of None \<Rightarrow> p = 0 | Some c \<Rightarrow> \<exists>ps. holds t p ps c"
  note parse = wp_toml_parse_file_lines [OF s(3,4) ls fuel, of "strerror s" 1024]
  have msg: "message_buf s \<noteq> 0" using s(1) by simp
  have "wp (toml_parse_file fuel (strerror s) \<lparr>f_bytes = lines_text ls, f_failure = None\<rparr> 1024)
     (\<lambda>x m. wp (case x of (root, error) \<Rightarrow>
        seqE (modify (\<lambda>s. s\<lparr>toml_root := root\<rparr>))
        (bindE (sysread (os_fclose os path)) (\<lambda>rc.
        seqE (whenE (rc \<noteq> 0) (util_fatal (msg [''could not fclose('', path, ''): %m''])))
        (whenE (root = 0) (util_fatal (msg [''Could not load '', path, '':'', nl, error, nl, nl]))))))
       (\<lambda>_ t. \<exists>m' p c ps. t = s\<lparr>toml_store := m', toml_root := p\<rparr> \<and> read_lines ([], []) ls = Some c \<and> holds m' p ps c)
       (\<lambda>h _. h = Exited exit_fatal \<and> read_lines ([], []) ls = None) (s\<lparr>toml_store := m\<rparr>))
     (\<lambda>h _. h = Exited exit_fatal \<and> read_lines ([], []) ls = None) (toml_store s)"
  proof (rule wp_mono [OF parse])
    fix x m
    assume x: "?P x m"
    obtain p e where pe: "x = (p, e)" by (cases x)
    show "wp (case x of (root, error) \<Rightarrow>
        seqE (modify (\<lambda>s. s\<lparr>toml_root := root\<rparr>))
        (bindE (sysread (os_fclose os path)) (\<lambda>rc.
        seqE (whenE (rc \<noteq> 0) (util_fatal (msg [''could not fclose('', path, ''): %m''])))
        (whenE (root = 0) (util_fatal (msg [''Could not load '', path, '':'', nl, error, nl, nl]))))))
       (\<lambda>_ t. \<exists>m' p c ps. t = s\<lparr>toml_store := m', toml_root := p\<rparr> \<and> read_lines ([], []) ls = Some c \<and> holds m' p ps c)
       (\<lambda>h _. h = Exited exit_fatal \<and> read_lines ([], []) ls = None) (s\<lparr>toml_store := m\<rparr>)"
    proof (cases "read_lines ([], []) ls")
      case None
      then show ?thesis using x msg by (simp add: pe wp_simps wp_sysread fp wp_fatal)
    next
      case (Some c)
      then obtain ps where "holds m p ps c" "p \<noteq> 0" using x by (cases c) (auto simp: pe)
      then show ?thesis using Some by (auto simp: pe wp_simps wp_sysread fp)
    qed
  qed simp
  then show ?thesis
    unfolding configfile_load_def using s(2) fp
    by (simp add: wp_simps wp_sysread wp_on_toml del: bindE_gets)
qed

lemma holds_loaded:
  assumes "ready s" "holds m p ps c"
  shows "config_loaded (s\<lparr>toml_store := m, toml_root := p\<rparr>)"
    and "config_lookup (s\<lparr>toml_store := m, toml_root := p\<rparr>) sec key = lookup c sec key"
  using assms holds_table_ok(1) [of m p ps "fst c" "snd c"]
  by (simp_all add: config_loaded_def config_lookup_def section_table_def flip: holds_lookup [OF assms(2), of sec key])

text \<open>Numbers and quoted strings are values that the lexer takes.\<close>

lemma show_nat_bare: "show_nat n \<noteq> [] \<and> (\<forall>c \<in> set (show_nat n). bare_char d c)"
proof
  show "show_nat n \<noteq> []" by (rule show_nat_not_Nil)
  show "\<forall>c \<in> set (show_nat n). bare_char d c"
  proof
    fix c
    assume "c \<in> set (show_nat n)"
    then have "is_digit c" using show_nat_digits [of n] by auto
    then show "bare_char d c" by (intro alnum_bare) (simp add: is_digit_def c_isalnum_def Let_def)
  qed
qed

lemma number_ok: "value_ok (Bare (show_int i))"
  using show_nat_bare [of "nat i" False] show_nat_bare [of "nat (- i)" False]
  by (simp add: show_int_def bare_char_def)

section \<open>Properties\<close>

text \<open>C10. Loading a configuration file that is written as lines and can be read: the program has
  the configuration that the lines say, nothing else of its state has changed, and every lookup and
  the list of section names agree with it. A file in which a name is used twice ends the program
  with the fatal status.\<close>

theorem configfile_load_reads:
  assumes "ready s" "toml_root s = 0" "store_ok (toml_store s)" "\<forall>n. t_alloc_ok (toml_store s) n"
    and "os_fopen os path (world s) = Some \<lparr>f_bytes = lines_text ls, f_failure = None\<rparr>" "os_fclose os path (world s) = 0"
    and "\<forall>x \<in> set ls. line_ok x" "3 * length (lines_text ls) + 3 < fuel"
  shows "case read_lines ([], []) ls of
      None \<Rightarrow> fst (configfile_load os fuel path s) = Inl (Exited exit_fatal)
    | Some c \<Rightarrow> \<exists>m p. configfile_load os fuel path s = (Inr (), s\<lparr>toml_store := m, toml_root := p\<rparr>) \<and>
        config_loaded (s\<lparr>toml_store := m, toml_root := p\<rparr>) \<and>
        (\<forall>sec key. config_lookup (s\<lparr>toml_store := m, toml_root := p\<rparr>) sec key = lookup c sec key) \<and>
        table_keys m p = map fst (fst c) @ map fst (snd c)"
proof -
  note load = wp_configfile_load_lines [OF assms]
  obtain res t where res: "configfile_load os fuel path s = (res, t)" by (cases "configfile_load os fuel path s")
  show ?thesis
  proof (cases res)
    case (Inl h)
    then show ?thesis using wp_halts [OF load] res by auto
  next
    case (Inr x)
    then obtain m p c ps where t: "t = s\<lparr>toml_store := m, toml_root := p\<rparr>" "read_lines ([], []) ls = Some c" "holds m p ps c"
      using wp_returns [OF load] res by auto
    then show ?thesis
      using res Inr holds_loaded [OF assms(1) t(3)] holds_table_ok(2) [of m p ps "fst c" "snd c"] by auto
  qed
qed

definition righack_stdio :: "unit stdio" where
  "righack_stdio = \<lparr>os_fopen = (\<lambda>path w. Some \<lparr>f_bytes = lines_text righack_conf, f_failure = None\<rparr>), os_fclose = (\<lambda>_ _. 0)\<rparr>"

lemma sample_unloaded_ok:
  "ready sample_unloaded" "toml_root sample_unloaded = 0" "store_ok (toml_store sample_unloaded)"
  "\<forall>n. t_alloc_ok (toml_store sample_unloaded) n"
  using config_loadedD(1) [OF sample_config_loaded(1)] by (simp_all add: sample_unloaded_def empty_store_ok)

theorem configfile_load_reads_witness:
  "\<exists>m p. configfile_load righack_stdio 600 ''righack.conf'' sample_unloaded = (Inr (), sample_unloaded\<lparr>toml_store := m, toml_root := p\<rparr>) \<and>
     config_lookup (sample_unloaded\<lparr>toml_store := m, toml_root := p\<rparr>) ''totally testing'' ''hamlib.rigid'' = Some (Some ''1'') \<and>
     table_keys m p = [''totally testing'']"
proof -
  have "3 * length (lines_text righack_conf) + 3 < 600" using righack_conf_ok(2) by simp
  from configfile_load_reads [where os = righack_stdio and path = "''righack.conf''", OF sample_unloaded_ok _ _ righack_conf_ok(1) this]
  obtain m p where "configfile_load righack_stdio 600 ''righack.conf'' sample_unloaded = (Inr (), sample_unloaded\<lparr>toml_store := m, toml_root := p\<rparr>)"
    "\<forall>sec key. config_lookup (sample_unloaded\<lparr>toml_store := m, toml_root := p\<rparr>) sec key = lookup ([], [(''totally testing'',
       [(''module.name'', [DQ] @ ''test'' @ [DQ]), (''vserial.port'', [DQ] @ ''/home/tyler/.wine/com1'' @ [DQ]), (''hamlib.rigid'', ''1'')])]) sec key"
    "table_keys m p = [''totally testing'']"
    by (auto simp: righack_stdio_def righack_conf_reads)
  then show ?thesis by (intro exI [of _ m] exI [of _ p]) (simp add: lookup_def)
qed

text \<open>C3. From the file to the value: a string that is written between quotes with escapes, or a
  64-bit number that is written in decimal, comes back unchanged from the lookup after the file has
  been loaded.\<close>

theorem written_value_is_read:
  assumes "ready s" "buf_ok s" "toml_root s = 0" "store_ok (toml_store s)" "\<forall>n. t_alloc_ok (toml_store s) n"
    and "os_fopen os path (world s) = Some \<lparr>f_bytes = lines_text ls, f_failure = None\<rparr>" "os_fclose os path (world s) = 0"
    and "\<forall>x \<in> set ls. line_ok x" "3 * length (lines_text ls) + 3 < fuel"
    and "read_lines ([], []) ls = Some c"
  shows "\<exists>t. configfile_load os fuel path s = (Inr (), t) \<and>
    (\<forall>sec key text. lookup c sec key = Some (Some (word_text (Basic text))) \<and> NUL \<notin> set text \<longrightarrow>
       (\<exists>p u. configfile_gets_section_key sec key t = (Inr p, u) \<and> p \<in> live u \<and> strs u p = text)) \<and>
    (\<forall>sec key i. lookup c sec key = Some (Some (word_text (Bare (show_int i)))) \<and> LLONG_MIN \<le> i \<and> i \<le> LLONG_MAX \<longrightarrow>
       configfile_geti_section_key sec key t = (Inr (Some i), t))"
proof -
  note load = wp_configfile_load_lines [OF assms(1,3-9)]
  obtain res t where res: "configfile_load os fuel path s = (res, t)" by (cases "configfile_load os fuel path s")
  obtain m p ps where t: "res = Inr ()" "t = s\<lparr>toml_store := m, toml_root := p\<rparr>" "holds m p ps c"
  proof (cases res)
    case (Inl h)
    then show thesis using wp_halts [OF load] res assms(10) by auto
  next
    case (Inr x)
    then show thesis using wp_returns [OF load] res assms(10) that by auto
  qed
  have ld: "config_loaded t" and b: "buf_ok t" using holds_loaded(1) [OF assms(1) t(3)] assms(2) by (simp_all add: t(2) buf_ok_def)
  have look: "config_lookup t sec key = lookup c sec key" for sec key
    unfolding t(2) by (rule holds_loaded(2) [OF assms(1) t(3)])
  have "\<exists>p u. configfile_gets_section_key sec key t = (Inr p, u) \<and> p \<in> live u \<and> strs u p = text"
    if v: "lookup c sec key = Some (Some (word_text (Basic text)))" "NUL \<notin> set text" for sec key "text"
  proof -
    have "toml_rtos (quote_basic text) = Some (Norm_ok text)" using toml_rtos_basic [of "text"] cstr_id [OF v(2)] by simp
    then obtain u where "configfile_gets_section_key sec key t = (Inr (brk t), u)" "frame_log (new_buf text t) u"
      using gets_found [OF ld b, of sec key "quote_basic text" "text"] v(1) look by auto
    then show ?thesis using frame_logD(6,7) [of "new_buf text t" u] by (auto simp: new_buf_def)
  qed
  moreover have "configfile_geti_section_key sec key t = (Inr (Some i), t)"
    if "lookup c sec key = Some (Some (word_text (Bare (show_int i))))" "LLONG_MIN \<le> i" "i \<le> LLONG_MAX" for sec key i
    using geti_eq [OF ld, of sec key] toml_rtoi_show [OF that(2,3)] that(1) look by simp
  ultimately show ?thesis using res t(1) by auto
qed

theorem written_value_is_read_witness:
  "\<exists>t p u. configfile_load righack_stdio 600 ''righack.conf'' sample_unloaded = (Inr (), t) \<and>
     configfile_gets_section_key ''totally testing'' ''module.name'' t = (Inr p, u) \<and> strs u p = ''test'' \<and>
     configfile_geti_section_key ''totally testing'' ''hamlib.rigid'' t = (Inr (Some 1), t)"
proof -
  have f: "3 * length (lines_text righack_conf) + 3 < 600" using righack_conf_ok(2) by simp
  have b: "buf_ok sample_unloaded" using sample_config_loaded(2) by (simp add: sample_unloaded_def buf_ok_def)
  have one: "show_int 1 = ''1''"
    by (simp add: show_int_def) (subst show_nat.simps, simp add: digit_char_def char_of_def bit_simps)
  let ?c = "([], [(''totally testing'', [(''module.name'', [DQ] @ ''test'' @ [DQ]),
    (''vserial.port'', [DQ] @ ''/home/tyler/.wine/com1'' @ [DQ]), (''hamlib.rigid'', ''1'')])]) :: config"
  obtain t where t: "configfile_load righack_stdio 600 ''righack.conf'' sample_unloaded = (Inr (), t)"
    and str: "\<And>sec key text. lookup ?c sec key = Some (Some (word_text (Basic text))) \<Longrightarrow> NUL \<notin> set text \<Longrightarrow>
       \<exists>p u. configfile_gets_section_key sec key t = (Inr p, u) \<and> p \<in> live u \<and> strs u p = text"
    and num: "\<And>sec key i. lookup ?c sec key = Some (Some (word_text (Bare (show_int i)))) \<Longrightarrow> LLONG_MIN \<le> i \<Longrightarrow> i \<le> LLONG_MAX \<Longrightarrow>
       configfile_geti_section_key sec key t = (Inr (Some i), t)"
    using written_value_is_read [where os = righack_stdio and path = "''righack.conf''",
        OF sample_unloaded_ok(1) b sample_unloaded_ok(2-4) _ _ righack_conf_ok(1) f righack_conf_reads]
    by (auto simp: righack_stdio_def)
  have "\<exists>p u. configfile_gets_section_key ''totally testing'' ''module.name'' t = (Inr p, u) \<and> p \<in> live u \<and> strs u p = ''test''"
    by (rule str) (simp_all add: lookup_def quote_basic_def quote_char_def)
  moreover have "configfile_geti_section_key ''totally testing'' ''hamlib.rigid'' t = (Inr (Some 1), t)"
    by (rule num) (simp_all add: lookup_def one LLONG_MIN_def LLONG_MAX_def)
  ultimately show ?thesis using t by blast
qed

end
