(* ===== verification/Shutdown.thy ===== *)
theory Shutdown
  imports App Modem_Lines
begin

text \<open>
  The end of a running program: what stopping the test module does, through \<^verbatim>\<open>src/module.c\<close>,
  \<^verbatim>\<open>src/modules/test.c\<close>, \<^verbatim>\<open>src/driver.c\<close>, \<^verbatim>\<open>src/drivers/vserial.c\<close> and \<^verbatim>\<open>src/runloop.c\<close>.
\<close>

lemma poll_frame:
  fixes s t :: "('w, 'z) test_state_scheme"
  assumes "frame_log s t"
  shows "poll_ok uv t poll = poll_ok uv s poll" "poll_active uv t poll = poll_active uv s poll"
  using frame_logD [OF assms] frame_log_later [OF assms]
  by (simp_all add: poll_ok_def poll_active_def)

text \<open>A driver instance of a virtual port that has not been stopped: its poll handle is still
  started, as \<open>vserial_lifecycle_init\<close> leaves it.\<close>

definition port_running :: "'w libuv \<Rightarrow> ('w, 'z) test_state_scheme \<Rightarrow> nat \<Rightarrow> bool" where
  "port_running uv s d \<longleftrightarrow> d \<in> live s \<and> dr_status (drivers s d) = driver_status_unstarted \<and>
     dl_cleanup (di_lifecycle (dr_info (drivers s d))) = Vserial_lifecycle_cleanup \<and>
     dr_private (drivers s d) \<in> live s \<and>
     poll_ok uv s (vc_poll (vcontexts s (dr_private (drivers s d)))) \<and>
     poll_active uv s (vc_poll (vcontexts s (dr_private (drivers s d))))"

text \<open>A module that is an instance of the test module and has a running port.\<close>

definition test_running :: "'w libuv \<Rightarrow> ('w, 'z) test_state_scheme \<Rightarrow> nat \<Rightarrow> bool" where
  "test_running uv s m \<longleftrightarrow> stoppable s m \<and>
     ml_stop (mi_lifecycle (mo_info (modules s m))) = Test_lifecycle_stop \<and>
     mo_private (modules s m) \<in> live s \<and>
     port_running uv s (tc_vserial (tcontexts s (mo_private (modules s m))))"

lemma port_running_ready: "port_running uv s d \<Longrightarrow> ready s"
  by (simp add: port_running_def poll_ok_def)

lemma running_frame:
  fixes s t :: "('w, 'z) test_state_scheme"
  assumes "frame_log s t"
  shows "port_running uv t d = port_running uv s d" "test_running uv t m = test_running uv s m"
  using frame_logD [OF assms] frame_log_later [OF assms] poll_frame [OF assms]
  by (simp_all add: port_running_def test_running_def stoppable_def)

lemma port_cleanup_fatal:
  assumes "port_running uv s d"
  shows "fst (vserial_lifecycle_cleanup uv d s) = Inl (Exited exit_fatal)"
proof -
  let ?s = "log_msg log_level_debug ''vserial driver instance is being destroyed'' s"
  let ?c = "dr_private (drivers s d)"
  note f = frame_log_log [of s log_source_righack log_level_debug here_func here_file 0
      "''vserial driver instance is being destroyed''"]
  note r = port_running_ready [OF assms]
  have l: "d \<in> live s" "?c \<in> live s" using assms by (simp_all add: port_running_def)
  have "poll_ok uv ?s (vc_poll (vcontexts s ?c))" "poll_active uv ?s (vc_poll (vcontexts s ?c))"
    using assms by (simp_all add: port_running_def poll_frame [OF f])
  then have "fst (runloop_poll_destroy uv (vc_poll (vcontexts s ?c)) ?s) = Inl (Exited exit_fatal)"
    by (simp add: poll_destroy_active)
  then obtain t where t: "runloop_poll_destroy uv (vc_poll (vcontexts s ?c)) ?s = (Inl (Exited exit_fatal), t)"
    by (metis prod.collapse)
  show ?thesis
    using r l live_nonzero [OF r l(1)] live_nonzero [OF r l(2)] t
    by (simp add: vserial_lifecycle_cleanup_def deref_def frame_log_later [OF f] frame_logD [OF f])
qed

lemma driver_destroy_fatal:
  assumes "port_running uv s d"
  shows "fst (driver_destroy (driver_cleanup_call uv) d False s) = Inl (Exited exit_fatal)"
proof -
  note r = port_running_ready [OF assms]
  have l: "d \<in> live s" "dr_status (drivers s d) = driver_status_unstarted"
      "dl_cleanup (di_lifecycle (dr_info (drivers s d))) = Vserial_lifecycle_cleanup"
    using assms by (simp_all add: port_running_def)
  obtain t where "vserial_lifecycle_cleanup uv d s = (Inl (Exited exit_fatal), t)"
    using port_cleanup_fatal [OF assms] by (metis prod.collapse)
  then show ?thesis
    using l live_nonzero [OF r l(1)] by (simp add: driver_destroy_def deref_def driver_cleanup_call_def)
qed

lemma test_stop_fatal:
  assumes "test_running uv s m"
  shows "fst (module_stop_call uv hl Test_lifecycle_stop m s) = Inl (Exited exit_fatal)"
proof -
  let ?s = "log_msg log_level_debug ''test module stopping'' s"
  let ?u = "mo_private (modules s m)" and ?d = "tc_vserial (tcontexts s (mo_private (modules s m)))"
  note f = frame_log_log [of s log_source_righack log_level_debug here_func here_file 0 "''test module stopping''"]
  have p: "port_running uv s ?d" using assms by (simp add: test_running_def)
  note r = port_running_ready [OF p]
  have l: "m \<in> live s" "?u \<in> live s" "?d \<in> live s"
    using assms by (simp_all add: test_running_def stoppable_def port_running_def)
  have "port_running uv ?s ?d" using p by (simp add: running_frame [OF f])
  from driver_destroy_fatal [OF this] obtain t where
    "driver_destroy (driver_cleanup_call uv) ?d False ?s = (Inl (Exited exit_fatal), t)"
    by (metis prod.collapse)
  then show ?thesis
    using r l live_nonzero [OF r l(1)] live_nonzero [OF r l(2)] live_nonzero [OF r l(3)]
    by (simp add: module_stop_call_def test_lifecycle_stop_def deref_def frame_log_later [OF f] frame_logD [OF f])
qed

lemma stop_all_fatal:
  assumes "test_running uv s m" "newest s m" "0 < fuel"
  shows "fst (module_stop_all (module_stop_call uv hl) fuel s) = Inl (Exited exit_fatal)"
proof -
  let ?a = "log_msg log_level_debug ''stopping all modules'' s"
  let ?b = "log_msg log_level_trace (msg [''stopping module: '', strs s (mo_label (modules s m))]) ?a"
  have f: "frame_log s ?b" by (rule frame_log_trans [OF frame_log_log frame_log_log])
  have "test_running uv ?b m" using assms(1) by (simp add: running_frame [OF f])
  from test_stop_fatal [OF this, of hl]
  have "fst (module_stop_call uv hl (ml_stop (mi_lifecycle (mo_info (modules s m)))) m ?b) = Inl (Exited exit_fatal)"
    using assms(1) by (simp add: test_running_def)
  moreover have "ready s" "stoppable s m"
    using assms(1) port_running_ready by (auto simp: test_running_def)
  ultimately show ?thesis using stop_all_newest assms(2,3) by blast
qed

lemma test_running_ready: "test_running uv s m \<Longrightarrow> ready s"
  unfolding test_running_def using port_running_ready by blast

lemma log_upd_world_same [simp]: "(log_upd src l f p n m s)\<lparr>world := world s\<rparr> = log_upd src l f p n m s"
  by (simp add: log_upd_def)

text \<open>The libuv handle of the port of a module.\<close>

definition module_handle :: "('w, 'z) test_state_scheme \<Rightarrow> nat \<Rightarrow> nat" where
  "module_handle s m = rp_private (polls s (vc_poll (vcontexts s
     (dr_private (drivers s (tc_vserial (tcontexts s (mo_private (modules s m)))))))))"

lemma running_close:
  fixes s :: "('w, 'z) test_state_scheme"
  assumes "test_running uv s m" "h \<noteq> module_handle s m"
  shows "test_running uv (s\<lparr>world := uv_close uv h cb (world s)\<rparr>) m"
proof -
  have c: "uv_contract uv" using assms(1) by (simp add: test_running_def port_running_def poll_ok_def)
  have "uv_same uv (module_handle s m) (world s) (uv_close uv h cb (world s))"
    using c assms(2) by (simp add: uv_contract_def)
  with assms(1) show ?thesis
    by (simp add: test_running_def stoppable_def port_running_def poll_ok_def poll_active_def
        uv_same_def module_handle_def)
qed

lemma newest_cong:
  "live t = live s \<Longrightarrow> running_modules t = running_modules s \<Longrightarrow> running_nodes t = running_nodes s \<Longrightarrow>
   newest t m = newest s m"
  by (simp add: newest_def)

lemma cleanup_newest_fatal:
  assumes "test_running (e_uv env) s m" "newest s m" "0 < fuel"
    and "thread_loop s \<noteq> 0" "int_signal s \<noteq> module_handle s m"
  shows "fst (runloop_cleanup env fuel s) = Inl (Exited exit_fatal)"
proof -
  let ?a = "log_msg log_level_debug ''starting to cleanup the runloop'' s"
  let ?w = "if int_signal s = 0 then world s else uv_close (e_uv env) (int_signal s) Close_none (world s)"
  let ?b = "?a\<lparr>world := ?w\<rparr>"
  have f: "frame_log s ?a" by (rule frame_log_log)
  have r: "message_buf s \<noteq> 0" using test_running_ready [OF assms(1)] by simp
  have a: "test_running (e_uv env) ?a m" using assms(1) by (simp add: running_frame [OF f])
  have "test_running (e_uv env) ?b m"
    using running_close [OF a, of "int_signal s" Close_none] a assms(5)
    by (cases "int_signal s = 0") (simp_all add: module_handle_def frame_log_later [OF f])
  moreover have "newest ?b m"
    using assms(2) by (subst newest_cong [of _ s]) (simp_all add: frame_logD [OF f] frame_log_later [OF f])
  ultimately have "fst (module_stop_all (module_stop_call (e_uv env) (e_hl env)) fuel ?b) = Inl (Exited exit_fatal)"
    by (rule stop_all_fatal [OF _ _ assms(3)])
  then obtain t where "module_stop_all (module_stop_call (e_uv env) (e_hl env)) fuel ?b = (Inl (Exited exit_fatal), t)"
    by (metis prod.collapse)
  then show ?thesis
    using assms(4) r by (cases "int_signal s = 0") (simp_all add: runloop_cleanup_def uv_do_def whenE_def)
qed

text \<open>C14. A program that runs a test module cannot shut down: once its port has been started, the
  cleanup of the run loop, which stops the modules, ends the program with the fatal status at
  the poll handle that is still active, whatever the outside world does.\<close>

theorem cleanup_of_test_module_fatal:
  assumes "test_running (e_uv env) s m" "running s (running_modules s) (m # ms)" "0 < fuel"
    and "thread_loop s \<noteq> 0" "int_signal s \<noteq> module_handle s m"
  shows "fst (runloop_cleanup env fuel s) = Inl (Exited exit_fatal)"
  using cleanup_newest_fatal [OF assms(1) running_newest [OF assms(2)] assms(3-5)] .

text \<open>A program at the moment of its shutdown: the port of the sample with an active poll handle
  at 8, a module at 9 with its label at 10, and the node of the list of modules at 11.\<close>

definition sample_shutdown :: "unit table_world test_state" where
  "sample_shutdown = (sample_port (\<lambda>_. (True, False), ()))\<lparr>brk := 12, live := {1, 2, 3, 4, 5, 6, 7, 8, 9, 10, 11},
     thread_loop := 1,
     polls := (\<lambda>_. \<lparr>rp_cb = Vserial_poll_cb, rp_context = 2, rp_private = 8\<rparr>),
     poll_privs := (\<lambda>_. \<lparr>pp_data = 7, pp_fd = 3\<rparr>),
     modules := (\<lambda>_. \<lparr>mo_label = 10, mo_private = 6, mo_info = test_module_info\<rparr>),
     running_modules := 11, running_nodes := (\<lambda>_. \<lparr>rm_module = 9, rm_next = 0\<rparr>)\<rparr>"

lemmas sample_shutdown_defs = sample_shutdown_def sample_port_defs

lemma sample_shutdown_running: "test_running table_uv sample_shutdown 9"
proof -
  have "ready sample_shutdown"
    by (simp add: sample_shutdown_defs ready_def mem_ok_def heap_inv_def del: readyD)
  moreover have "uv_contract (table_uv :: unit table_world libuv)" by (rule table_uv_contract)
  ultimately have "poll_ok table_uv sample_shutdown 7" unfolding poll_ok_def
    by (simp add: sample_shutdown_defs table_uv_def)
  then show ?thesis
    by (simp add: test_running_def port_running_def)
      (simp add: stoppable_def sample_shutdown_defs poll_active_def table_uv_def test_module_info_def
        vserial_driver_info_def driver_status_unstarted_def)
qed

theorem cleanup_of_test_module_fatal_witness:
  "fst (runloop_cleanup idle_env 5 sample_shutdown) = Inl (Exited exit_fatal)"
  using cleanup_of_test_module_fatal [of idle_env sample_shutdown 9 "[]" 5] sample_shutdown_running
  by (simp add: idle_env_def sample_shutdown_defs module_handle_def)

end
