(* ===== verification/Startup.thy ===== *)
theory Startup
  imports Modem_Lines App
begin

text \<open>
  The start of the program (\<^verbatim>\<open>src/main.c\<close>): scheduling the sections of the configuration,
  starting the module that a section asks for, and the messages of hamlib.
\<close>

section \<open>Messages of hamlib\<close>

definition chomp :: "string \<Rightarrow> string" where
  "chomp fmt = (if last fmt = CHR 0x0A then butlast fmt else fmt)"

lemma log_basename_no_file [simp]: "log_basename ''(no file)'' = Some ''(no file)''"
  by (simp add: log_basename_def log_basename_loop_no_slash)

lemma hamlib_line:
  assumes "message_buf s \<noteq> 0" "log_levelname level = Some ln" "\<not> level < current_level s"
  shows "log_level_args die_call log_source_hamlib level None None (-1) m s =
    (Inr (), s\<lparr>message_text := take (CONFIG_LOG_SIZE - 1) m,
      console := console s @ [(if log_level_warn \<le> level then Stderr else Stdout,
        log_line ''hamlib'' ln ''(no file)'' (-1) ''(no func)'' (take (CONFIG_LOG_SIZE - 1) m))]\<rparr>)"
  using assms
  by (simp add: log_level_args_def log_get_current_level_def ret_def put_text_def)

lemma hamlib_level_name: "\<exists>ln. log_levelname (hamlib_log_level d) = Some ln"
  by (simp add: hamlib_log_level_def)

text \<open>C40. What a message of hamlib becomes: nothing when its level is below that of the log; a
  read outside the string when the format is empty; otherwise exactly one line with the source
  hamlib at the translated level, the newline at the end of the format removed, and no block
  left behind.\<close>

theorem hamlib_message_cases:
  assumes "ready s"
  shows "if hamlib_log_level d < current_level s
    then hamlib_debug_handler d fmt render s = (Inr RIG_OK, s)
    else if fmt = [] then fst (hamlib_debug_handler d fmt render s) = Inl (Undefined OutOfBounds)
    else \<exists>t. hamlib_debug_handler d fmt render s = (Inr RIG_OK, t) \<and> live t = live s \<and>
      console t = console s @ [(if log_level_warn \<le> hamlib_log_level d then Stderr else Stdout,
        log_line ''hamlib'' (the (log_levelname (hamlib_log_level d))) ''(no file)'' (-1) ''(no func)''
          (take (CONFIG_LOG_SIZE - 1) (render (chomp fmt))))]"
proof -
  obtain ln where ln: "log_levelname (hamlib_log_level d) = Some ln" using hamlib_level_name by blast
  have b: "brk s \<notin> live s" by (rule heap_inv_fresh [OF readyD(5) [OF assms]])
  note line = hamlib_line [OF _ ln]
  show ?thesis
  proof (cases "hamlib_log_level d < current_level s")
    case True
    then show ?thesis by (simp add: hamlib_debug_handler_def log_get_current_level_def gets_def ret_def)
  next
    case False
    show ?thesis
    proof (cases "fmt = []")
      case True
      then show ?thesis using False assms
        by (simp add: hamlib_debug_handler_def log_get_current_level_def stop_def)
    next
      case nonempty: False
      show ?thesis
        using False nonempty assms ln b
        by (cases "last fmt = CHR 0x0A")
          (auto simp: hamlib_debug_handler_def log_get_current_level_def line c_free_def ret_def chomp_def
            modify_def)
    qed
  qed
qed

theorem hamlib_message_cases_witness:
  "\<exists>t. hamlib_debug_handler RIG_DEBUG_ERR ''a'' (\<lambda>f. f) sample_log = (Inr RIG_OK, t) \<and> length (console t) = 1"
proof -
  have "ready sample_log"
    by (simp add: sample_log_def ready_def mem_ok_def heap_inv_def del: readyD)
  from hamlib_message_cases [OF this, of RIG_DEBUG_ERR "''a''" "\<lambda>f. f"] show ?thesis
    by (auto simp: hamlib_log_level_def rig_debug_defs log_level_defs sample_log_def)
qed

section \<open>Starting the module of a section\<close>


lemma string_at_live [simp]:
  "p \<noteq> 0 \<Longrightarrow> p \<in> live s \<Longrightarrow> bindE (string_at p) f s = f (strs s p) s"
  by (simp add: string_at_def prog_assoc deref_def)

lemma rgets_eq:
  assumes "config_loaded s"
  shows "configfile_rgets_section_key sec key s =
    bindE (configfile_gets_section_key sec key) (\<lambda>value.
      seqE (whenE (value = 0) (util_fatal (msg [''Could not get required key: '', quo key, '' from '', quo sec, nl])))
      (ret value)) s"
  using assms by (simp add: configfile_rgets_section_key_def)

lemma rgets_fails:
  assumes "config_loaded s" "buf_ok s"
    and "case config_lookup s sec key of Some (Some raw) \<Rightarrow> toml_rtos raw = None | _ \<Rightarrow> True"
  shows "fst (configfile_rgets_section_key sec key s) = Inl (Exited exit_fatal)"
proof -
  consider "config_lookup s sec key = None" | "config_lookup s sec key = Some None"
    | raw where "config_lookup s sec key = Some (Some raw)" "toml_rtos raw = None"
    using assms(3) by (auto split: option.splits)
  then show ?thesis
  proof cases
    case 1
    from gets_no_section [OF assms(1,2) this] obtain t where
      "configfile_gets_section_key sec key s = (Inl (Exited exit_fatal), t)" by (metis prod.collapse)
    then show ?thesis by (simp add: rgets_eq [OF assms(1)])
  next
    case 2
    from gets_missing [OF assms(1,2) this] obtain t where
      t: "configfile_gets_section_key sec key s = (Inr 0, t)" "frame_log (drop_buf s) t" by blast
    then have "message_buf t \<noteq> 0" using config_loadedD(4) [OF assms(1)] by (simp add: frame_logD(4) [OF t(2)])
    with t show ?thesis by (simp add: rgets_eq [OF assms(1)])
  next
    case 3
    from gets_bad [OF assms(1,2) this] obtain t where
      "configfile_gets_section_key sec key s = (Inl (Exited exit_fatal), t)" by (metis prod.collapse)
    then show ?thesis by (simp add: rgets_eq [OF assms(1)])
  qed
qed

lemma rgets_finds:
  assumes "config_loaded s" "buf_ok s" "config_lookup s sec key = Some (Some raw)" "toml_rtos raw = Some (Norm_ok v)"
  shows "\<exists>t. configfile_rgets_section_key sec key s = (Inr (brk s), t) \<and> frame_log (new_buf v s) t"
proof -
  obtain t where t: "configfile_gets_section_key sec key s = (Inr (brk s), t)" "frame_log (new_buf v s) t"
    using gets_found [OF assms] by blast
  moreover have "brk s \<noteq> 0" using config_loadedD(1) [OF assms(1)] by simp
  ultimately show ?thesis by (auto simp: rgets_eq [OF assms(1)] ret_def)
qed

lemma ready_new_buf:
  assumes "ready s"
  shows "ready (new_buf v s)"
  using assms by (auto simp: new_buf_def ready_def heap_inv_def mem_ok_def simp del: readyD)

lemma frame_log_modules:
  fixes s t :: "('w, 'cb, 'z) module_state_scheme"
  assumes "frame_log s t"
  shows "loaded_modules t = loaded_modules s" "loaded_nodes t = loaded_nodes s"
  using assms by (auto simp: frame_log_def)

lemma start_unknown:
  fixes s :: "'w app_state"
  assumes "config_loaded s" "buf_ok s" "config_lookup s (strs s ctx) ''module.name'' = Some (Some raw)"
    and "toml_rtos raw = Some (Norm_ok name)" "name \<noteq> ''test''"
    and "ctx \<in> live s" "loaded_modules s \<in> live s - {config_buf s}"
    and "mi_name (lm_info (loaded_nodes s (loaded_modules s))) = ''test''"
  shows "fst (start_module_handler env True ctx s) = Inl Diverges"
proof -
  let ?sec = "strs s ctx"
  note r = config_loadedD(1) [OF assms(1)]
  obtain t where t: "configfile_rgets_section_key ?sec ''module.name'' s = (Inr (brk s), t)" "frame_log (new_buf name s) t"
    using rgets_finds [OF assms(1-4)] by blast
  have rt: "ready t" using ready_new_buf [OF r] frame_logD(10) [OF t(2)] by simp
  have strs: "strs t (brk s) = name" "brk s \<in> live t" "brk s \<noteq> 0"
    using r frame_logD [OF t(2)] by (simp_all add: new_buf_def)
  let ?m = "msg [''config section '', quo ?sec, '' module.name = '', quo name]"
  let ?u = "log_msg log_level_debug ?m t"
  have u: "frame_log t ?u" by (rule frame_log_log)
  have nz: "loaded_modules s \<noteq> 0" "ctx \<noteq> 0" using live_nonzero [OF r] assms(6,7) by auto
  have "ready ?u" using rt by (simp add: frame_logD(10) [OF u])
  then have "module_start (module_start_call (e_os env) (e_uv env) (e_hl env)) name ?sec ?u = (Inl Diverges, ?u)"
    using assms(5,7,8) nz frame_logD(6) [OF t(2)] frame_log_modules [OF t(2)]
    by (intro module_start_head) (simp_all add: new_buf_def)
  then show ?thesis
    using assms(6) nz t(1) strs rt by (simp add: start_module_handler_def prog_assoc)
qed

text \<open>C27. A section that asks for no module that the program has. When the section has no
  \<open>module.name\<close>, or it is not a string, the start of its module ends the program with the
  fatal status; when it names a module other than \<open>test\<close>, the program hangs instead of
  reporting the missing module.\<close>

theorem start_module_errors:
  fixes s :: "'w app_state"
  assumes "config_loaded s" "buf_ok s" "ctx \<in> live s" "loaded_modules s \<in> live s - {config_buf s}"
    and "mi_name (lm_info (loaded_nodes s (loaded_modules s))) = ''test''"
    and "\<And>raw. config_lookup s (strs s ctx) ''module.name'' = Some (Some raw) \<Longrightarrow>
      toml_rtos raw \<noteq> Some (Norm_ok ''test'')"
  shows "fst (start_module_handler env True ctx s) = Inl
    (case config_lookup s (strs s ctx) ''module.name'' of
       Some (Some raw) \<Rightarrow> if toml_rtos raw = None then Exited exit_fatal else Diverges
     | _ \<Rightarrow> Exited exit_fatal)"
proof (cases "\<exists>raw name. config_lookup s (strs s ctx) ''module.name'' = Some (Some raw) \<and> toml_rtos raw = Some (Norm_ok name)")
  case True
  then obtain raw name where k: "config_lookup s (strs s ctx) ''module.name'' = Some (Some raw)"
    "toml_rtos raw = Some (Norm_ok name)" by blast
  then have "name \<noteq> ''test''" using assms(6) by blast
  from start_unknown [OF assms(1,2) k this assms(3-5)] k show ?thesis by simp
next
  case False
  then have k: "case config_lookup s (strs s ctx) ''module.name'' of Some (Some raw) \<Rightarrow> toml_rtos raw = None | _ \<Rightarrow> True"
    by (cases "config_lookup s (strs s ctx) ''module.name''")
      (simp_all split: option.splits, metis not_Some_eq toml_rtos_ok)
  obtain t where "configfile_rgets_section_key (strs s ctx) ''module.name'' s = (Inl (Exited exit_fatal), t)"
    using rgets_fails [OF assms(1,2) k] by (metis prod.collapse)
  then have "fst (start_module_handler env True ctx s) = Inl (Exited exit_fatal)"
    using assms(3) live_nonzero [OF config_loadedD(1) [OF assms(1)] assms(3)]
    by (simp add: start_module_handler_def prog_assoc)
  with k show ?thesis by (auto split: option.splits)
qed

text \<open>A program that has started the module system, with a section that names an unknown module.\<close>

definition sample_unknown :: "unit table_world app_state" where
  "sample_unknown = (sample_test (no_handles ()))\<lparr>brk := 5, live := {1, 2, 3},
     toml_store := sample_store\<lparr>t_tables := (t_tables sample_store)(3 :=
       (t_tables sample_store 3)\<lparr>tab_kval := [\<lparr>kv_key = ''module.name'', kv_val = Some (quote_basic ''perl'')\<rparr>]\<rparr>)\<rparr>,
     toml_root := 1, strs := (\<lambda>_. ''sec''), loaded_modules := 3\<rparr>"

lemmas sample_unknown_defs = sample_unknown_def sample_test_defs sample_store_def

theorem start_module_errors_witness:
  "fst (start_module_handler idle_env True 2 sample_unknown) = Inl Diverges"
proof -
  have r: "ready sample_unknown"
    by (simp add: sample_unknown_defs ready_def mem_ok_def heap_inv_def del: readyD)
  then have c: "config_loaded sample_unknown" "buf_ok sample_unknown"
    by (simp_all add: config_loaded_def buf_ok_def) (simp_all add: table_ok_def sample_unknown_defs)
  have l: "config_lookup sample_unknown ''sec'' ''module.name'' = Some (Some (quote_basic ''perl''))"
    by (simp add: config_lookup_def section_table_def first_ptr_def sample_unknown_defs)
  have n: "toml_rtos (quote_basic ''perl'') = Some (Norm_ok ''perl'')"
    using toml_rtos_basic [of "''perl''"] by (simp add: cstr_def)
  have s: "strs sample_unknown 2 = ''sec''" "2 \<in> live sample_unknown"
    "loaded_modules sample_unknown \<in> live sample_unknown - {config_buf sample_unknown}"
    "mi_name (lm_info (loaded_nodes sample_unknown (loaded_modules sample_unknown))) = ''test''"
    by (simp_all add: sample_unknown_defs test_module_info_def)
  show ?thesis
    using start_module_errors [OF c s(2-4), of idle_env] l n unfolding s(1) by simp
qed

section \<open>Scheduling the sections\<close>

lemma later_upd_frame [simp]:
  "strs (later_upd uv cb c s) = strs s"
  "live (later_upd uv cb c s) = insert (Suc (brk s)) (insert (brk s) (live s))"
  by (simp_all add: later_upd_def Let_def)

lemma later_upd_config [simp]:
  "toml_store (later_upd uv cb c s) = toml_store s" "toml_root (later_upd uv cb c s) = toml_root s"
  by (simp_all add: later_upd_def Let_def)

abbreviation section_names :: "('w, 'cb, 'z) config_state_scheme \<Rightarrow> string list" where
  "section_names s \<equiv> table_keys (toml_store s) (toml_root s)"

definition start_jobs :: "nat list \<Rightarrow> callback run_once_private list" where
  "start_jobs cs = map (the_job Start_module_handler) cs"

lemma queue_off_rep: "queue_off keep s p js \<Longrightarrow> queue_rep s p js"
  by (auto simp: queue_off_def queue_rep_def)

lemma queue_off_strdup:
  assumes "queue_off keep s p js" "a \<notin> live s"
  shows "queue_off (insert a keep) (s\<lparr>brk := b, live := insert a (live s), strs := x\<rparr>) p js"
proof -
  obtain ns where "nodes_rep s p ns js" "set (ns @ node_runs s ns) \<inter> keep = {}" "run_once_queue s = 0 \<longleftrightarrow> p = 0"
    using assms(1) by (auto simp: queue_off_def)
  with assms(2) show ?thesis
    unfolding queue_off_def by (intro conjI exI [of _ ns]) (auto simp: nodes_rep_def node_runs_def node_jobs_def)
qed

text \<open>A job that is appended stays clear of what was there before.\<close>

lemma run_later_off:
  assumes r: "ready s" and q: "queue_off keep s (run_once_queue s) js" and k: "keep \<subseteq> live s"
  shows "\<exists>x. runloop_run_later uv cb c s = (Inr x, later_upd uv cb c s)" "ready (later_upd uv cb c s)"
    "queue_off keep (later_upd uv cb c s) (run_once_queue (later_upd uv cb c s)) (js @ [the_job cb c])"
proof -
  let ?p = "run_once_queue s" and ?t = "later_upd uv cb c s"
  obtain ns where n: "nodes_rep s ?p ns js" "set (ns @ node_runs s ns) \<inter> keep = {}"
    using q by (auto simp: queue_off_def)
  have lt: "x < brk s" if "x \<in> live s" for x
    using r that by (auto simp: ready_def heap_inv_def simp del: readyD)
  have "a < brk s" if "a \<in> set ns" for a using n(1) that lt by (auto simp: nodes_rep_def)
  then have runs: "node_runs ?t (ns @ [Suc (brk s)]) = node_runs s ns @ [brk s]"
    by (force simp: node_runs_def later_upd_def Let_def)
  have "brk s \<notin> keep" "Suc (brk s) \<notin> keep" using k lt [of "brk s"] lt [of "Suc (brk s)"] by auto
  then have "set ((ns @ [Suc (brk s)]) @ node_runs ?t (ns @ [Suc (brk s)])) \<inter> keep = {}"
    unfolding runs using n(2) by auto
  moreover have "run_once_queue ?t = (if ?p = 0 then Suc (brk s) else ?p)" by (simp add: later_upd_def Let_def)
  ultimately show "queue_off keep ?t (run_once_queue ?t) (js @ [the_job cb c])"
    unfolding queue_off_def using later_upd_rep [OF r n(1) refl, of uv cb c]
    by (intro conjI exI [of _ "ns @ [Suc (brk s)]"]) simp_all
  show "\<exists>x. runloop_run_later uv cb c s = (Inr x, ?t)" "ready ?t"
    using run_later_queue [OF r queue_off_rep [OF q], of uv cb c] by auto
qed

lemma schedule_sections_rep:
  fixes s :: "'w app_state"
  assumes "config_loaded s" "queue_off keep s (run_once_queue s) js" "keep \<subseteq> live s"
    and "i + int k \<le> int (length (section_names s))" "0 \<le> i"
  shows "\<exists>t cs. schedule_sections env i k s = (Inr (), t) \<and> config_loaded t \<and>
    queue_off (keep \<union> set cs) t (run_once_queue t) (js @ start_jobs cs) \<and> distinct cs \<and> set cs \<inter> live s = {} \<and> (\<forall>c \<in> live s. c \<in> live t \<and> strs t c = strs s c) \<and>
    set cs \<subseteq> live t \<and> map (strs t) cs = take k (drop (nat i) (section_names s))"
  using assms
proof (induction k arbitrary: i s js keep)
  case 0
  then show ?case
    by (intro exI [of _ s] exI [of _ "[]"]) (simp add: ret_def start_jobs_def)
next
  case (Suc k)
  let ?names = "section_names s"
  let ?n = "?names ! nat i" and ?c = "brk s"
  let ?s = "s\<lparr>brk := Suc ?c, live := insert ?c (live s), strs := (strs s)(?c := ?n)\<rparr>"
  note r = config_loadedD(1) [OF Suc.prems(1)]
  have i: "nat i < length ?names" "nat (i + 1) = Suc (nat i)" using Suc.prems(4,5) by linarith+
  have rs: "ready ?s" using r by (auto simp: ready_def heap_inv_def mem_ok_def simp del: readyD)
  have fresh: "?c \<notin> live s" by (rule heap_inv_fresh [OF readyD(5) [OF r]])
  have qs: "queue_off (insert ?c keep) ?s (run_once_queue ?s) js" "insert ?c keep \<subseteq> live ?s"
    using queue_off_strdup [OF Suc.prems(2) fresh] Suc.prems(3) by auto
  obtain x t where t: "runloop_run_later (e_uv env) Start_module_handler ?c ?s = (Inr x, t)"
      "t = later_upd (e_uv env) Start_module_handler ?c ?s" "ready t"
      "queue_off (insert ?c keep) t (run_once_queue t) (js @ [the_job Start_module_handler ?c])"
    using run_later_off [OF rs qs, of "e_uv env" Start_module_handler ?c] by blast
  have kt: "insert ?c keep \<subseteq> live t" using t(2) qs(2) by auto
  have cl: "config_loaded t" using Suc.prems(1) t(2,3) by (simp add: config_loaded_def)
  have names: "section_names t = ?names" using t(2) by simp
  have st: "schedule_sections env i (Suc k) s = schedule_sections env (i + 1) k t"
    using section_name_eq [OF Suc.prems(1,5)] i r t(1) by simp
  have "i + 1 + int k \<le> int (length (section_names t))" "0 \<le> i + 1"
    using Suc.prems(4,5) unfolding names by simp_all
  from Suc.IH [OF cl t(4) kt this] obtain u cs where
    u: "schedule_sections env (i + 1) k t = (Inr (), u)" "config_loaded u"
      "queue_off (insert ?c keep \<union> set cs) u (run_once_queue u) ((js @ [the_job Start_module_handler ?c]) @ start_jobs cs)"
      "\<forall>c \<in> live t. c \<in> live u \<and> strs u c = strs t c" "set cs \<subseteq> live u"
      "map (strs u) cs = take k (drop (Suc (nat i)) ?names)" "distinct cs" "set cs \<inter> live t = {}"
    unfolding i(2) names by blast
  have c: "?c \<in> live t" "strs t ?c = ?n" using t(2) by simp_all
  have keep: "c \<in> live u \<and> strs u c = strs s c" if "c \<in> live s" for c
  proof -
    have "c \<noteq> ?c" using that fresh by blast
    then have "c \<in> live t \<and> strs t c = strs s c" using t(2) that by simp
    then show ?thesis using u(4) by auto
  qed
  have "map (strs u) (?c # cs) = take (Suc k) (drop (nat i) ?names)"
    using u(4,6) c i(1) by (simp add: take_Suc_conv_app_nth Cons_nth_drop_Suc [symmetric])
  moreover have "queue_off (keep \<union> set (?c # cs)) u (run_once_queue u) (js @ start_jobs (?c # cs))"
    using u(3) by (simp add: start_jobs_def)
  moreover have "distinct (?c # cs)" "set (?c # cs) \<inter> live s = {}"
    using u(7,8) c(1) fresh t(2) by auto
  moreover have "set (?c # cs) \<subseteq> live u" using u(4,5) c by auto
  ultimately show ?case using st u(1,2) keep by (intro exI [of _ u] exI [of _ "?c # cs"]) simp
qed

text \<open>C18. The main program schedules the start of every section, in the order of the
  configuration: counting and scheduling return, and the queue of the run loop then holds one
  start job for each key of the root table, in order, whose context is an allocated copy of
  that key.\<close>

theorem sections_are_scheduled:
  fixes s :: "'w app_state"
  assumes "config_loaded s" "run_once_queue s = 0" "length (section_names s) < fuel"
  shows "\<exists>t cs. bindE (configfile_get_section_count fuel) (\<lambda>n. schedule_sections env 0 (nat n)) s = (Inr (), t) \<and>
    queue_rep t (run_once_queue t) (start_jobs cs) \<and> set cs \<subseteq> live t \<and> map (strs t) cs = section_names s"
proof -
  have "configfile_get_section_count fuel s = (Inr (int (length (section_names s))), s)"
    using count_sections_eq [OF assms(1), of 0 fuel] assms(1,3) by (simp add: configfile_get_section_count_def)
  moreover have off: "queue_off {} s (run_once_queue s) []"
    using queue_rep_empty [OF assms(2)] assms(2) by simp
  obtain t cs where "schedule_sections env 0 (length (section_names s)) s = (Inr (), t)"
      "queue_off (set cs) t (run_once_queue t) (start_jobs cs)" "set cs \<subseteq> live t" "map (strs t) cs = section_names s"
    using schedule_sections_rep [OF assms(1) off empty_subsetI, of 0 "length (section_names s)" env] by auto
  ultimately show ?thesis using queue_off_rep by (intro exI [of _ t] exI [of _ cs]) simp
qed

theorem sections_are_scheduled_witness:
  "\<exists>t cs. bindE (configfile_get_section_count 9) (\<lambda>n. schedule_sections idle_env 0 (nat n)) sample_unknown = (Inr (), t) \<and>
    queue_rep t (run_once_queue t) (start_jobs cs) \<and> set cs \<subseteq> live t \<and> map (strs t) cs = [''v'', ''a'', ''sec'']"
proof -
  have r: "ready sample_unknown"
    by (simp add: sample_unknown_defs ready_def mem_ok_def heap_inv_def del: readyD)
  then have c: "config_loaded sample_unknown"
    by (simp add: config_loaded_def) (simp add: table_ok_def sample_unknown_defs)
  have k: "section_names sample_unknown = [''v'', ''a'', ''sec'']" "run_once_queue sample_unknown = 0"
    by (simp_all add: table_keys_def sample_unknown_defs)
  have "length (section_names sample_unknown) < 9" by (simp add: k(1))
  from sections_are_scheduled [OF c k(2) this, of idle_env] show ?thesis unfolding k(1) .
qed

end
