(* ===== verification/Start_Port.thy ===== *)
theory Start_Port
  imports Shutdown Startup Config_Load
begin

text \<open>
  What a start leaves in memory. A relation \<open>grown\<close> between two states says that everything that
  was in memory is still there and unchanged; the calls of \<^verbatim>\<open>src/drivers/vserial.c\<close>,
  \<^verbatim>\<open>src/runloop.c\<close> and \<^verbatim>\<open>src/configfile.c\<close> that a start makes either keep it or end the program
  with the fatal status. The rules \<open>start_rules\<close> say so for one call each, and
  \<open>wp_vserial_init\<close> for the whole initialisation of a port.
\<close>

section \<open>A program that keeps what it has\<close>

text \<open>The blocks that no lookup of the configuration will free.\<close>

definition kept :: "('w, 'cb, 'z) config_state_scheme \<Rightarrow> nat set" where
  "kept s = live s - {config_buf s}"

text \<open>What holds of the state between two steps of a start: memory is sufficient, the pointer
  that outlives its block is an old one, and the tail of the queue is there.\<close>

definition steady :: "('w, 'cb, 'z) config_state_scheme \<Rightarrow> bool" where
  "steady s \<longleftrightarrow> ready s \<and> config_buf s < brk s \<and>
     (run_once_queue s \<noteq> 0 \<longrightarrow> run_once_last s \<in> kept s)"

text \<open>The queue of the run loop has at most been appended to.\<close>

definition same_queue :: "('w, 'cb, 'z) runloop_state_scheme \<Rightarrow> ('w, 'cb, 'z) runloop_state_scheme \<Rightarrow> bool" where
  "same_queue s t \<longleftrightarrow> brk s \<le> brk t \<and> (run_once_last t = run_once_last s \<or> brk s \<le> run_once_last t) \<and>
     (\<forall>a < brk s. ro_jobs t a = ro_jobs s a \<and> rl_run (ro_list t a) = rl_run (ro_list s a) \<and>
        (a = run_once_last s \<or> rl_next (ro_list t a) = rl_next (ro_list s a)))"

lemma same_queue_refl [simp]: "same_queue s s"
  by (simp add: same_queue_def)

lemma same_queue_trans:
  assumes "same_queue s t" "same_queue t u"
  shows "same_queue s u"
proof -
  have "brk s \<le> brk u" "run_once_last u = run_once_last s \<or> brk s \<le> run_once_last u"
    using assms by (auto simp: same_queue_def)
  moreover have "ro_jobs u a = ro_jobs s a \<and> rl_run (ro_list u a) = rl_run (ro_list s a) \<and>
      (a = run_once_last s \<or> rl_next (ro_list u a) = rl_next (ro_list s a))" if "a < brk s" for a
  proof -
    have "a < brk t" "a = run_once_last t \<Longrightarrow> a = run_once_last s"
      using that assms(1) by (auto simp: same_queue_def)
    moreover have "ro_jobs t a = ro_jobs s a \<and> rl_run (ro_list t a) = rl_run (ro_list s a) \<and>
        (a = run_once_last s \<or> rl_next (ro_list t a) = rl_next (ro_list s a))"
      using that assms(1) by (simp add: same_queue_def)
    moreover have "a < brk t \<Longrightarrow> ro_jobs u a = ro_jobs t a \<and> rl_run (ro_list u a) = rl_run (ro_list t a) \<and>
        (a = run_once_last t \<or> rl_next (ro_list u a) = rl_next (ro_list t a))"
      using assms(2) by (simp add: same_queue_def)
    ultimately show ?thesis by auto
  qed
  ultimately show ?thesis by (simp add: same_queue_def)
qed

text \<open>What it depends on.\<close>

lemma same_queue_upd [simp]:
  fixes s t :: "('w, 'z) test_state_scheme"
  shows "same_queue s (log_upd src l f p n m t) = same_queue s t" "same_queue s (t\<lparr>world := w\<rparr>) = same_queue s t"
    "same_queue s (t\<lparr>message_text := x, console := y\<rparr>) = same_queue s t"
    "same_queue s (t\<lparr>strs := x1\<rparr>) = same_queue s t" "same_queue s (t\<lparr>drivers := x2\<rparr>) = same_queue s t"
    "same_queue s (t\<lparr>driver_cbs := x3\<rparr>) = same_queue s t" "same_queue s (t\<lparr>tcontexts := x4\<rparr>) = same_queue s t"
    "same_queue s (t\<lparr>vcontexts := x5\<rparr>) = same_queue s t" "same_queue s (t\<lparr>vserials := x6\<rparr>) = same_queue s t"
    "same_queue s (t\<lparr>polls := x7\<rparr>) = same_queue s t" "same_queue s (t\<lparr>poll_privs := x8\<rparr>) = same_queue s t"
    "same_queue s (t\<lparr>modules := x9\<rparr>) = same_queue s t" "same_queue s (t\<lparr>live := x10\<rparr>) = same_queue s t"
    "same_queue (s\<lparr>world := w\<rparr>) t = same_queue s t" "same_queue (s\<lparr>drivers := x2\<rparr>) t = same_queue s t"
    "same_queue (log_upd src l f p n m s) t = same_queue s t"
    "same_queue (s\<lparr>message_text := x, console := y\<rparr>) t = same_queue s t" "same_queue s (t\<lparr>config_buf := x11\<rparr>) = same_queue s t"
    "brk s \<le> brk t \<Longrightarrow> same_queue s (t\<lparr>brk := Suc (brk t)\<rparr>) = same_queue s t"
  by (simp_all add: same_queue_def)

text \<open>What has been in memory at \<open>s\<close> is still there at \<open>t\<close>, and unchanged.\<close>

definition grown :: "('w, 'z) test_state_scheme \<Rightarrow> ('w, 'z) test_state_scheme \<Rightarrow> bool" where
  "grown s t \<longleftrightarrow> steady t \<and> brk s \<le> brk t \<and> kept s \<subseteq> kept t \<and>
     (config_buf t = config_buf s \<or> brk s \<le> config_buf t) \<and>
     toml_store t = toml_store s \<and> toml_root t = toml_root s \<and>
     loaded_drivers t = loaded_drivers s \<and> driver_nodes t = driver_nodes s \<and>
     loaded_modules t = loaded_modules s \<and> loaded_nodes t = loaded_nodes s \<and>
     running_modules t = running_modules s \<and> running_nodes t = running_nodes s \<and>
     thread_loop t = thread_loop s \<and> int_signal t = int_signal s \<and> run_once_prepare t = run_once_prepare s \<and>
     modules t = modules s \<and> same_queue s t \<and>
     (\<forall>a < brk s. strs t a = strs s a \<and> drivers t a = drivers s a \<and> driver_cbs t a = driver_cbs s a \<and>
        tcontexts t a = tcontexts s a \<and> vcontexts t a = vcontexts s a \<and> vserials t a = vserials s a \<and>
        polls t a = polls s a \<and> poll_privs t a = poll_privs s a)"

text \<open>The steps between two lookups leave the buffer of the last one alone.\<close>

definition same_buf :: "('w, 'z) test_state_scheme \<Rightarrow> ('w, 'z) test_state_scheme \<Rightarrow> bool" where
  "same_buf s t \<longleftrightarrow> config_buf t = config_buf s \<and> live s \<subseteq> live t"

lemma keptD:
  assumes "ready s" "a \<in> kept s"
  shows "a \<in> live s" "a \<noteq> 0" "0 < a" "a < brk s" "a \<noteq> config_buf s"
  using assms by (auto simp: kept_def ready_def heap_inv_def simp del: readyD intro: gr0I)

lemma steadyD:
  assumes "steady s"
  shows "ready s" "message_buf s \<noteq> 0" "config_buf s < brk s" "brk s \<notin> live s" "alloc_ok s n" "brk s \<noteq> 0"
    "run_once_queue s \<noteq> 0 \<Longrightarrow> run_once_last s \<in> kept s"
  using assms heap_inv_fresh [OF readyD(5), of s] by (auto simp: steady_def)

lemma grown_refl: "steady s \<Longrightarrow> grown s s"
  by (simp add: grown_def)

lemma grown_queue: "grown s t \<Longrightarrow> same_queue s t"
  by (simp add: grown_def)

lemma grown_trans:
  assumes "grown s t" "grown t u"
  shows "grown s u"
  using same_queue_trans [OF assms [THEN grown_queue]] assms unfolding grown_def by auto

lemma grownD:
  assumes "grown s t"
  shows "steady t" "ready t" "message_buf t \<noteq> 0" "brk s \<le> brk t" "kept s \<subseteq> kept t"
    "toml_store t = toml_store s" "toml_root t = toml_root s"
    "loaded_drivers t = loaded_drivers s" "driver_nodes t = driver_nodes s"
    "running_modules t = running_modules s" "running_nodes t = running_nodes s"
    "thread_loop t = thread_loop s" "int_signal t = int_signal s" "run_once_prepare t = run_once_prepare s"
    "modules t = modules s" "loaded_modules t = loaded_modules s" "loaded_nodes t = loaded_nodes s"
  using assms by (simp_all add: grown_def steady_def)

lemma grown_heap:
  assumes "grown s t" "a < brk s"
  shows "strs t a = strs s a" "drivers t a = drivers s a" "driver_cbs t a = driver_cbs s a"
    "tcontexts t a = tcontexts s a" "vcontexts t a = vcontexts s a" "vserials t a = vserials s a"
    "polls t a = polls s a" "poll_privs t a = poll_privs s a"
  using assms by (simp_all add: grown_def)

lemma grown_loaded: "grown s t \<Longrightarrow> config_loaded s \<Longrightarrow> config_loaded t"
  by (simp add: config_loaded_def grownD)

lemma grown_lookup: "grown s t \<Longrightarrow> config_lookup t = config_lookup s"
  by (simp add: fun_eq_iff config_lookup_def section_table_def grownD)

subsection \<open>Steps that keep it\<close>

lemma steady_frame: "frame_log s t \<Longrightarrow> steady t = steady s"
  for s t :: "('w, 'z) test_state_scheme"
  by (simp add: steady_def kept_def frame_logD frame_log_later)

lemma grown_frame:
  fixes s t u :: "('w, 'z) test_state_scheme"
  assumes "grown s t" "frame_log t u"
  shows "grown s u"
proof -
  obtain c m where u: "u = t\<lparr>message_text := m, console := c\<rparr>" by (rule frame_log_obtain [OF assms(2)])
  have "steady u" using assms steady_frame grownD(1) by blast
  with assms(1) show ?thesis unfolding grown_def u by (simp add: kept_def)
qed

lemma log_upd_later [simp]:
  fixes s :: "('w, 'z) test_state_scheme"
  shows "tcontexts (log_upd src l f p n m s) = tcontexts s" "vcontexts (log_upd src l f p n m s) = vcontexts s"
    "vserials (log_upd src l f p n m s) = vserials s"
  by (simp_all add: log_upd_def)

lemma steady_log [simp]: "steady (log_upd src l f p n m s) = steady s" for s :: "('w, 'z) test_state_scheme"
  by (simp add: steady_def kept_def frame_logD(10) [OF frame_log_log])

lemma grown_log [simp]: "grown s (log_upd src l f p n m t) = grown s t"
  by (simp add: grown_def kept_def)

lemma grown_world [simp]: "grown s (t\<lparr>world := w\<rparr>) = grown s t"
  by (simp add: grown_def steady_def kept_def)

definition fresh_block :: "('w, 'z) test_state_scheme \<Rightarrow> ('w, 'z) test_state_scheme" where
  "fresh_block s = s\<lparr>brk := Suc (brk s), live := insert (brk s) (live s)\<rparr>"

lemma grown_alloc:
  assumes "grown s t"
  shows "grown s (fresh_block t)" "brk t \<in> kept (fresh_block t)" "brk (fresh_block t) = Suc (brk t)"
    "kept t \<subseteq> kept (fresh_block t)"
proof -
  have "ready (fresh_block t)"
    using grownD(2) [OF assms] unfolding fresh_block_def
    by (auto simp: ready_def heap_inv_def mem_ok_def simp del: readyD)
  with assms show "grown s (fresh_block t)" 
    unfolding grown_def steady_def by (auto simp: fresh_block_def kept_def)
  show "brk t \<in> kept (fresh_block t)" "brk (fresh_block t) = Suc (brk t)" "kept t \<subseteq> kept (fresh_block t)"
    using steadyD(3) [OF grownD(1) [OF assms]] by (auto simp: fresh_block_def kept_def)
qed

text \<open>Writing to a structure that is newer than the start.\<close>

lemma grown_upd:
  assumes "grown s t"
  shows "(\<And>x. x < brk s \<Longrightarrow> a x = strs t x) \<Longrightarrow> grown s (t\<lparr>strs := a\<rparr>)"
    "(\<And>x. x < brk s \<Longrightarrow> b x = drivers t x) \<Longrightarrow> grown s (t\<lparr>drivers := b\<rparr>)"
    "(\<And>x. x < brk s \<Longrightarrow> c x = driver_cbs t x) \<Longrightarrow> grown s (t\<lparr>driver_cbs := c\<rparr>)"
    "(\<And>x. x < brk s \<Longrightarrow> d x = tcontexts t x) \<Longrightarrow> grown s (t\<lparr>tcontexts := d\<rparr>)"
    "(\<And>x. x < brk s \<Longrightarrow> e x = vcontexts t x) \<Longrightarrow> grown s (t\<lparr>vcontexts := e\<rparr>)"
    "(\<And>x. x < brk s \<Longrightarrow> f x = vserials t x) \<Longrightarrow> grown s (t\<lparr>vserials := f\<rparr>)"
    "(\<And>x. x < brk s \<Longrightarrow> g x = polls t x) \<Longrightarrow> grown s (t\<lparr>polls := g\<rparr>)"
    "(\<And>x. x < brk s \<Longrightarrow> h x = poll_privs t x) \<Longrightarrow> grown s (t\<lparr>poll_privs := h\<rparr>)"
  using assms grownD(2) [OF assms(1)] unfolding grown_def steady_def
  by (simp_all add: kept_def ready_def mem_ok_def heap_inv_def del: readyD)

lemma kept_simps [simp]:
  fixes t :: "('w, 'z) test_state_scheme"
  shows "kept (log_upd src l f p n m t) = kept t" "kept (t\<lparr>world := w\<rparr>) = kept t"
    "kept (t\<lparr>strs := x1\<rparr>) = kept t" "kept (t\<lparr>drivers := x2\<rparr>) = kept t" "kept (t\<lparr>driver_cbs := x3\<rparr>) = kept t"
    "kept (t\<lparr>tcontexts := x4\<rparr>) = kept t" "kept (t\<lparr>vcontexts := x5\<rparr>) = kept t" "kept (t\<lparr>vserials := x6\<rparr>) = kept t"
    "kept (t\<lparr>polls := x7\<rparr>) = kept t" "kept (t\<lparr>poll_privs := x8\<rparr>) = kept t" "kept (t\<lparr>modules := x9\<rparr>) = kept t"
  by (simp_all add: kept_def)

section \<open>The ways of a call\<close>

text \<open>A part of the start that gives up ends the program with the fatal status, and it does not give
  up when \<open>ok\<close> holds: the outside is willing and the configuration is complete.\<close>

definition fatally :: "bool \<Rightarrow> halt \<Rightarrow> 's \<Rightarrow> bool" where
  "fatally ok h t \<longleftrightarrow> \<not> ok \<and> h = Exited exit_fatal"

named_theorems start_rules \<open>rules for the calls of the start, one for each primitive\<close>

lemma wp_return [start_rules]: "Q x s \<Longrightarrow> wp (ret x) Q E s"
  by (simp add: wp_simps)

lemma wp_value [start_rules]: "Q (g s) s \<Longrightarrow> wp (gets g) Q E s"
  by (simp add: wp_simps)

lemma wp_change [start_rules]: "Q () (h s) \<Longrightarrow> wp (modify h) Q E s"
  by (simp add: wp_simps)

lemma wp_bind [start_rules]: "wp m (\<lambda>x. wp (f x) Q E) E s \<Longrightarrow> wp (bindE m f) Q E s"
  by (simp add: wp_simps)

lemma wp_then [start_rules]: "wp m (\<lambda>_. wp n Q E) E s \<Longrightarrow> wp (seqE m n) Q E s"
  by (simp add: wp_simps)

lemma wp_pair [start_rules]: "wp (k (fst p) (snd p)) Q E s \<Longrightarrow> wp (case p of (a, b) \<Rightarrow> k a b) Q E s"
  by (simp add: case_prod_beta)

lemma wp_branch [start_rules]:
  "(c \<Longrightarrow> wp m Q E s) \<Longrightarrow> (\<not> c \<Longrightarrow> wp n Q E s) \<Longrightarrow> wp (if c then m else n) Q E s"
  by simp

lemma wp_option [start_rules]:
  "(v = None \<Longrightarrow> wp m Q E s) \<Longrightarrow> (\<And>x. v = Some x \<Longrightarrow> wp (f x) Q E s) \<Longrightarrow> wp (case v of None \<Rightarrow> m | Some x \<Rightarrow> f x) Q E s"
  by (simp split: option.split)

lemma wp_only_if [start_rules]:
  "(c \<Longrightarrow> wp m Q E s) \<Longrightarrow> (\<not> c \<Longrightarrow> Q () s) \<Longrightarrow> wp (whenE c m) Q E s"
  by (simp add: wp_simps)

lemma wp_log [start_rules]:
  assumes "message_buf s \<noteq> 0"
  shows "Q () (log_msg log_level_info m s) \<Longrightarrow> wp (log_info m) Q E s"
    "Q () (log_msg log_level_debug m s) \<Longrightarrow> wp (log_debug m) Q E s"
    "Q () (log_msg log_level_verbose m s) \<Longrightarrow> wp (log_verbose m) Q E s"
  using assms by (simp_all add: wp_def)

lemma wp_give_up [start_rules]:
  "message_buf s \<noteq> 0 \<Longrightarrow> (ok \<Longrightarrow> False) \<Longrightarrow> wp (util_fatal m) Q (fatally ok) s"
  by (auto simp: wp_def fatally_def)

lemma wp_outside [start_rules]:
  assumes "Q (fst (f (world s))) (s\<lparr>world := snd (f (world s))\<rparr>)"
  shows "wp (syscall f) Q E s"
  using assms by (simp add: wp_def syscall_def case_prod_beta)

lemma wp_look [start_rules]: "Q (f (world s)) s \<Longrightarrow> wp (sysread f) Q E s"
  by (simp add: wp_sysread)

lemma wp_block [start_rules]:
  assumes "ready s" "Q (brk s) (fresh_block s)"
  shows "wp (zalloc sizeof) Q E s" 
  using assms by (simp add: wp_def fresh_block_def)

lemma wp_there [start_rules]: "p \<noteq> 0 \<Longrightarrow> p \<in> live s \<Longrightarrow> Q () s \<Longrightarrow> wp (deref p) Q E s"
  by (simp add: wp_def deref_def)

section \<open>The port\<close>

text \<open>The calls of the operating system that a port makes succeed, and nothing is in the way of the
  symbolic link.\<close>

definition willing_os :: "'w posix \<Rightarrow> bool" where
  "willing_os os \<longleftrightarrow> (\<forall>w.
     fst (fst (os_openpty os w)) = 0 \<and> length (snd (snd (snd (fst (os_openpty os w))))) < PATH_MAX \<and>
     (\<forall>fd. 0 \<le> os_fcntl_getfl os fd w \<and> fst (os_tcgetattr os fd w) = 0 \<and> fst (os_ioctl_tiocmget os fd w) \<noteq> -1) \<and>
     (\<forall>fd f. 0 \<le> fst (os_fcntl_setfl os fd f w)) \<and> (\<forall>fd v. fst (os_ioctl_tiocpkt os fd v w) \<noteq> -1) \<and>
     (\<forall>fd i. fst (os_tcsetattr os fd i w) = 0) \<and>
     (\<forall>p. fst (os_lstat os p w) \<noteq> 0 \<and> fst (snd (os_lstat os p w)) = ENOENT) \<and>
     (\<forall>q p. fst (os_symlink os q p w) = 0))"

lemma willing_osD:
  assumes "willing_os os"
  shows "fst (fst (os_openpty os w)) = 0" "\<not> PATH_MAX \<le> length (snd (snd (snd (fst (os_openpty os w)))))"
    "\<not> os_fcntl_getfl os fd w < 0" "fst (os_tcgetattr os fd w) = 0" "fst (os_ioctl_tiocmget os fd w) \<noteq> -1"
    "\<not> fst (os_fcntl_setfl os fd f w) < 0" "fst (os_ioctl_tiocpkt os fd v w) \<noteq> -1" "fst (os_tcsetattr os fd i w) = 0"
    "fst (os_lstat os p w) \<noteq> 0" "fst (snd (os_lstat os p w)) = ENOENT" "fst (os_symlink os q p w) = 0"
  using assms by (simp_all add: willing_os_def not_less not_le)

lemma wp_set_nonblock [start_rules]:
  assumes "message_buf s \<noteq> 0" "ok \<Longrightarrow> willing_os os" "\<And>w. Q () (s\<lparr>world := w\<rparr>)"
  shows "wp (util_set_nonblock os fd) Q (fatally ok) s"
  unfolding util_set_nonblock_def by (intro start_rules) (simp_all add: assms willing_osD)

text \<open>A call that leaves the memory alone: it may write to the log and change the outside.\<close>

definition elsewhere :: "('w, 'z) test_state_scheme \<Rightarrow> ('w, 'z) test_state_scheme \<Rightarrow> bool" where
  "elsewhere s t \<longleftrightarrow> (\<exists>w. frame_log (s\<lparr>world := w\<rparr>) t)"

lemma elsewhere_refl: "elsewhere s s"
  unfolding elsewhere_def by (rule exI [of _ "world s"]) (simp add: frame_log_refl)

lemma elsewhere_log: "elsewhere s t \<Longrightarrow> elsewhere s (log_upd src l f p n m t)"
  unfolding elsewhere_def using frame_log_trans frame_log_log by blast

lemma elsewhere_world: "elsewhere s t \<Longrightarrow> elsewhere s (t\<lparr>world := w\<rparr>)"
  unfolding elsewhere_def using frame_log_world [of "s\<lparr>world := _\<rparr>" t w] by auto

lemma elsewhereD:
  fixes s t :: "('w, 'z) test_state_scheme"
  assumes "elsewhere s t"
  shows "brk t = brk s" "live t = live s" "config_buf t = config_buf s" "kept t = kept s"
    "strs t = strs s" "message_buf t = message_buf s" "vserials t = vserials s"
proof -
  obtain w where f: "frame_log (s\<lparr>world := w\<rparr>) t" using assms by (auto simp: elsewhere_def)
  show "brk t = brk s" "live t = live s" "config_buf t = config_buf s" "kept t = kept s"
    "strs t = strs s" "message_buf t = message_buf s" "vserials t = vserials s"
    using frame_logD [OF f] frame_log_later(6) [OF f] by (simp_all add: kept_def)
qed

lemma grown_elsewhere: "grown b s \<Longrightarrow> elsewhere s t \<Longrightarrow> grown b t"
  unfolding elsewhere_def by (metis grown_frame grown_world)

lemma wp_link_target:
  assumes "readlink_contract os" "\<And>x. Q x s"
  shows "wp (util_get_link_target os path) Q E s"
  using util_get_link_target_safe [OF assms(1), of path s] assms(2) by (auto simp: wp_def)

lemma wp_manage_symlink:
  assumes "readlink_contract os" "message_buf s \<noteq> 0" "ok \<Longrightarrow> willing_os os" "\<And>t. elsewhere s t \<Longrightarrow> Q () t"
  shows "wp (vserial_manage_symlink os target p) Q (fatally ok) s"
  unfolding vserial_manage_symlink_def
  by (intro start_rules wp_link_target [OF assms(1)] assms(4)) (simp_all add: assms(2,3) willing_osD elsewhere_refl elsewhere_log elsewhere_world)

lemma fresh_block_simps [simp]:
  fixes s :: "('w, 'z) test_state_scheme"
  shows "message_buf (fresh_block s) = message_buf s" "brk (fresh_block s) = Suc (brk s)"
    "config_buf (fresh_block s) = config_buf s" "live (fresh_block s) = insert (brk s) (live s)"
    "world (fresh_block s) = world s" "toml_store (fresh_block s) = toml_store s" "toml_root (fresh_block s) = toml_root s"
    "run_once_prepare (fresh_block s) = run_once_prepare s"
    "running_modules (fresh_block s) = running_modules s" "running_nodes (fresh_block s) = running_nodes s"
    "strs (fresh_block s) = strs s" "drivers (fresh_block s) = drivers s" "driver_cbs (fresh_block s) = driver_cbs s" "tcontexts (fresh_block s) = tcontexts s" "vcontexts (fresh_block s) = vcontexts s" "vserials (fresh_block s) = vserials s" "polls (fresh_block s) = polls s" "poll_privs (fresh_block s) = poll_privs s" "modules (fresh_block s) = modules s"
  by (simp_all add: fresh_block_def)

lemma wp_copy:
  assumes "steady s" "\<And>t. grown s t \<Longrightarrow> brk s \<in> kept t \<Longrightarrow> same_buf s t \<Longrightarrow> Q (brk s) t"
  shows "wp (util_strndup x n) Q E s"
proof -
  let ?s = "fresh_block s" and ?t = "fresh_block s\<lparr>strs := (strs (fresh_block s))(brk s := take n x)\<rparr>"
  note g = grown_alloc [OF grown_refl [OF assms(1)]]
  have "Q (brk s) ?t"
    using g by (intro assms(2) grown_upd) (auto simp: same_buf_def)
  then show ?thesis
    using steadyD [OF assms(1)]
    by (simp add: wp_def util_strndup_def c_alloc_def fresh_block_def modify_def ret_def bindE_def seqE_def)
qed

lemma grown_world_before [simp]: "grown (s\<lparr>world := w\<rparr>) t = grown s t"
  by (simp add: grown_def kept_def)

lemma same_buf_world_before [simp]: "same_buf (s\<lparr>world := w\<rparr>) t = same_buf s t"
  by (simp add: same_buf_def)

lemma steady_simps [simp]:
  fixes s :: "('w, 'z) test_state_scheme"
  shows "steady (s\<lparr>world := w\<rparr>) = steady s" "steady s \<Longrightarrow> steady (fresh_block s)"
proof -
  show "steady (fresh_block s)" if "steady s"
    using grown_alloc(1) [OF grown_refl [OF that]] by (rule grownD(1))
qed (simp_all add: steady_def kept_def frame_logD(10) [OF frame_log_log])

lemma grown_new:
  assumes "steady s" "grown (fresh_block s) t"
  shows "grown s t" "brk s \<in> kept t"
  using grown_alloc [OF grown_refl [OF assms(1)]] grown_trans [OF _ assms(2)] grownD(5) [OF assms(2)] by blast+

lemma wp_vserial_create:
  assumes "readlink_contract os" "steady s" and ok: "ok \<Longrightarrow> willing_os os" "ok \<Longrightarrow> \<not> PATH_MAX \<le> length name"
    and Q: "\<And>t. grown s t \<Longrightarrow> brk s \<in> kept t \<Longrightarrow> same_buf s t \<Longrightarrow> Q (brk s) t"
  shows "wp (vserial_create os (Some name)) Q (fatally ok) s"
proof -
  have late: "grown s u \<and> brk s \<in> kept u \<and> same_buf s u"
    if "grown (fresh_block s) t" "same_buf (fresh_block s) t" "grown t t'" "same_buf t t'"
      "elsewhere (t'\<lparr>vserials := (vserials t')(brk s := v)\<rparr>) u" for t t' u v
  proof -
    have "grown (fresh_block s) t'" by (rule grown_trans [OF that(1,3)])
    then have "grown s t'" "brk s \<in> kept t'" using grown_new [OF assms(2)] by blast+
    then show ?thesis
      using that(2,4) elsewhereD [OF that(5)] grown_elsewhere [OF grown_upd(6) that(5)]
      by (auto simp: same_buf_def)
  qed
  show ?thesis
    unfolding vserial_create_def upd_vserial_def option.case
    apply (intro start_rules wp_manage_symlink [OF assms(1)] wp_copy Q)
                     apply (simp_all add: steadyD [OF assms(2)] assms(2) grownD ok willing_osD)
      apply (frule (4) late, simp)+
    done
qed

lemma wp_poll_create:
  assumes "steady s" "uv_contract uv"
    and Q: "\<And>t. grown s t \<Longrightarrow> brk s \<in> kept t \<Longrightarrow> Suc (brk s) \<in> kept t \<Longrightarrow>
      polls t (brk s) = \<lparr>rp_cb = cb, rp_context = 0, rp_private = Suc (brk s)\<rparr> \<Longrightarrow>
      poll_privs t (Suc (brk s)) = \<lparr>pp_data = brk s, pp_fd = fd\<rparr> \<Longrightarrow>
      uv_idle uv (Suc (brk s)) (world t) \<Longrightarrow> same_buf s t \<Longrightarrow> Q (brk s) t"
  shows "wp (runloop_poll_create uv fd cb) Q (fatally ok) s"
proof -
  let ?l = "log_msg log_level_info ''creating a poll dohicky'' s"
  let ?s = "fresh_block (fresh_block ?l)"
  have g: "grown s ?l" "grown s (fresh_block ?l)" "grown s ?s"
    using assms(1) by (simp_all add: grown_alloc(1) grown_refl)
  have k: "brk s \<in> kept ?s" "Suc (brk s) \<in> kept ?s"
    using grown_alloc(2,4) [OF g(1)] grown_alloc(2,4) [OF g(2)] by auto
  show ?thesis
    unfolding runloop_poll_create_def uv_do_def
    apply (intro start_rules)
    using g k assms(1) uv_contract_facts(2) [OF assms(2)] apply (simp_all add: steadyD)
    apply (rule Q)
          apply (auto simp: grown_upd same_buf_def)
    done
qed

lemma grown_new_buf:
  fixes s :: "('w, 'z) test_state_scheme"
  assumes "steady s"
  shows "grown s (new_buf v s)"
  using assms ready_new_buf [of s v] steadyD(4) [OF assms] unfolding grown_def steady_def
  by (auto simp: new_buf_def kept_def)

text \<open>The string that a lookup finds.\<close>

definition string_of :: "('w, 'cb, 'z) config_state_scheme \<Rightarrow> string \<Rightarrow> string \<Rightarrow> string option" where
  "string_of s sec key = (case config_lookup s sec key of
     Some (Some raw) \<Rightarrow> (case toml_rtos raw of Some (Norm_ok v) \<Rightarrow> Some v | _ \<Rightarrow> None)
   | _ \<Rightarrow> None)"

lemma string_of_cases:
  "(string_of s sec key = None \<and>
     (case config_lookup s sec key of Some (Some raw) \<Rightarrow> toml_rtos raw = None | _ \<Rightarrow> True)) \<or>
   (\<exists>raw v. string_of s sec key = Some v \<and> config_lookup s sec key = Some (Some raw) \<and> toml_rtos raw = Some (Norm_ok v))"
  using toml_rtos_ok by (force simp: string_of_def split: option.splits)

lemma grown_string: "grown s t \<Longrightarrow> string_of t = string_of s"
  by (simp add: fun_eq_iff string_of_def grown_lookup)

lemma lookup_cong:
  assumes "toml_store t = toml_store s" "toml_root t = toml_root s"
  shows "config_lookup t = config_lookup s" "string_of t = string_of s"
  using assms by (simp_all add: fun_eq_iff string_of_def config_lookup_def section_table_def)

lemma lookup_simps [simp]:
  fixes t :: "('w, 'z) test_state_scheme"
  shows "config_lookup (log_upd src l f p n m t) = config_lookup t" "config_lookup (fresh_block t) = config_lookup t"
    "config_lookup (t\<lparr>world := w\<rparr>) = config_lookup t" "config_lookup (t\<lparr>vcontexts := x1\<rparr>) = config_lookup t"
    "config_lookup (t\<lparr>tcontexts := x2\<rparr>) = config_lookup t" "config_lookup (t\<lparr>drivers := x3\<rparr>) = config_lookup t"
    "config_lookup (t\<lparr>driver_cbs := x4\<rparr>) = config_lookup t"
  by (rule lookup_cong; simp)+

lemma string_of_simps [simp]:
  fixes t :: "('w, 'z) test_state_scheme"
  shows "string_of (log_upd src l f p n m t) = string_of t" "string_of (fresh_block t) = string_of t"
    "string_of (t\<lparr>world := w\<rparr>) = string_of t" "string_of (t\<lparr>vcontexts := x1\<rparr>) = string_of t"
    "string_of (t\<lparr>tcontexts := x2\<rparr>) = string_of t" "string_of (t\<lparr>drivers := x3\<rparr>) = string_of t"
    "string_of (t\<lparr>driver_cbs := x4\<rparr>) = string_of t"
  by (simp_all add: fun_eq_iff string_of_def)

lemma wp_rgets:
  fixes s :: "('w, 'z) test_state_scheme"
  assumes "steady s" "config_loaded s" "buf_ok s" "ok \<Longrightarrow> string_of s sec key \<noteq> None"
    and Q: "\<And>t. grown s t \<Longrightarrow> brk s \<in> live t \<Longrightarrow> config_buf t = brk s \<Longrightarrow>
      string_of s sec key = Some (strs t (brk s)) \<Longrightarrow> Q (brk s) t"
  shows "wp (configfile_rgets_section_key sec key) Q (fatally ok) s"
proof (cases "string_of s sec key")
  case (Some v)
  then obtain raw where l: "config_lookup s sec key = Some (Some raw)" "toml_rtos raw = Some (Norm_ok v)"
    using string_of_cases [of s sec key] by auto
  obtain t where t: "configfile_rgets_section_key sec key s = (Inr (brk s), t)" "frame_log (new_buf v s) t"
    using rgets_finds [OF assms(2,3) l] by blast
  have "grown s t" by (rule grown_frame [OF grown_new_buf [OF assms(1)] t(2)])
  moreover have "brk s \<in> live t" "config_buf t = brk s" "strs t (brk s) = v"
    by (simp_all add: frame_logD [OF t(2)] new_buf_def)
  ultimately show ?thesis using Q Some by (simp add: wp_def t(1))
next
  case None
  then have "fst (configfile_rgets_section_key sec key s) = Inl (Exited exit_fatal)"
    using rgets_fails [OF assms(2,3)] string_of_cases [of s sec key] by auto
  with None assms(4) show ?thesis
    by (cases "configfile_rgets_section_key sec key s") (auto simp: wp_def fatally_def)
qed

lemma wp_run_later:
  fixes s :: "('w, 'z) test_state_scheme"
  assumes "steady s"
    and Q: "\<And>x t. grown s t \<Longrightarrow> same_buf s t \<Longrightarrow>
      world t = world s \<or> world t = uv_prepare_start uv (run_once_prepare s) (world s) \<Longrightarrow> Q x t"
  shows "wp (runloop_run_later uv cb c) Q E s"
proof -
  let ?t = "later_upd uv cb c s"
  note d = steadyD [OF assms(1)]
  have e: "runloop_run_later uv cb c s = (Inr \<lparr>r1_cb = cb, r1_context = c, r1_private = brk s\<rparr>, ?t)"
    using d(1,7) by (intro run_later_eq) (auto simp: kept_def)
  have "steady ?t"
    using later_upd_ready [OF d(1), of uv cb c] d(3) unfolding steady_def
    by (auto simp: later_upd_def Let_def kept_def)
  then have "grown s ?t"
    using d(3) unfolding grown_def by (auto simp: later_upd_def Let_def kept_def same_queue_def)
  then have "Q \<lparr>r1_cb = cb, r1_context = c, r1_private = brk s\<rparr> ?t"
    by (rule Q) (auto simp: later_upd_def Let_def same_buf_def)
  then show ?thesis by (simp add: wp_def e)
qed

text \<open>The kept blocks that are not older than \<open>n\<close>.\<close>

definition since :: "nat \<Rightarrow> ('w, 'cb, 'z) config_state_scheme \<Rightarrow> nat set" where
  "since n s = kept s \<inter> {n..}"

lemma since_iff [simp]: "a \<in> since n s \<longleftrightarrow> a \<in> kept s \<and> n \<le> a"
  by (simp add: since_def)

text \<open>The structures of a port that polls its pseudoterminal: the instance, the context behind it,
  the port and the poll handle, none of them in the way of a lookup.\<close>

definition port_started :: "'w libuv \<Rightarrow> nat \<Rightarrow> ('w, 'z) test_state_scheme \<Rightarrow> nat \<Rightarrow> bool" where
  "port_started uv n s d \<longleftrightarrow>
     (let c = dr_private (drivers s d); v = vc_vserial (vcontexts s c); q = vc_poll (vcontexts s c);
          h = rp_private (polls s q) in
      {d, c, v, q, h} \<subseteq> since n s \<and> vc_driver (vcontexts s c) = d \<and>
      rp_cb (polls s q) = Vserial_poll_cb \<and> rp_context (polls s q) = c \<and> h \<noteq> q \<and>
      pp_data (poll_privs s h) = q \<and> uv_busy uv h (world s))"

text \<open>The handle of the port.\<close>

definition port_handle :: "('w, 'z) test_state_scheme \<Rightarrow> nat \<Rightarrow> nat" where
  "port_handle s d = rp_private (polls s (vc_poll (vcontexts s (dr_private (drivers s d)))))"

lemma wp_poll_start:
  fixes s :: "('w, 'z) test_state_scheme"
  assumes "poll_ok uv s q" "uv_of_pevents uv e \<noteq> 0"
    and Q: "\<And>w. uv_busy uv (rp_private (polls s q)) w \<Longrightarrow> Q () (s\<lparr>world := w\<rparr>)"
  shows "wp (runloop_poll_start uv q e) Q E s"
proof -
  note p = poll_start_ok [OF assms(1,2)]
  then have "uv_busy uv (rp_private (polls s q)) (uv_poll_start uv (rp_private (polls s q)) (uv_of_pevents uv e) (world s))"
    by (simp add: uv_busy_def poll_ok_def poll_active_def)
  from Q [OF this] p show ?thesis by (simp add: wp_def)
qed

definition watch_port :: "'w posix \<Rightarrow> 'w libuv \<Rightarrow> nat \<Rightarrow> nat \<Rightarrow> nat \<Rightarrow> nat \<Rightarrow> ('w, 'z, unit) vserial_prog" where
  "watch_port os uv driver context v poll =
     seqE (deref driver)
     (seqE (modify (\<lambda>s. s\<lparr>drivers := (drivers s)(driver := (drivers s driver)\<lparr>dr_private := context\<rparr>)\<rparr>))
     (bindE (gets (\<lambda>s. vp_fd (vs_slave (vserials s v)))) (\<lambda>slave_fd.
     bindE (sysread (os_ioctl_tiocmget os slave_fd)) (\<lambda>(rc, modem_bits).
     seqE (whenE (rc = -1) (util_fatal ''Could not ioctl(TIOCMGET): %m''))
     (seqE (upd_context context (\<lambda>c. c\<lparr>vc_modem_bits := modem_bits\<rparr>))
     (bindE (runloop_run_later uv Vserial_deliver_fc_changed_cb context) (\<lambda>_.
     runloop_poll_start uv poll (PEVENT_READ OR PEVENT_PRIO))))))))"

lemma vserial_init_split:
  "vserial_lifecycle_init os uv driver config_section =
     seqE (log_debug ''vserial driver instance is initializing'')
     (bindE (zalloc sizeof) (\<lambda>context.
     seqE (upd_context context (\<lambda>_. \<lparr>vc_driver = 0, vc_poll = 0, vc_vserial = 0, vc_modem_bits = 0\<rparr>))
     (bindE (configfile_rgets_section_key config_section ''vserial.port'') (\<lambda>config_path.
     seqE (upd_context context (\<lambda>c. c\<lparr>vc_driver := driver\<rparr>))
     (seqE (deref config_path)
     (bindE (gets (\<lambda>s. strs s config_path)) (\<lambda>name_arg.
     bindE (vserial_create os (Some name_arg)) (\<lambda>v.
     seqE (upd_context context (\<lambda>c. c\<lparr>vc_vserial := v\<rparr>))
     (bindE (gets (\<lambda>s. vp_fd (vs_master (vserials s v)))) (\<lambda>master_fd.
     bindE (runloop_poll_create uv master_fd Vserial_poll_cb) (\<lambda>poll.
     seqE (upd_context context (\<lambda>c. c\<lparr>vc_poll := poll\<rparr>))
     (seqE (modify (\<lambda>s. s\<lparr>polls := (polls s)(poll := (polls s poll)\<lparr>rp_context := context\<rparr>)\<rparr>))
     (watch_port os uv driver context v poll)))))))))))))"
  by (simp add: vserial_lifecycle_init_def watch_port_def)

text \<open>The port before its handle is started: the context at \<open>c\<close>, the port at \<open>v\<close>, the handle at
  \<open>q\<close>.\<close>

definition port_made :: "'w libuv \<Rightarrow> nat \<Rightarrow> ('w, 'z) test_state_scheme \<Rightarrow> nat \<Rightarrow> nat \<Rightarrow> nat \<Rightarrow> nat \<Rightarrow> bool" where
  "port_made uv n s d c v q \<longleftrightarrow> {d, c, v, q, Suc q} \<subseteq> since n s \<and>
     vc_driver (vcontexts s c) = d \<and> vc_vserial (vcontexts s c) = v \<and> vc_poll (vcontexts s c) = q \<and>
     polls s q = \<lparr>rp_cb = Vserial_poll_cb, rp_context = c, rp_private = Suc q\<rparr> \<and>
     pp_data (poll_privs s (Suc q)) = q \<and> uv_idle uv (Suc q) (world s)"

definition with_private :: "nat \<Rightarrow> nat \<Rightarrow> ('w, 'z) test_state_scheme \<Rightarrow> ('w, 'z) test_state_scheme" where
  "with_private c d s = s\<lparr>drivers := (drivers s)(d := (drivers s d)\<lparr>dr_private := c\<rparr>)\<rparr>"

lemma grown_shift:
  assumes "grown s u"
  shows "grown (s\<lparr>drivers := (drivers s)(d := x)\<rparr>) (u\<lparr>drivers := (drivers u)(d := x)\<rparr>)"
  using assms grownD(2) [OF assms] unfolding grown_def steady_def
  by (simp add: kept_def ready_def mem_ok_def heap_inv_def del: readyD)

lemma port_made_grown:
  assumes m: "port_made uv n s d c v q" and g: "grown s t" and "steady s" and "uv_idle uv (Suc q) (world t)"
  shows "port_made uv n t d c v q" "drivers t d = drivers s d"
proof -
  have k: "x < brk s" if "x \<in> {d, c, v, q, Suc q}" for x
    using that m keptD(4) [OF steadyD(1) [OF assms(3)]] by (auto simp: port_made_def)
  show "drivers t d = drivers s d" using grown_heap(2) [OF g] k by simp
  have "{d, c, v, q, Suc q} \<subseteq> since n t" using m grownD(5) [OF g] by (auto simp: port_made_def)
  moreover have "vcontexts t c = vcontexts s c" "polls t q = polls s q" "poll_privs t (Suc q) = poll_privs s (Suc q)"
    using grown_heap [OF g] k by auto
  ultimately show "port_made uv n t d c v q" using m assms(4) by (simp add: port_made_def)
qed

lemma port_made_ok:
  assumes "port_made uv n s d c v q" "ready s" "uv_contract uv"
  shows "poll_ok uv s q" "rp_private (polls s q) = Suc q"
  using assms by (auto simp: port_made_def poll_ok_def uv_idle_def kept_def)

lemma port_made_started:
  fixes s :: "('w, 'z) test_state_scheme"
  assumes "port_made uv n s d c v q" "dr_private (drivers s d) = c" "uv_busy uv (Suc q) w"
  shows "port_started uv n (s\<lparr>world := w\<rparr>) d"
  using assms by (simp add: port_made_def port_started_def Let_def)

lemma wp_watch_port:
  fixes s :: "('w, 'z) test_state_scheme"
  assumes g: "grown b s" "brk b \<le> c" "d < brk b" and m: "port_made uv n s d c v q"
    and uv: "uv_contract uv" "uv_of_pevents uv (PEVENT_READ OR PEVENT_PRIO) \<noteq> 0"
    and p: "run_once_prepare s \<noteq> Suc q" and ok: "ok \<Longrightarrow> willing_os os"
    and Q: "\<And>t. grown (with_private c d b) t \<Longrightarrow> port_started uv n t d \<Longrightarrow>
      same_buf s t \<Longrightarrow> Q () t"
  shows "wp (watch_port os uv d c v q) Q (fatally ok) s"
proof -
  note r = grownD(2) [OF g(1)]
  have d: "d \<in> live s" "d \<noteq> 0" using m keptD [OF r] by (auto simp: port_made_def)
  have made: "grown (with_private c d b) (with_private c d s\<lparr>vcontexts := (vcontexts s)(c := x)\<rparr>)" for x
  proof (rule grown_upd(5))
    show "grown (with_private c d b) (with_private c d s)"
      using grown_shift [OF g(1), of d] grown_heap(2) [OF g(1,3)] by (simp add: with_private_def)
    show "((vcontexts s)(c := x)) a = vcontexts (with_private c d s) a" if "a < brk (with_private c d b)" for a
      using that g(2) by (simp add: with_private_def)
  qed
  have step: "wp (runloop_run_later uv Vserial_deliver_fc_changed_cb c)
      (\<lambda>_. wp (runloop_poll_start uv q (PEVENT_READ OR PEVENT_PRIO)) Q (fatally ok)) (fatally ok) u"
    if "grown (with_private c d b) u" "port_made uv n u d c v q" "dr_private (drivers u d) = c"
      "world u = world s" "run_once_prepare u = run_once_prepare s" "same_buf s u" for u
  proof (rule wp_run_later)
    show "steady u" by (rule grownD(1) [OF that(1)])
    fix x t
    assume t: "grown u t" "same_buf u t"
      "world t = world u \<or> world t = uv_prepare_start uv (run_once_prepare u) (world u)"
    have "uv_idle uv (Suc q) (world t)"
      using t(3) that(4,5) m p uv_contract_facts(6) [OF uv(1)]
      by (auto simp: port_made_def uv_idle_def uv_same_def)
    note t' = port_made_grown [OF that(2) t(1) grownD(1) [OF that(1)] this]
    note ok = port_made_ok [OF t'(1) grownD(2) [OF t(1)] uv(1)]
    show "wp (runloop_poll_start uv q (PEVENT_READ OR PEVENT_PRIO)) Q (fatally ok) t"
    proof (rule wp_poll_start [OF ok(1) uv(2)], unfold ok(2))
      fix w
      assume "uv_busy uv (Suc q) w"
      then have "port_started uv n (t\<lparr>world := w\<rparr>) d"
        using port_made_started [OF t'(1)] t'(2) that(3) by simp
      then show "Q () (t\<lparr>world := w\<rparr>)"
        using grown_trans [OF that(1) t(1)] t(2) that(6) by (intro Q) (auto simp: same_buf_def)
    qed
  qed
  show ?thesis
    unfolding watch_port_def upd_context_def
    apply (intro wp_then wp_bind wp_value wp_there wp_change wp_look wp_pair wp_only_if wp_give_up)
         apply (simp_all add: d steadyD(2) [OF grownD(1) [OF g(1)]] ok willing_osD)
    apply (rule step)
    using m made apply (simp_all add: with_private_def port_made_def same_buf_def)
    done
qed

lemma ready_log [simp]: "ready (log_upd src l f p n m s) = ready s" for s :: "('w, 'z) test_state_scheme"
  by (rule frame_logD(10) [OF frame_log_log])

lemma ready_upd [simp]:
  fixes s :: "('w, 'z) test_state_scheme"
  shows "ready (s\<lparr>strs := x0\<rparr>) = ready s" "ready (s\<lparr>drivers := x1\<rparr>) = ready s" "ready (s\<lparr>driver_cbs := x2\<rparr>) = ready s" "ready (s\<lparr>tcontexts := x3\<rparr>) = ready s" "ready (s\<lparr>vcontexts := x4\<rparr>) = ready s" "ready (s\<lparr>vserials := x5\<rparr>) = ready s" "ready (s\<lparr>polls := x6\<rparr>) = ready s" "ready (s\<lparr>poll_privs := x7\<rparr>) = ready s" "ready (s\<lparr>modules := x8\<rparr>) = ready s"
  by (simp_all add: ready_def mem_ok_def heap_inv_def del: readyD)

lemma later_upd_simps [simp]:
  fixes s :: "('w, 'z) test_state_scheme"
  shows "steady (s\<lparr>strs := x0\<rparr>) = steady s" "steady (s\<lparr>drivers := x1\<rparr>) = steady s" "steady (s\<lparr>driver_cbs := x2\<rparr>) = steady s" "steady (s\<lparr>tcontexts := x3\<rparr>) = steady s" "steady (s\<lparr>vcontexts := x4\<rparr>) = steady s" "steady (s\<lparr>vserials := x5\<rparr>) = steady s" "steady (s\<lparr>polls := x6\<rparr>) = steady s" "steady (s\<lparr>poll_privs := x7\<rparr>) = steady s" "steady (s\<lparr>modules := x8\<rparr>) = steady s"
    "config_loaded (s\<lparr>strs := x0\<rparr>) = config_loaded s" "config_loaded (s\<lparr>drivers := x1\<rparr>) = config_loaded s" "config_loaded (s\<lparr>driver_cbs := x2\<rparr>) = config_loaded s" "config_loaded (s\<lparr>tcontexts := x3\<rparr>) = config_loaded s" "config_loaded (s\<lparr>vcontexts := x4\<rparr>) = config_loaded s" "config_loaded (s\<lparr>vserials := x5\<rparr>) = config_loaded s" "config_loaded (s\<lparr>polls := x6\<rparr>) = config_loaded s" "config_loaded (s\<lparr>poll_privs := x7\<rparr>) = config_loaded s" "config_loaded (s\<lparr>modules := x8\<rparr>) = config_loaded s"
    "buf_ok (s\<lparr>strs := x0\<rparr>) = buf_ok s" "buf_ok (s\<lparr>drivers := x1\<rparr>) = buf_ok s" "buf_ok (s\<lparr>driver_cbs := x2\<rparr>) = buf_ok s" "buf_ok (s\<lparr>tcontexts := x3\<rparr>) = buf_ok s" "buf_ok (s\<lparr>vcontexts := x4\<rparr>) = buf_ok s" "buf_ok (s\<lparr>vserials := x5\<rparr>) = buf_ok s" "buf_ok (s\<lparr>polls := x6\<rparr>) = buf_ok s" "buf_ok (s\<lparr>poll_privs := x7\<rparr>) = buf_ok s" "buf_ok (s\<lparr>modules := x8\<rparr>) = buf_ok s"
    "config_loaded (s\<lparr>world := w\<rparr>) = config_loaded s" "buf_ok (s\<lparr>world := w\<rparr>) = buf_ok s"
    "config_loaded (log_upd src l f p n m s) = config_loaded s" "buf_ok (log_upd src l f p n m s) = buf_ok s"
  by (simp_all add: steady_def config_loaded_def buf_ok_def kept_def)

lemma fresh_block_ok [simp]:
  fixes s :: "('w, 'z) test_state_scheme"
  shows "ready s \<Longrightarrow> ready (fresh_block s)" "config_loaded s \<Longrightarrow> config_loaded (fresh_block s)"
    "buf_ok s \<Longrightarrow> buf_ok (fresh_block s)" "steady s \<Longrightarrow> kept (fresh_block s) = insert (brk s) (kept s)"
  by (auto simp: config_loaded_def buf_ok_def fresh_block_def ready_def mem_ok_def heap_inv_def kept_def steady_def
      simp del: readyD)

text \<open>The structures that \<open>vserial_lifecycle_init\<close> has made when it comes to the handle.\<close>

lemma port_is_made:
  fixes s t ta tb :: "('w, 'z) test_state_scheme"
  defines "c \<equiv> brk s" and "v \<equiv> brk t" and "q \<equiv> brk ta"
  assumes d: "d \<in> kept s" "steady s" "n \<le> d" and t: "grown s t" "c \<in> kept t"
    and ta: "grown (t\<lparr>vcontexts := (vcontexts t)(c := (vcontexts t c)\<lparr>vc_driver := d\<rparr>)\<rparr>) ta" "v \<in> kept ta"
    and tb: "grown (ta\<lparr>vcontexts := (vcontexts ta)(c := (vcontexts ta c)\<lparr>vc_vserial := v\<rparr>)\<rparr>) tb"
      "q \<in> kept tb" "Suc q \<in> kept tb" "pp_data (poll_privs tb (Suc q)) = q" "uv_idle uv (Suc q) (world tb)"
  defines "u \<equiv> tb\<lparr>vcontexts := (vcontexts tb)(c := (vcontexts tb c)\<lparr>vc_poll := q\<rparr>),
    polls := (polls tb)(q := \<lparr>rp_cb = Vserial_poll_cb, rp_context = c, rp_private = Suc q\<rparr>)\<rparr>"
  shows "grown s u" "port_made uv n u d c v q"
proof -
  have le: "brk s \<le> brk t" "brk t \<le> brk ta" "brk ta \<le> brk tb"
    using grownD(4) [OF t(1)] grownD(4) [OF ta(1)] grownD(4) [OF tb(1)] by simp_all
  have c: "c < brk t" "c < brk ta"
    using keptD(4) [OF grownD(2) [OF t(1)] t(2)] le by simp_all
  have "grown s (t\<lparr>vcontexts := (vcontexts t)(c := (vcontexts t c)\<lparr>vc_driver := d\<rparr>)\<rparr>)"
    by (rule grown_upd(5) [OF t(1)]) (simp add: c_def)
  then have a: "grown s ta" by (rule grown_trans [OF _ ta(1)])
  have "grown s (ta\<lparr>vcontexts := (vcontexts ta)(c := (vcontexts ta c)\<lparr>vc_vserial := v\<rparr>)\<rparr>)"
    by (rule grown_upd(5) [OF a]) (simp add: c_def)
  then have b: "grown s tb" by (rule grown_trans [OF _ tb(1)])
  then show "grown s u"
    unfolding u_def using le by (intro grown_upd) (simp_all add: c_def q_def)
  have "d \<in> kept tb" "c \<in> kept tb" "v \<in> kept tb"
    using d(1) t(2) ta(2) grownD(5) [OF b] grownD(5) [OF ta(1)] grownD(5) [OF tb(1)] by auto
  moreover have "vcontexts ta c = (vcontexts t c)\<lparr>vc_driver := d\<rparr>"
    using grown_heap(5) [OF ta(1)] c by simp
  moreover have "vcontexts tb c = (vcontexts ta c)\<lparr>vc_vserial := v\<rparr>"
    using grown_heap(5) [OF tb(1)] c by simp
  ultimately show "port_made uv n u d c v q"
    using tb(2-) d(3) keptD(4) [OF steadyD(1) [OF d(2)] d(1)] le by (simp add: port_made_def u_def c_def v_def q_def)
qed

text \<open>The section gives a usable path for its port.\<close>

definition names_port :: "('w, 'cb, 'z) config_state_scheme \<Rightarrow> string \<Rightarrow> bool" where
  "names_port s sec \<longleftrightarrow> (\<exists>v. string_of s sec ''vserial.port'' = Some v \<and> length v < PATH_MAX)"

lemma names_port_simps [simp]:
  fixes t :: "('w, 'z) test_state_scheme"
  shows "names_port (log_upd src l f p n m t) = names_port t" "names_port (fresh_block t) = names_port t"
    "names_port (t\<lparr>tcontexts := x1\<rparr>) = names_port t" "names_port (t\<lparr>drivers := x2\<rparr>) = names_port t"
    "names_port (t\<lparr>driver_cbs := x3\<rparr>) = names_port t"
  by (simp_all add: fun_eq_iff names_port_def)

lemma names_portD:
  assumes "names_port s sec"
  shows "\<exists>v. string_of s sec ''vserial.port'' = Some v" "string_of s sec ''vserial.port'' = Some v \<Longrightarrow> \<not> PATH_MAX \<le> length v"
  using assms by (auto simp: names_port_def)

lemma wp_vserial_init:
  fixes s :: "('w, 'z) test_state_scheme"
  assumes s: "steady s" "config_loaded s" "buf_ok s" and d: "d \<in> kept s" "n \<le> d" and p: "run_once_prepare s < brk s"
    and uv: "uv_contract uv" "uv_of_pevents uv (PEVENT_READ OR PEVENT_PRIO) \<noteq> 0" and os: "readlink_contract os"
    and ok: "ok \<Longrightarrow> willing_os os" "ok \<Longrightarrow> names_port s sec"
    and Q: "\<And>t. grown (with_private (brk s) d s) t \<Longrightarrow> port_started uv n t d \<Longrightarrow>
      config_buf t \<in> live t \<Longrightarrow> Q () t"
  shows "wp (vserial_lifecycle_init os uv d sec) Q (fatally ok) s"
proof -
  let ?c = "brk s"
  let ?l = "log_msg log_level_debug ''vserial driver instance is initializing'' s"
  let ?u = "fresh_block ?l\<lparr>vcontexts := (vcontexts (fresh_block ?l))(?c :=
    \<lparr>vc_driver = 0, vc_poll = 0, vc_vserial = 0, vc_modem_bits = 0\<rparr>)\<rparr>"
  have l: "grown s ?l" using s(1) by (simp add: grown_refl)
  have u: "grown s ?u" "?c \<in> kept ?u"
    using grown_upd(5) [OF grown_alloc(1) [OF l]] grown_alloc(2) [OF l] by simp_all
  have watch: "wp (watch_port os uv d ?c (brk t) (brk ta)) Q (fatally ok)
      (tb\<lparr>vcontexts := (vcontexts tb)(?c := (vcontexts tb ?c)\<lparr>vc_poll := brk ta\<rparr>),
        polls := (polls tb)(brk ta := \<lparr>rp_cb = Vserial_poll_cb, rp_context = ?c, rp_private = Suc (brk ta)\<rparr>)\<rparr>)"
    (is "wp _ _ _ ?m")
    if t: "grown ?u t" and ta: "grown (t\<lparr>vcontexts := (vcontexts t)(?c := (vcontexts t ?c)\<lparr>vc_driver := d\<rparr>)\<rparr>) ta"
        "brk t \<in> kept ta"
      and tb: "grown (ta\<lparr>vcontexts := (vcontexts ta)(?c := (vcontexts ta ?c)\<lparr>vc_vserial := brk t\<rparr>)\<rparr>) tb"
        "brk ta \<in> kept tb" "Suc (brk ta) \<in> kept tb" "pp_data (poll_privs tb (Suc (brk ta))) = brk ta"
        "uv_idle uv (Suc (brk ta)) (world tb)"
      and buf: "config_buf tb \<in> live tb" for t ta tb
  proof -
    have st: "grown s t" "?c \<in> kept t" using grown_trans [OF u(1) t] u(2) grownD(5) [OF t] by blast+
    note m = port_is_made [OF d(1) s(1) d(2) st ta tb]
    have lt: "d < brk s" by (rule keptD(4) [OF steadyD(1) [OF s(1)] d(1)])
    have above: "brk s < Suc (brk ta)"
      using grownD(4) [OF st(1)] grownD(4) [OF ta(1)] by simp
    then have "run_once_prepare ?m \<noteq> Suc (brk ta)" using p grownD(14) [OF m(1)] by simp
    then show ?thesis
      by (rule wp_watch_port [OF m(1) le_refl lt m(2) uv _ ok(1)], simp_all, intro Q) (use buf in \<open>auto simp: same_buf_def\<close>)
  qed
  show ?thesis
    unfolding vserial_init_split upd_context_def
    apply (intro start_rules wp_rgets wp_vserial_create [OF os] wp_poll_create)
                 apply (simp_all add: steadyD [OF s(1)] s)
         apply (simp_all add: uv grownD(1) ok(1) names_portD(1) [OF ok(2)] names_portD(2) [OF ok(2)])
    apply (rule watch)
            apply (auto simp: same_buf_def)
    done
qed

end
