(* ===== verification/Start_Test.thy ===== *)
theory Start_Test
  imports Start_Port
begin

text \<open>
  The start of the test module (\<open>test_lifecycle_start\<close> of \<^verbatim>\<open>src/modules/test.c\<close>) through
  \<^verbatim>\<open>src/module.c\<close>, \<^verbatim>\<open>src/driver.c\<close> and \<^verbatim>\<open>src/main.c\<close>: when it returns, the newest module has
  a running port, so that what holds of running ports and of the shutdown holds of it.
\<close>

section \<open>The driver\<close>

text \<open>The driver of the virtual port is the one that the registry has.\<close>

definition vserial_registered :: "('w, 'z) test_state_scheme \<Rightarrow> bool" where
  "vserial_registered s \<longleftrightarrow> loaded_drivers s \<in> kept s \<and>
     dn_driver (driver_nodes s (loaded_drivers s)) = vserial_driver_info"

text \<open>An instance of the driver with its callback table, as \<open>driver_create\<close> leaves it.\<close>

definition instance_started :: "'w libuv \<Rightarrow> nat \<Rightarrow> ('w, 'z) test_state_scheme \<Rightarrow> nat \<Rightarrow> bool" where
  "instance_started uv n s d \<longleftrightarrow> port_started uv n s d \<and> dr_cb (drivers s d) \<in> since n s \<and>
     dr_info (drivers s d) = vserial_driver_info \<and> dr_status (drivers s d) = driver_status_unstarted"

lemma wp_get_driver:
  fixes s :: "('w, 'z) test_state_scheme"
  assumes "ready s" "vserial_registered s" "Q (Some vserial_driver_info) s"
  shows "wp (driver_get_info ''vserial'') Q E s"
proof -
  have l: "loaded_drivers s \<in> live s" "loaded_drivers s \<noteq> 0"
    using assms(2) keptD [OF assms(1)] by (simp_all add: vserial_registered_def)
  have n: "di_name vserial_driver_info = ''vserial''" by (simp add: vserial_driver_info_def)
  show ?thesis
    using driver_get_info_eq [OF assms(1) l(1), of "''vserial''"] l(2) n assms(2,3)
    by (simp add: wp_def vserial_registered_def)
qed

lemma vserial_calls:
  "driver_init_call os uv (dl_init (di_lifecycle vserial_driver_info)) = vserial_lifecycle_init os uv"
  "dl_cleanup (di_lifecycle vserial_driver_info) = Vserial_lifecycle_cleanup"
  by (simp_all add: fun_eq_iff vserial_driver_info_def driver_init_call_def)

text \<open>The instance as \<open>driver_create\<close> hands it to the initialisation, with its context filled in.\<close>

lemma instance_is_started:
  fixes s t :: "('w, 'z) test_state_scheme"
  defines "x \<equiv> \<lparr>dr_user = 0, dr_private = 0, dr_info = vserial_driver_info, dr_cb = 0, dr_status = 0\<rparr>"
  assumes s: "steady s" "n \<le> brk s" and p: "port_started uv n t (brk s)"
    and t: "grown (with_private c (brk s) (log_msg l m (fresh_block (fresh_block s\<lparr>drivers := (drivers s)(brk s := x)\<rparr>)
      \<lparr>driver_cbs := f, drivers := (drivers s)(brk s := x\<lparr>dr_cb := Suc (brk s)\<rparr>)\<rparr>))) t" (is "grown ?u t")
    and f: "\<And>a. a < brk s \<Longrightarrow> f a = driver_cbs s a"
  shows "grown s t" "instance_started uv n t (brk s)" "dr_cb (drivers t (brk s)) = Suc (brk s)"
proof -
  have "grown s ?u"
    unfolding with_private_def using f by (simp add: grown_upd grown_alloc(1) grown_refl [OF s(1)])
  from this t show "grown s t" by (rule grown_trans)
  have d: "drivers t (brk s) = x\<lparr>dr_cb := Suc (brk s), dr_private := c\<rparr>"
    using grown_heap(2) [OF t, of "brk s"] by (simp add: with_private_def x_def)
  then show "dr_cb (drivers t (brk s)) = Suc (brk s)" by simp
  have "Suc (brk s) \<in> since n t"
    using grownD(5) [OF t] s by (simp add: with_private_def)
  then show "instance_started uv n t (brk s)"
    using p d by (simp add: instance_started_def x_def driver_status_unstarted_def)
qed

lemma wp_driver_create:
  fixes s :: "('w, 'z) test_state_scheme"
  assumes s: "steady s" "config_loaded s" "buf_ok s" "vserial_registered s" "n \<le> brk s" and p: "run_once_prepare s < brk s"
    and uv: "uv_contract uv" "uv_of_pevents uv (PEVENT_READ OR PEVENT_PRIO) \<noteq> 0" and os: "readlink_contract os"
    and ok: "ok \<Longrightarrow> willing_os os" "ok \<Longrightarrow> names_port s sec"
    and Q: "\<And>t. grown s t \<Longrightarrow> instance_started uv n t (brk s) \<Longrightarrow>
      dr_cb (drivers t (brk s)) = Suc (brk s) \<Longrightarrow> config_buf t \<in> live t \<Longrightarrow> Q (brk s) t"
  shows "wp (driver_create (driver_init_call os uv) ''vserial'' sec) Q (fatally ok) s"
  unfolding driver_create_def
  apply (intro wp_bind wp_get_driver)
    apply (rule steadyD(1) [OF s(1)])
   apply (rule s(4))
  unfolding option.case vserial_calls
  apply (intro wp_bind wp_then wp_block wp_change wp_log wp_vserial_init [OF _ _ _ _ _ _ uv os, where n = n])
  using s p apply (simp_all add: steadyD ok)
  subgoal for t
    using instance_is_started [OF s(1,5), where uv = uv and t = t and c = "Suc (Suc (brk s))"
        and f = "(driver_cbs s)(Suc (brk s) := no_callbacks)" and l = log_level_debug
        and m = "''vserial driver was created''"]
    by (intro wp_return Q) simp_all
  done

section \<open>The module\<close>

text \<open>hamlib is handed no handle of the loop: opening a radio leaves all of them alone.\<close>

definition rig_apart :: "'w libuv \<Rightarrow> 'w hamlib \<Rightarrow> bool" where
  "rig_apart uv hl \<longleftrightarrow> (\<forall>h w.
     (\<forall>i. uv_same uv h w (snd (rig_init hl i w))) \<and> (\<forall>r. uv_same uv h w (snd (rig_open hl r w))) \<and>
     (\<forall>r p. uv_same uv h w (rig_pathname hl r p w)))"

text \<open>The radio can be opened.\<close>

definition willing_rig :: "'w hamlib \<Rightarrow> bool" where
  "willing_rig hl \<longleftrightarrow> (\<forall>w. (\<forall>i. fst (rig_init hl i w) \<noteq> 0) \<and> (\<forall>r. fst (rig_open hl r w) = RIG_OK))"

lemma willing_rigD:
  "willing_rig hl \<Longrightarrow> fst (rig_init hl i w) \<noteq> 0" "willing_rig hl \<Longrightarrow> 0 < fst (rig_init hl i w)"
  "willing_rig hl \<Longrightarrow> fst (rig_open hl r w) = RIG_OK"
  by (simp_all add: willing_rig_def)

text \<open>The instance, its user and the callback between them.\<close>

definition wired :: "'w libuv \<Rightarrow> nat \<Rightarrow> ('w, 'z) test_state_scheme \<Rightarrow> nat \<Rightarrow> nat \<Rightarrow> bool" where
  "wired uv n s c d \<longleftrightarrow> instance_started uv n s d \<and> c \<in> since n s \<and> tc_vserial (tcontexts s c) = d \<and>
     dr_user (drivers s d) = c \<and> cb_fc_changed (driver_cbs s (dr_cb (drivers s d))) = Some Update_flow_control"

lemmas wired_defs = wired_def instance_started_def port_started_def port_handle_def Let_def

text \<open>The pointer of the lookups points to a block that is gone.\<close>

definition stale_buf :: "('w, 'cb, 'z) config_state_scheme \<Rightarrow> bool" where
  "stale_buf s \<longleftrightarrow> config_buf s \<noteq> 0 \<and> config_buf s \<notin> live s"

lemma wired_log [simp]:
  "wired uv b (log_upd src l f p n m s) c d = wired uv b s c d" "port_handle (log_upd src l f p n m s) d = port_handle s d"
  by (simp_all add: wired_defs)

lemma port_handle_upd [simp]:
  "port_handle (s\<lparr>world := w\<rparr>) d = port_handle s d" "port_handle (s\<lparr>tcontexts := x\<rparr>) d = port_handle s d"
  "port_handle (s\<lparr>modules := y\<rparr>) d = port_handle s d" "port_handle (s\<lparr>driver_cbs := z\<rparr>) d = port_handle s d"
  by (simp_all add: port_handle_def)

lemma wired_world:
  assumes "wired uv n s c d" "uv_same uv (port_handle s d) (world s) w"
  shows "wired uv n (s\<lparr>world := w\<rparr>) c d"
  using assms by (simp add: wired_defs uv_same_def uv_busy_def)

lemma wired_rig: "wired uv n s c d \<Longrightarrow> tc_vserial (x c) = d \<Longrightarrow> wired uv n (s\<lparr>tcontexts := x\<rparr>) c d"
  by (simp add: wired_defs)

lemma wired_grown:
  assumes w: "wired uv n s c d" and s: "steady s" and g: "grown s t" and "world t = world s"
  shows "wired uv n t c d" "port_handle t d = port_handle s d"
proof -
  let ?c = "dr_private (drivers s d)" and ?q = "vc_poll (vcontexts s (dr_private (drivers s d)))"
  note k = keptD(4) [OF steadyD(1) [OF s]]
  have "{d, ?c, vc_vserial (vcontexts s ?c), ?q, rp_private (polls s ?q), dr_cb (drivers s d), c} \<subseteq> kept s"
    using w by (simp add: wired_defs)
  moreover from this have "drivers t d = drivers s d" "vcontexts t ?c = vcontexts s ?c" "polls t ?q = polls s ?q"
    "poll_privs t (rp_private (polls s ?q)) = poll_privs s (rp_private (polls s ?q))"
    "driver_cbs t (dr_cb (drivers s d)) = driver_cbs s (dr_cb (drivers s d))" "tcontexts t c = tcontexts s c"
    using grown_heap [OF g] k by simp_all
  ultimately show "wired uv n t c d" "port_handle t d = port_handle s d"
    using w grownD(5) [OF g] assms(4) by (auto simp: wired_defs)
qed

lemma wp_lookup:
  fixes s :: "('w, 'z) test_state_scheme"
  assumes "steady s" "config_loaded s" "buf_ok s"
    and ok: "ok \<Longrightarrow> string_of s sec key \<noteq> None \<or> config_lookup s sec key = Some None"
    and Q: "\<And>p t. grown s t \<Longrightarrow> world t = world s \<Longrightarrow> (p \<noteq> 0 \<Longrightarrow> p \<in> live t) \<Longrightarrow>
      (config_lookup s sec key = Some None \<Longrightarrow> config_buf s \<noteq> 0 \<Longrightarrow> stale_buf t) \<Longrightarrow> Q p t"
  shows "wp (configfile_gets_section_key sec key) Q (fatally ok) s"
proof -
  have fatal: "fst (configfile_gets_section_key sec key s) = Inl (Exited exit_fatal)"
    if "string_of s sec key = None" "config_lookup s sec key \<noteq> Some None"
  proof (cases "config_lookup s sec key")
    case None
    then show ?thesis by (rule gets_no_section [OF assms(2,3)])
  next
    case (Some r)
    with that obtain raw where "config_lookup s sec key = Some (Some raw)" "toml_rtos raw = None"
      using string_of_cases [of s sec key] by (cases r) auto
    then show ?thesis by (rule gets_bad [OF assms(2,3)])
  qed
  consider "fst (configfile_gets_section_key sec key s) = Inl (Exited exit_fatal)" "\<not> ok"
    | "config_lookup s sec key = Some None"
    | raw v where "config_lookup s sec key = Some (Some raw)" "toml_rtos raw = Some (Norm_ok v)"
    using fatal ok string_of_cases [of s sec key] by (cases "string_of s sec key") auto
  then show ?thesis
  proof cases
    case 1
    then show ?thesis by (cases "configfile_gets_section_key sec key s") (simp add: wp_def fatally_def)
  next
    case 2
    then obtain t where t: "configfile_gets_section_key sec key s = (Inr 0, t)" "frame_log (drop_buf s) t"
      using gets_missing [OF assms(2,3)] by blast
    have "grown s (drop_buf s)"
      using assms(1) drop_buf_loaded [OF assms(2)] unfolding grown_def steady_def
      by (auto simp: drop_buf_def kept_def config_loaded_def)
    then have "grown s t" by (rule grown_frame [OF _ t(2)])
    then have "Q 0 t"
      by (rule Q) (auto simp: frame_logD [OF t(2)] stale_buf_def drop_buf_def)
    then show ?thesis by (simp add: wp_def t(1))
  next
    case 3
    then obtain t where t: "configfile_gets_section_key sec key s = (Inr (brk s), t)" "frame_log (new_buf v s) t"
      using gets_found [OF assms(2,3)] by blast
    have "grown s t" by (rule grown_frame [OF grown_new_buf [OF assms(1)] t(2)])
    then have "Q (brk s) t"
      by (rule Q) (use 3 in \<open>auto simp: frame_logD [OF t(2)] new_buf_def\<close>)
    then show ?thesis by (simp add: wp_def t(1))
  qed
qed

text \<open>The section gives a number for its radio.\<close>

definition names_radio :: "('w, 'cb, 'z) config_state_scheme \<Rightarrow> string \<Rightarrow> bool" where
  "names_radio s sec \<longleftrightarrow>
     (\<exists>raw i. config_lookup s sec ''hamlib.rigid'' = Some (Some raw) \<and> toml_rtoi (Some raw) = Some i)"

lemma geti_returns:
  assumes "config_loaded s"
  shows "\<not> (\<exists>raw i. config_lookup s sec key = Some (Some raw) \<and> toml_rtoi (Some raw) = Some i) \<and>
      (\<exists>t. configfile_geti_section_key sec key s = (Inl (Exited exit_fatal), t)) \<or>
    (\<exists>r. configfile_geti_section_key sec key s = (Inr r, s) \<and>
      (r = None \<longrightarrow> config_lookup s sec key = Some None))"
proof (cases "config_lookup s sec key")
  case None
  then show ?thesis using geti_no_section [OF assms None] by (metis option.distinct(1) prod.collapse)
next
  case (Some r)
  from geti_eq [OF assms Some] Some show ?thesis by (cases r) (auto split: option.splits)
qed

lemma wp_rgeti:
  fixes s :: "('w, 'z) test_state_scheme"
  assumes "config_loaded s" "ok \<Longrightarrow> names_radio s sec" "\<And>i. Q i s"
  shows "wp (configfile_rgeti_section_key sec ''hamlib.rigid'') Q (fatally ok) s"
proof -
  note b = config_loadedD(4) [OF assms(1)]
  have "wp (configfile_geti_section_key sec ''hamlib.rigid'')
      (\<lambda>r t. t = s \<and> (r = None \<longrightarrow> \<not> ok)) (fatally ok) s"
    using geti_returns [OF assms(1), of sec "''hamlib.rigid''"] assms(2)
    by (auto simp: wp_def names_radio_def fatally_def)
  then show ?thesis
    unfolding configfile_rgeti_section_key_def
    apply (simp add: wp_simps wp_def [of configfile_guard] guard_loaded [OF assms(1)])
    apply (erule wp_mono)
     apply (use b assms(3) in \<open>auto intro!: start_rules\<close>)
    done
qed

text \<open>The second half of \<open>test_lifecycle_start\<close>, from the reading of the number of the radio on.\<close>

definition open_port :: "'w hamlib \<Rightarrow> nat \<Rightarrow> nat \<Rightarrow> nat \<Rightarrow> string \<Rightarrow> nat \<Rightarrow> ('w, 'z, unit) test_prog" where
  "open_port hl module context rig label hamlib_serial_port =
     seqE (whenE (hamlib_serial_port \<noteq> 0)
             (seqE (deref hamlib_serial_port)
             (bindE (gets (\<lambda>s. strs s hamlib_serial_port)) (\<lambda>port.
              syscall (\<lambda>w. ((), rig_pathname hl rig (take (FILPATHLEN hl - 1) port) w))))))
     (bindE (syscall (rig_open hl rig)) (\<lambda>rc.
     seqE (whenE (rc \<noteq> RIG_OK) (util_fatal (msg [''Could not rig_open(): '', rigerror hl rc])))
     (seqE (modify (\<lambda>s. s\<lparr>modules := (modules s)(module := (modules s module)\<lparr>mo_private := context\<rparr>)\<rparr>))
     (log_info (msg [''test module started: '', quo label])))))"

definition open_radio :: "'w hamlib \<Rightarrow> nat \<Rightarrow> nat \<Rightarrow> ('w, 'z, unit) test_prog" where
  "open_radio hl module context =
     bindE (module_label module) (\<lambda>label.
     bindE (configfile_rgeti_section_key label ''hamlib.rigid'') (\<lambda>i.
     bindE (ret (sint (word_of_int i :: 32 word))) (\<lambda>rigid.
     bindE (syscall (rig_init hl rigid)) (\<lambda>rig.
     seqE (upd_tcontext context (\<lambda>c. c\<lparr>tc_rig := rig\<rparr>))
     (seqE (log_info (msg [''using hamlib rigid '', show_int rigid]))
     (seqE (whenE (rig = 0) (util_fatal (msg [''could not rig_init('', show_int rigid, '')''])))
     (bindE (configfile_gets_section_key label ''hamlib.serial.port'') (\<lambda>hamlib_serial_port.
     open_port hl module context rig label hamlib_serial_port))))))))"

lemma test_start_split:
  "test_lifecycle_start os uv hl module =
     bindE (zalloc sizeof) (\<lambda>context.
     seqE (upd_tcontext context (\<lambda>_. \<lparr>tc_vserial = 0, tc_rig = 0\<rparr>))
     (bindE (module_label module) (\<lambda>label.
     bindE (driver_create (driver_init_call os uv) ''vserial'' label) (\<lambda>vserial.
     seqE (upd_tcontext context (\<lambda>c. c\<lparr>tc_vserial := vserial\<rparr>))
     (seqE (whenE (vserial = 0) (util_fatal ''could not create instance of vserial driver''))
     (seqE (deref vserial)
     (bindE (gets (\<lambda>s. dr_cb (drivers s vserial))) (\<lambda>cb.
     seqE (deref cb)
     (seqE (modify (\<lambda>s. s\<lparr>driver_cbs := (driver_cbs s)(cb := (driver_cbs s cb)
              \<lparr>cb_fc_changed := Some Update_flow_control\<rparr>)\<rparr>))
     (seqE (modify (\<lambda>s. s\<lparr>drivers := (drivers s)(vserial := (drivers s vserial)\<lparr>dr_user := context\<rparr>)\<rparr>))
     (open_radio hl module context)))))))))))"
  by (simp add: test_lifecycle_start_def open_radio_def open_port_def)

text \<open>A system call of hamlib, which keeps what is wired.\<close>

lemma wp_rig:
  assumes "wired uv n s c d" "\<And>w. uv_same uv (port_handle s d) w (snd (f w))"
    and "\<And>w. wired uv n (s\<lparr>world := w\<rparr>) c d \<Longrightarrow> Q (fst (f (world s))) (s\<lparr>world := w\<rparr>)"
  shows "wp (syscall f) Q E s"
  using assms(3) [OF wired_world [OF assms(1) assms(2) [of "world s"]]]
  by (simp add: wp_def syscall_def case_prod_beta)

lemma wp_module_label:
  assumes "m \<noteq> 0" "m \<in> live s" "mo_label (modules s m) \<noteq> 0" "mo_label (modules s m) \<in> live s"
    and "Q (strs s (mo_label (modules s m))) s"
  shows "wp (module_label m) Q E s"
  unfolding module_label_def using assms by (intro start_rules)

lemma log_modules:
  fixes s :: "('w, 'z) test_state_scheme"
  shows "log_upd src l f p n m (s\<lparr>modules := x\<rparr>) = (log_upd src l f p n m s)\<lparr>modules := x\<rparr>"
  by (simp add: log_upd_def)

lemma rig_apartD:
  assumes "rig_apart uv hl"
  shows "uv_same uv h w (snd (rig_init hl i w))" "uv_same uv h w (snd (rig_open hl r w))"
    "uv_same uv h w (snd ((), rig_pathname hl r p w))"
  using assms by (simp_all add: rig_apart_def)

lemma wp_open_port:
  fixes s t :: "('w, 'z) test_state_scheme"
  assumes t: "grown s t" "wired uv n t c d" "p \<noteq> 0 \<Longrightarrow> p \<in> live t" and rig: "rig_apart uv hl"
    and ok: "ok \<Longrightarrow> willing_rig hl"
    and Q: "\<And>u. grown s u \<Longrightarrow> wired uv n u c d \<Longrightarrow> port_handle u d = port_handle t d \<Longrightarrow>
      (stale_buf t \<Longrightarrow> stale_buf u) \<Longrightarrow>
      Q () (u\<lparr>modules := (modules s)(m := (modules s m)\<lparr>mo_private := c\<rparr>)\<rparr>)"
  shows "wp (open_port hl m c r label p) Q (fatally ok) t"
proof -
  have finish: "wp (bindE (syscall (rig_open hl r)) (\<lambda>rc.
     seqE (whenE (rc \<noteq> RIG_OK) (util_fatal (msg [''Could not rig_open(): '', rigerror hl rc])))
     (seqE (modify (\<lambda>s. s\<lparr>modules := (modules s)(m := (modules s m)\<lparr>mo_private := c\<rparr>)\<rparr>))
     (log_info (msg [''test module started: '', quo label]))))) Q (fatally ok) v"
    if "grown s v" "wired uv n v c d" "port_handle v d = port_handle t d" "stale_buf t \<Longrightarrow> stale_buf v" for v
    apply (intro wp_bind wp_rig [OF that(2) rig_apartD(2) [OF rig]] wp_then wp_only_if wp_give_up wp_change wp_log)
      apply (simp_all add: log_modules grownD [OF that(1)] ok willing_rigD)
    apply (rule Q)
       apply (use that in \<open>auto simp: stale_buf_def\<close>)
    done
  show ?thesis
    unfolding open_port_def
    apply (intro wp_then wp_only_if wp_there wp_bind [of "gets _"] wp_value wp_rig [OF t(2) rig_apartD(3) [OF rig]] finish)
    using t apply (auto simp: stale_buf_def)
    done
qed

text \<open>What a section says about the radio: a number, and perhaps a serial port.\<close>

definition radio_settings :: "('w, 'cb, 'z) config_state_scheme \<Rightarrow> string \<Rightarrow> bool" where
  "radio_settings s sec \<longleftrightarrow> names_radio s sec \<and>
     (string_of s sec ''hamlib.serial.port'' \<noteq> None \<or> config_lookup s sec ''hamlib.serial.port'' = Some None)"

lemma wp_open_radio:
  fixes s t :: "('w, 'z) test_state_scheme"
  assumes s: "ready s" "m \<in> kept s" "mo_label (modules s m) \<in> kept s"
    and t: "grown s t" "wired uv n t c d" "config_loaded t" "buf_ok t" "config_buf t \<noteq> 0" and c: "brk s \<le> c"
    and rig: "rig_apart uv hl" and ok: "ok \<Longrightarrow> willing_rig hl" "ok \<Longrightarrow> radio_settings s (strs s (mo_label (modules s m)))"
    and Q: "\<And>u. grown s u \<Longrightarrow> wired uv n u c d \<Longrightarrow> port_handle u d = port_handle t d \<Longrightarrow>
      (config_lookup s (strs s (mo_label (modules s m))) ''hamlib.serial.port'' = Some None \<Longrightarrow> stale_buf u) \<Longrightarrow>
      Q () (u\<lparr>modules := (modules s)(m := (modules s m)\<lparr>mo_private := c\<rparr>)\<rparr>)"
  shows "wp (open_radio hl m c) Q (fatally ok) t"
proof -
  let ?label = "strs s (mo_label (modules s m))"
  have present: "m \<noteq> 0" "m \<in> live t" "modules t = modules s" "mo_label (modules s m) \<noteq> 0"
    "mo_label (modules s m) \<in> live t" "strs t (mo_label (modules s m)) = ?label"
    using keptD [OF s(1,2)] keptD [OF s(1,3)] grownD(5,15) [OF t(1)] s(2,3) grown_heap(1) [OF t(1)]
    by (auto simp: kept_def)
  have port: "wp (open_port hl m c r ?label p) Q (fatally ok) v"
    if g: "grown u v" "world v = world u" "p \<noteq> 0 \<Longrightarrow> p \<in> live v"
        "config_lookup u ?label ''hamlib.serial.port'' = Some None \<Longrightarrow> config_buf u \<noteq> 0 \<Longrightarrow> stale_buf v"
      and u: "grown s u" "wired uv n u c d" "port_handle u d = port_handle t d" "config_buf u \<noteq> 0" for u v p r
  proof -
    note w = wired_grown [OF u(2) grownD(1) [OF u(1)] g(1,2)]
    show ?thesis
      by (rule wp_open_port [OF grown_trans [OF u(1) g(1)] w(1) g(3) rig ok(1)])
        (use g(4) u(3,4) w(2) grown_lookup [OF u(1)] in \<open>auto intro: Q\<close>)
  qed
  have set: "ok \<Longrightarrow> names_radio t ?label"
      "ok \<Longrightarrow> (\<exists>v. string_of t ?label ''hamlib.serial.port'' = Some v) \<or> config_lookup t ?label ''hamlib.serial.port'' = Some None"
    using ok(2) grown_lookup [OF t(1)] grown_string [OF t(1)] by (simp_all add: radio_settings_def names_radio_def)
  show ?thesis
    unfolding open_radio_def upd_tcontext_def
    apply (rule wp_bind, rule wp_module_label)
        apply (simp_all only: present simp_thms)
    apply (intro wp_bind wp_rgeti wp_return wp_rig [OF t(2) rig_apartD(1) [OF rig]] wp_then wp_change wp_log
        wp_only_if wp_give_up wp_lookup)
            apply (simp_all add: grownD [OF t(1)] t set willing_rigD(2) [OF ok(1)] del: neq0_conv)
      apply (simp_all add: willing_rigD(1) [OF ok(1)] set)
    apply (erule port)
    using t c apply (simp_all add: wired_rig wired_def [of uv n t])
    apply (rule grown_upd(4), simp_all)
    done
qed

lemma instance_is_wired:
  fixes t :: "('w, 'z) test_state_scheme"
  assumes "instance_started uv n t d" "c \<in> since n t"
  defines "u \<equiv> t\<lparr>tcontexts := (tcontexts t)(c := (tcontexts t c)\<lparr>tc_vserial := d\<rparr>),
    driver_cbs := (driver_cbs t)(dr_cb (drivers t d) := (driver_cbs t (dr_cb (drivers t d)))\<lparr>cb_fc_changed := Some Update_flow_control\<rparr>),
    drivers := (drivers t)(d := (drivers t d)\<lparr>dr_user := c\<rparr>)\<rparr>"
  shows "wired uv n u c d" "port_handle u d = port_handle t d"
  using assms(1,2) by (simp_all add: wired_defs u_def)

text \<open>The section says all that the start needs.\<close>

definition complete_section :: "('w, 'cb, 'z) config_state_scheme \<Rightarrow> string \<Rightarrow> bool" where
  "complete_section s sec \<longleftrightarrow> names_port s sec \<and> radio_settings s sec"

lemma complete_cong:
  "config_lookup t = config_lookup s \<Longrightarrow> complete_section t sec = complete_section s sec"
  by (simp add: complete_section_def names_port_def radio_settings_def names_radio_def string_of_def)

lemma wp_test_start:
  fixes s :: "('w, 'z) test_state_scheme"
  assumes s: "steady s" "config_loaded s" "buf_ok s" "vserial_registered s" and p: "run_once_prepare s < brk s"
    and m: "m \<in> kept s" "mo_label (modules s m) \<in> kept s"
    and uv: "uv_contract uv" "uv_of_pevents uv (PEVENT_READ OR PEVENT_PRIO) \<noteq> 0" and os: "readlink_contract os"
    and rig: "rig_apart uv hl" and ok: "ok \<Longrightarrow> willing_os os" "ok \<Longrightarrow> willing_rig hl"
      "ok \<Longrightarrow> complete_section s (strs s (mo_label (modules s m)))"
    and Q: "\<And>u c d. grown s u \<Longrightarrow> wired uv (brk s) u c d \<Longrightarrow>
      (config_lookup s (strs s (mo_label (modules s m))) ''hamlib.serial.port'' = Some None \<Longrightarrow> stale_buf u) \<Longrightarrow>
      Q () (u\<lparr>modules := (modules s)(m := (modules s m)\<lparr>mo_private := c\<rparr>)\<rparr>)"
  shows "wp (test_lifecycle_start os uv hl m) Q (fatally ok) s"
proof -
  note r = steadyD(1) [OF s(1)]
  let ?u = "fresh_block s\<lparr>tcontexts := (tcontexts (fresh_block s))(brk s := \<lparr>tc_vserial = 0, tc_rig = 0\<rparr>)\<rparr>"
  let ?d = "Suc (brk s)" and ?label = "strs s (mo_label (modules s m))"
  have u: "grown s ?u" "brk s \<in> kept ?u"
    using s(1) by (simp_all add: grown_upd grown_alloc(1) grown_refl)
  have radio: "ok \<Longrightarrow> radio_settings s ?label" and port: "ok \<Longrightarrow> names_port s ?label"
    using ok(3) by (simp_all add: complete_section_def)
  have reg: "vserial_registered ?u"
    using s(4) grownD [OF u(1)] by (auto simp: vserial_registered_def)
  have open_it: "wp (open_radio hl m (brk s)) Q (fatally ok)
      (t\<lparr>tcontexts := (tcontexts t)(brk s := (tcontexts t (brk s))\<lparr>tc_vserial := ?d\<rparr>),
        driver_cbs := (driver_cbs t)(dr_cb (drivers t ?d) :=
          (driver_cbs t (dr_cb (drivers t ?d)))\<lparr>cb_fc_changed := Some Update_flow_control\<rparr>),
        drivers := (drivers t)(?d := (drivers t ?d)\<lparr>dr_user := brk s\<rparr>)\<rparr>)" (is "wp _ _ _ ?t")
    if t: "grown ?u t" "instance_started uv (brk s) t ?d" "config_buf t \<in> live t"
      and cb: "brk s \<le> dr_cb (drivers t ?d)" for t
  proof -
    have c: "brk s \<in> since (brk s) t" using u(2) grownD(5) [OF t(1)] by auto
    note w = instance_is_wired [OF t(2) c]
    have g: "grown s t" by (rule grown_trans [OF u(1) t(1)])
    have gt: "grown s ?t" by (intro grown_upd g) (use cb in simp_all)
    have b: "buf_ok ?t" "config_buf ?t \<noteq> 0" "config_loaded ?t"
      using t(3) live_nonzero [OF grownD(2) [OF g] t(3)] grown_loaded [OF g s(2)] by (simp_all add: buf_ok_def)
    show ?thesis
      by (intro wp_open_radio [OF r m gt w(1) b(3,1,2) le_refl rig ok(2) radio] Q) (assumption | erule ssubst)+
  qed
  have present: "m \<noteq> 0" "m \<in> live s" "mo_label (modules s m) \<noteq> 0" "mo_label (modules s m) \<in> live s"
    using keptD [OF r m(1)] keptD [OF r m(2)] by simp_all
  show ?thesis
    unfolding test_start_split upd_tcontext_def
    apply (intro wp_bind wp_then wp_block wp_change wp_module_label wp_driver_create [OF _ _ _ reg _ _ uv os, where n = "brk s"])
    apply (simp_all add: r present s p ok port)
    using p apply simp
    subgoal premises prems for t
    proof -
      have l: "?d \<in> live t" "dr_cb (drivers t ?d) \<in> live t" "dr_cb (drivers t ?d) \<noteq> 0"
        using prems(2) keptD(2) [OF grownD(2) [OF prems(1)]] prems(3)
        by (simp_all add: instance_started_def port_started_def Let_def kept_def)
      show ?thesis
        apply (intro wp_return wp_then wp_there wp_bind wp_value wp_change)
            apply (simp_all (no_asm) add: l del: fun_upd_apply)
        using l(3) apply simp
        apply (rule open_it)
        using prems apply simp_all
        done
    qed
    done
qed

section \<open>A module of the program\<close>

definition test_registered :: "('w, 'z) test_state_scheme \<Rightarrow> bool" where
  "test_registered s \<longleftrightarrow> loaded_modules s \<in> kept s \<and>
     lm_info (loaded_nodes s (loaded_modules s)) = test_module_info"

lemma wp_get_module:
  fixes s :: "('w, 'z) test_state_scheme"
  assumes "ready s" "test_registered s" "Q (Some test_module_info) s"
  shows "wp (module_get_info ''test'') Q E s"
proof -
  have l: "loaded_modules s \<in> live s" "loaded_modules s \<noteq> 0"
    using assms(2) keptD [OF assms(1)] by (simp_all add: test_registered_def)
  have n: "mi_name test_module_info = ''test''" by (simp add: test_module_info_def)
  show ?thesis
    using module_get_info_eq [OF assms(1) l(1), of "''test''"] l(2) n assms(2,3)
    by (simp add: wp_def test_registered_def)
qed

lemma test_calls:
  "module_start_call os uv hl (ml_start (mi_lifecycle test_module_info)) = test_lifecycle_start os uv hl"
  "ml_stop (mi_lifecycle test_module_info) = Test_lifecycle_stop"
  by (simp_all add: fun_eq_iff test_module_info_def module_start_call_def)

lemma wp_strdup:
  assumes "ready s" "Q (brk s) (fresh_block s\<lparr>strs := (strs s)(brk s := x)\<rparr>)"
  shows "wp (strdup_ad x) Q E s"
  using assms by (simp add: wp_def fresh_block_def)

text \<open>The module at \<open>m\<close> with its label behind it and its node behind that, in front of the list.\<close>

definition with_module :: "nat \<Rightarrow> module_info \<Rightarrow> ('w, 'z) test_state_scheme \<Rightarrow> ('w, 'z) test_state_scheme" where
  "with_module m info s = s\<lparr>
     modules := (modules s)(m := \<lparr>mo_label = Suc m, mo_private = 0, mo_info = info\<rparr>),
     running_nodes := (running_nodes s)(Suc (Suc m) := \<lparr>rm_module = m, rm_next = running_modules s\<rparr>),
     running_modules := Suc (Suc m)\<rparr>"

lemma before_log [simp]:
  fixes s t :: "('w, 'z) test_state_scheme"
  shows "with_module k i (log_upd src l f p n m s) = log_upd src l f p n m (with_module k i s)"
    "grown (log_upd src l f p n m s) t = grown s t" "same_buf (log_upd src l f p n m s) t = same_buf s t"
  by (simp_all add: with_module_def log_upd_def grown_def same_buf_def kept_def)

definition made_module :: "string \<Rightarrow> string \<Rightarrow> module_info \<Rightarrow> string \<Rightarrow> ('w, 'z) test_state_scheme \<Rightarrow> ('w, 'z) test_state_scheme" where
  "made_module k l info sec s = log_msg log_level_debug l (fresh_block (fresh_block (fresh_block (log_msg log_level_verbose k s))
      \<lparr>strs := (strs s)(Suc (brk s) := sec),
       modules := (modules s)(brk s := \<lparr>mo_label = Suc (brk s), mo_private = 0, mo_info = info\<rparr>)\<rparr>)
      \<lparr>running_nodes := (running_nodes s)(Suc (Suc (brk s)) := \<lparr>rm_module = brk s, rm_next = running_modules s\<rparr>),
       running_modules := Suc (Suc (brk s))\<rparr>)"

lemma module_is_made:
  fixes s :: "('w, 'z) test_state_scheme"
  assumes s: "steady s"
  shows "grown (with_module (brk s) info s) (made_module k l info sec s)"
    "{brk s, Suc (brk s), Suc (Suc (brk s))} \<subseteq> kept (made_module k l info sec s)"
    "strs (made_module k l info sec s) (Suc (brk s)) = sec" "same_buf s (made_module k l info sec s)"
proof -
  let ?t = "made_module k l info sec s"
  note d = steadyD(3) [OF s]
  have "steady ?t"
    using s unfolding made_module_def steady_def
    by (auto simp: kept_def fresh_block_def ready_def mem_ok_def heap_inv_def simp del: readyD)
  then show "grown (with_module (brk s) info s) ?t"
    using d unfolding grown_def made_module_def by (auto simp: kept_def fresh_block_def with_module_def same_queue_def)
  show "{brk s, Suc (brk s), Suc (Suc (brk s))} \<subseteq> kept ?t" "strs ?t (Suc (brk s)) = sec" "same_buf s ?t"
    using d by (auto simp: made_module_def kept_def fresh_block_def same_buf_def)
qed

lemma wp_module_create:
  fixes s :: "('w, 'z) test_state_scheme"
  assumes s: "steady s"
    and Q: "\<And>t. grown (with_module (brk s) info s) t \<Longrightarrow> {brk s, Suc (brk s), Suc (Suc (brk s))} \<subseteq> kept t \<Longrightarrow>
      strs t (Suc (brk s)) = sec \<Longrightarrow> same_buf s t \<Longrightarrow> Q (brk s) t"
  shows "wp (module_create info sec) Q (fatally ok) s"
proof -
  have made: "Q (brk s) (made_module k l info sec s)" for k l
    by (intro Q module_is_made [OF s])
  show ?thesis
    unfolding module_create_def
    apply (intro wp_bind wp_then wp_log wp_block wp_strdup wp_change wp_value wp_branch wp_return)
    using s apply (simp_all add: steadyD)
     apply (use made in \<open>simp add: made_module_def\<close>)+
    done
qed

text \<open>The newest module is a test module with a running port, all of whose blocks are not older
  than \<open>n\<close>.\<close>

definition test_up :: "'w libuv \<Rightarrow> nat \<Rightarrow> ('w, 'z) test_state_scheme \<Rightarrow> nat \<Rightarrow> bool" where
  "test_up uv n s m \<longleftrightarrow>
     (let c = mo_private (modules s m) in
      {running_modules s, m, mo_label (modules s m)} \<subseteq> since n s \<and>
      rm_module (running_nodes s (running_modules s)) = m \<and> mo_info (modules s m) = test_module_info \<and>
      wired uv n s c (tc_vserial (tcontexts s c)))"

lemma wp_module_start_test:
  fixes s :: "('w, 'z) test_state_scheme"
  assumes s: "steady s" "config_loaded s" "buf_ok s" "vserial_registered s" "test_registered s"
    and p: "run_once_prepare s < brk s"
    and uv: "uv_contract uv" "uv_of_pevents uv (PEVENT_READ OR PEVENT_PRIO) \<noteq> 0" and os: "readlink_contract os"
    and rig: "rig_apart uv hl" and ok: "ok \<Longrightarrow> willing_os os" "ok \<Longrightarrow> willing_rig hl"
      "ok \<Longrightarrow> complete_section s sec"
    and Q: "\<And>m t. steady t \<Longrightarrow> test_up uv (brk s) t m \<Longrightarrow> kept s \<subseteq> kept t \<Longrightarrow> config_loaded t \<Longrightarrow>
      thread_loop t = thread_loop s \<Longrightarrow> int_signal t = int_signal s \<Longrightarrow> same_queue s t \<Longrightarrow>
      (config_lookup s sec ''hamlib.serial.port'' = Some None \<Longrightarrow> stale_buf t) \<Longrightarrow> Q m t"
  shows "wp (module_start (module_start_call os uv hl) ''test'' sec) Q (fatally ok) s"
proof -
  note r = steadyD(1) [OF s(1)]
  let ?m = "brk s"
  have start: "wp (test_lifecycle_start os uv hl ?m) (\<lambda>_ u. Q ?m u) (fatally ok) t"
    if t: "grown (with_module ?m test_module_info s) t" "{?m, Suc ?m, Suc (Suc ?m)} \<subseteq> kept t"
      "strs t (Suc ?m) = sec" "same_buf s t" for t
  proof -
    have mt: "modules t ?m = \<lparr>mo_label = Suc ?m, mo_private = 0, mo_info = test_module_info\<rparr>"
      using grownD(15) [OF t(1)] by (simp add: with_module_def)
    have k: "kept s \<subseteq> kept t" using grownD(5) [OF t(1)] by (simp add: with_module_def kept_def)
    have queue: "same_queue s t"
      using grown_queue [OF t(1)] by (simp add: with_module_def same_queue_def)
    have same: "brk s \<le> brk t" "config_buf t = config_buf s" "toml_store t = toml_store s" "toml_root t = toml_root s"
      "loaded_drivers t = loaded_drivers s" "driver_nodes t = driver_nodes s" "thread_loop t = thread_loop s"
      "int_signal t = int_signal s" "run_once_prepare t = run_once_prepare s"
      "running_modules t = Suc (Suc ?m)" "rm_module (running_nodes t (Suc (Suc ?m))) = ?m"
      using grownD [OF t(1)] t(4) by (simp_all add: with_module_def same_buf_def)
    have st: "steady t" "config_loaded t" "buf_ok t" "vserial_registered t" "run_once_prepare t < brk t"
      using grownD(1,2) [OF t(1)] s p k t(4) same
      by (auto simp: config_loaded_def buf_ok_def vserial_registered_def same_buf_def)
    have look: "config_lookup t = config_lookup s"
      by (simp add: fun_eq_iff config_lookup_def section_table_def same)
    show ?thesis
    proof (rule wp_test_start [OF st _ _ uv os rig ok(1,2)])
      show "?m \<in> kept t" "mo_label (modules t ?m) \<in> kept t" using t(2) mt by simp_all
      show "complete_section t (strs t (mo_label (modules t ?m)))" if ok
        using ok(3) [OF that] mt t(3) complete_cong [OF look] by simp
      fix u c d
      assume u: "grown t u" "wired uv (brk t) u c d"
        "config_lookup t (strs t (mo_label (modules t ?m))) ''hamlib.serial.port'' = Some None \<Longrightarrow> stale_buf u"
      let ?u = "u\<lparr>modules := (modules t)(?m := (modules t ?m)\<lparr>mo_private := c\<rparr>)\<rparr>"
      have "test_up uv (brk s) ?u ?m"
        using u(2) grownD(5,10,11) [OF u(1)] t(2) mt same(1,10,11) by (auto simp: test_up_def wired_defs)
      then show "Q ?m ?u"
        using grownD [OF u(1)] k st(2) u(3) mt t(3) look same(7,8) same_queue_trans [OF queue grown_queue [OF u(1)]]
        by (intro Q) (auto simp: config_loaded_def stale_buf_def grown_loaded)
    qed
  qed
  have present: "?m \<in> live t" "?m \<noteq> 0" "mo_info (modules t ?m) = test_module_info"
    if "grown (with_module ?m test_module_info s) t" "?m \<in> kept t" for t
    using that(2) steadyD(6) [OF s(1)] grownD(15) [OF that(1)] by (simp_all add: with_module_def kept_def)
  show ?thesis
    unfolding module_start_def
    apply (intro wp_bind wp_get_module)
      apply (rule r)
     apply (use s(5) in simp)
    unfolding option.case
    apply (intro wp_bind wp_then wp_log wp_module_create wp_only_if wp_give_up wp_there wp_value)
    using s apply (simp_all add: steadyD present)
    apply (simp only: test_calls)
    apply (rule wp_mono [OF start])
    apply (simp_all add: wp_return)
    done
qed

section \<open>What the start leaves behind\<close>

text \<open>The context of the port that a module uses.\<close>

definition module_port :: "('w, 'z) test_state_scheme \<Rightarrow> nat \<Rightarrow> nat" where
  "module_port s m = dr_private (drivers s (tc_vserial (tcontexts s (mo_private (modules s m)))))"

lemma started_port_ok:
  assumes "port_started uv n s d" "ready s" "uv_contract uv"
  shows "poll_ok uv s (vc_poll (vcontexts s (dr_private (drivers s d))))"
    "poll_active uv s (vc_poll (vcontexts s (dr_private (drivers s d))))"
  using assms by (auto simp: port_started_def Let_def poll_ok_def poll_active_def uv_busy_def kept_def)

lemma test_up_running:
  assumes t: "test_up uv n s m" and r: "ready s" "uv_contract uv"
  shows "test_running uv s m" "newest s m" "n \<le> module_handle s m" "port_ok s (module_port s m)"
proof -
  have p: "port_started uv n s (tc_vserial (tcontexts s (mo_private (modules s m))))"
    using t by (simp add: test_up_def wired_def instance_started_def Let_def)
  show "test_running uv s m"
    using t started_port_ok [OF p r] vserial_calls(2) test_calls(2)
    by (auto simp: test_running_def port_running_def stoppable_def test_up_def wired_defs kept_def)
  show "newest s m" "n \<le> module_handle s m" "port_ok s (module_port s m)"
    using t r(1) by (auto simp: newest_def module_handle_def port_ok_def module_port_def test_up_def wired_defs kept_def)
qed

lemma test_up_free:
  fixes s :: "('w, 'z) test_state_scheme"
  assumes "test_up uv n s m" "x < n"
  shows "test_up uv n (s\<lparr>live := live s - {x}\<rparr>) m"
  using assms by (auto simp: test_up_def wired_defs kept_def)

lemma ready_free:
  fixes s :: "('w, 'z) test_state_scheme"
  assumes "ready s"
  shows "ready (s\<lparr>live := live s - {x}\<rparr>)"
  using assms by (auto simp: ready_def heap_inv_def mem_ok_def simp del: readyD)

lemma test_up_older: "test_up uv n s m \<Longrightarrow> k \<le> n \<Longrightarrow> test_up uv k s m"
  by (auto simp: test_up_def wired_defs)

lemma port_events_wanted:
  assumes "uv_masks_ok uv"
  shows "uv_of_pevents uv (PEVENT_READ OR PEVENT_PRIO) \<noteq> 0"
proof -
  have "bit (PEVENT_READ OR PEVENT_PRIO) 1" by (simp add: pevent_defs bit_simps)
  then show ?thesis using uv_of_pevents_flags(1) [OF assms, of "PEVENT_READ OR PEVENT_PRIO"] by auto
qed

section \<open>The job that starts a section\<close>

text \<open>A program that has loaded its configuration and has not failed: what holds when the run loop
  comes to the first of the jobs that \<open>main\<close> has scheduled.\<close>

definition ready_to_start :: "'w app_state \<Rightarrow> bool" where
  "ready_to_start s \<longleftrightarrow> steady s \<and> config_loaded s \<and> buf_ok s \<and> vserial_registered s \<and> test_registered s \<and>
     run_once_prepare s < brk s \<and> thread_loop s \<noteq> 0 \<and> int_signal s < brk s"

text \<open>What the program relies on outside: the documented behaviour of libuv and readlink, the flags
  of poll events, and that hamlib leaves the handles of the loop alone.\<close>

definition outside_ok :: "'w environment \<Rightarrow> bool" where
  "outside_ok env \<longleftrightarrow> uv_contract (e_uv env) \<and> uv_masks_ok (e_uv env) \<and> readlink_contract (e_os env) \<and>
     rig_apart (e_uv env) (e_hl env)"

text \<open>Every call that a start makes outside succeeds.\<close>

definition willing :: "'w environment \<Rightarrow> bool" where
  "willing env \<longleftrightarrow> willing_os (e_os env) \<and> willing_rig (e_hl env)"

text \<open>The section asks for the test module.\<close>

definition asks_for_test :: "('w, 'cb, 'z) config_state_scheme \<Rightarrow> string \<Rightarrow> bool" where
  "asks_for_test s sec \<longleftrightarrow> string_of s sec ''module.name'' = Some ''test''"

lemma wp_string_at:
  assumes "ready s" "p \<in> live s" "Q (strs s p) s"
  shows "wp (string_at p) Q E s"
  unfolding string_at_def using assms live_nonzero [OF assms(1,2)] by (intro start_rules) simp_all

lemma wp_release:
  assumes "p \<noteq> 0" "p \<in> live s" "Q () (s\<lparr>live := live s - {p}\<rparr>)"
  shows "wp (c_free p) Q E s"
  using assms by (auto simp: wp_def c_free_def)

lemma wp_start_handler:
  fixes s :: "'w app_state"
  assumes s: "ready_to_start s" and env: "outside_ok env" and ctx: "ctx \<in> kept s" "asks_for_test s (strs s ctx)"
    and ok: "ok \<Longrightarrow> willing env" "ok \<Longrightarrow> complete_section s (strs s ctx)"
    and Q: "\<And>m t. ready t \<Longrightarrow> test_up (e_uv env) (brk s) t m \<Longrightarrow> kept s - {ctx} \<subseteq> kept t \<Longrightarrow> config_loaded t \<Longrightarrow>
      thread_loop t = thread_loop s \<Longrightarrow> int_signal t = int_signal s \<Longrightarrow> same_queue s t \<Longrightarrow>
      (config_lookup s (strs s ctx) ''hamlib.serial.port'' = Some None \<Longrightarrow> stale_buf t) \<Longrightarrow> Q () t"
  shows "wp (start_module_handler env True ctx) Q (fatally ok) s"
proof -
  let ?sec = "strs s ctx"
  have st: "steady s" "config_loaded s" "buf_ok s" "vserial_registered s" "test_registered s" "run_once_prepare s < brk s"
    using s by (simp_all add: ready_to_start_def)
  have os: "uv_contract (e_uv env)" "uv_of_pevents (e_uv env) (PEVENT_READ OR PEVENT_PRIO) \<noteq> 0"
    "readlink_contract (e_os env)" "rig_apart (e_uv env) (e_hl env)"
    using env port_events_wanted by (auto simp: outside_ok_def)
  note r = steadyD(1) [OF st(1)]
  have start: "wp (module_start (module_start_call (e_os env) (e_uv env) (e_hl env)) ''test'' ?sec)
      (\<lambda>_. wp (c_free ctx) Q (fatally ok)) (fatally ok) t"
    if t: "grown s t" "config_buf t = brk s" "brk s \<in> live t" for t :: "'w app_state"
  proof (rule wp_module_start_test [OF grownD(1) [OF t(1)] _ _ _ _ _ os])
    show "willing_os (e_os env)" "willing_rig (e_hl env)" if ok using ok(1) [OF that] by (simp_all add: willing_def)
    show "complete_section t ?sec" if ok using ok(2) [OF that] complete_cong [OF grown_lookup [OF t(1)]] by simp
    show "config_loaded t" "buf_ok t" "vserial_registered t" "test_registered t" "run_once_prepare t < brk t"
      using grown_loaded [OF t(1) st(2)] t(2,3) st(4-6) grownD [OF t(1)]
      by (auto simp: buf_ok_def vserial_registered_def test_registered_def)
    fix m and u :: "'w app_state"
    assume u: "steady u" "test_up (e_uv env) (brk t) u m" "kept t \<subseteq> kept u" "config_loaded u"
      "thread_loop u = thread_loop t" "int_signal u = int_signal t" "same_queue t u"
      "config_lookup t ?sec ''hamlib.serial.port'' = Some None \<Longrightarrow> stale_buf u"
    let ?u = "u\<lparr>live := live u - {ctx}\<rparr>"
    have k: "ctx \<in> kept u" "kept s \<subseteq> kept u" using ctx(1) grownD(5) [OF t(1)] u(3) by blast+
    have le: "brk s \<le> brk t" "ctx < brk s" using grownD(4) [OF t(1)] keptD(4) [OF r ctx(1)] by auto
    have "test_up (e_uv env) (brk s) ?u m"
      by (rule test_up_free [OF test_up_older [OF u(2) le(1)] le(2)])
    moreover have "ready ?u" "config_loaded ?u"
      using ready_free [OF steadyD(1) [OF u(1)]] u(4) by (simp_all add: config_loaded_def)
    ultimately have "Q () ?u"
      using k(2) u(5,6,8) grownD(12,13) [OF t(1)] grown_lookup [OF t(1)] same_queue_trans [OF grown_queue [OF t(1)] u(7)]
      by (intro Q) (auto simp: stale_buf_def kept_def)
    then show "wp (c_free ctx) Q (fatally ok) u"
      using k(1) keptD(2) [OF r ctx(1)] by (intro wp_release) (simp_all add: kept_def)
  qed
  show ?thesis
    unfolding start_module_handler_def
    apply (intro wp_then wp_only_if wp_bind wp_string_at wp_rgets wp_log)
               apply (use r ctx keptD [OF r ctx(1)] st in \<open>simp_all add: asks_for_test_def\<close>)
       apply (simp_all add: grownD)
    apply (rule wp_mono [OF start])
    apply (simp_all add: wp_return)
    done
qed
lemma stale_start:
  fixes s :: "'w app_state"
  assumes "ready s" "config_loaded s" "stale_buf s" "ctx \<in> live s"
  shows "fst (start_module_handler env True ctx s) = Inl (Undefined DoubleFree)"
proof -
  have "configfile_gets_section_key sec key s = (Inl (Undefined DoubleFree), s)" for sec key
    using assms(2,3) by (simp add: configfile_gets_section_key_def c_free_def stale_buf_def)
  then have "fst (configfile_rgets_section_key sec key s) = Inl (Undefined DoubleFree)" for sec key
    by (simp add: rgets_eq [OF assms(2)])
  then obtain t where "configfile_rgets_section_key (strs s ctx) ''module.name'' s = (Inl (Undefined DoubleFree), t)"
    by (metis prod.collapse)
  then show ?thesis
    using assms(4) live_nonzero [OF assms(1,4)] by (simp add: start_module_handler_def)
qed

section \<open>Properties\<close>

text \<open>An outside world in which every call succeeds.\<close>

definition willing_env :: "unit table_world environment" where
  "willing_env = idle_env\<lparr>
     e_os := idle_posix\<lparr>os_fcntl_getfl := (\<lambda>fd w. 0), os_fcntl_setfl := (\<lambda>fd f w. (0, w)),
       os_openpty := (\<lambda>w. ((0, 3, 4, ''/dev/pts/3''), w)), os_ioctl_tiocpkt := (\<lambda>fd v w. (0, w)),
       os_tcgetattr := (\<lambda>fd w. (0, \<lparr>c_lflag = 0\<rparr>)), os_tcsetattr := (\<lambda>fd t w. (0, w)),
       os_ioctl_tiocmget := (\<lambda>fd w. (0, 0)), os_lstat := (\<lambda>p w. (-1, ENOENT, 0)),
       os_symlink := (\<lambda>a p w. (0, w))\<rparr>,
     e_hl := idle_hamlib\<lparr>rig_init := (\<lambda>i w. (1, w)), rig_open := (\<lambda>r w. (0, w))\<rparr>\<rparr>"

lemma willing_env_ok: "outside_ok willing_env" "willing willing_env"
proof -
  have e: "e_uv willing_env = table_uv" by (simp add: willing_env_def idle_env_def)
  have "readlink_contract (e_os willing_env)" "rig_apart (e_uv willing_env) (e_hl willing_env)"
    by (simp_all add: willing_env_def idle_env_def idle_posix_def idle_hamlib_def readlink_contract_def
        rig_apart_def uv_same_def)
  then show "outside_ok willing_env"
    using table_uv_contract table_uv_masks by (simp add: outside_ok_def e)
  show "willing willing_env"
    by (simp add: willing_def willing_os_def willing_rig_def willing_env_def idle_env_def idle_posix_def
        idle_hamlib_def RIG_OK_def PATH_MAX_def)
qed

text \<open>A program with two sections to start, whose names are at 2 and at 4.\<close>

definition sample_start :: "unit table_world app_state" where
  "sample_start = (sample_test (no_handles ()))\<lparr>brk := 5, live := {1, 2, 3, 4},
     toml_store := sample_store\<lparr>t_tables := (t_tables sample_store)(3 :=
       (t_tables sample_store 3)\<lparr>tab_kval :=
         [\<lparr>kv_key = ''module.name'', kv_val = Some (quote_basic ''test'')\<rparr>,
          \<lparr>kv_key = ''vserial.port'', kv_val = Some (quote_basic ''/tmp/p'')\<rparr>,
          \<lparr>kv_key = ''hamlib.rigid'', kv_val = Some ''1''\<rparr>]\<rparr>)\<rparr>,
     toml_root := 1, strs := (\<lambda>_. ''sec''), loaded_modules := 3, loaded_drivers := 3, thread_loop := 1\<rparr>"

lemmas sample_start_defs = sample_start_def sample_test_defs sample_store_def

lemma sample_start_lookup:
  "config_lookup sample_start ''sec'' ''module.name'' = Some (Some (quote_basic ''test''))"
  "config_lookup sample_start ''sec'' ''vserial.port'' = Some (Some (quote_basic ''/tmp/p''))"
  "config_lookup sample_start ''sec'' ''hamlib.rigid'' = Some (Some ''1'')"
  "config_lookup sample_start ''sec'' ''hamlib.serial.port'' = Some None"
  by (simp_all add: config_lookup_def section_table_def first_ptr_def sample_start_defs)

lemma sample_start_state:
  "ready_to_start sample_start" "{2, 4} \<subseteq> kept sample_start" "strs sample_start p = ''sec''"
proof -
  have r: "ready sample_start"
    by (simp add: sample_start_defs ready_def mem_ok_def heap_inv_def del: readyD)
  then have "config_loaded sample_start" "buf_ok sample_start"
    by (simp_all add: config_loaded_def buf_ok_def) (simp_all add: table_ok_def sample_start_defs)
  moreover have "steady sample_start" "vserial_registered sample_start" "test_registered sample_start"
    using r by (simp_all add: steady_def vserial_registered_def test_registered_def)
      (simp_all add: kept_def sample_start_defs)
  ultimately show "ready_to_start sample_start"
    by (simp add: ready_to_start_def) (simp add: sample_start_defs)
  show "{2, 4} \<subseteq> kept sample_start" "strs sample_start p = ''sec''"
    by (simp_all add: kept_def sample_start_defs)
qed

lemma sample_start_section: "asks_for_test sample_start ''sec''" "complete_section sample_start ''sec''"
proof -
  have "toml_rtos (quote_basic ''test'') = Some (Norm_ok ''test'')"
    "toml_rtos (quote_basic ''/tmp/p'') = Some (Norm_ok ''/tmp/p'')"
    using toml_rtos_basic [of "''test''"] toml_rtos_basic [of "''/tmp/p''"] by (simp_all add: cstr_def)
  then have s: "string_of sample_start ''sec'' ''module.name'' = Some ''test''"
    "string_of sample_start ''sec'' ''vserial.port'' = Some ''/tmp/p''"
    by (simp_all add: string_of_def sample_start_lookup)
  have "\<exists>i. toml_rtoi (Some ''1'') = Some i"
    using toml_rtoi_decimal [of "''''" "''1''"]
    by (simp add: is_digit_def decimal_def signed_def LLONG_MIN_def LLONG_MAX_def)
  with s show "asks_for_test sample_start ''sec''" "complete_section sample_start ''sec''"
    by (simp_all add: asks_for_test_def complete_section_def names_port_def radio_settings_def names_radio_def
        sample_start_lookup PATH_MAX_def)
qed



text \<open>C7. A program that has started a test module cannot end well: whatever the outside world does,
  the start and then the cleanup of the run loop end the program with the fatal status, at the
  latest where the port that the start has opened is closed.\<close>

theorem start_then_cleanup_fatal:
  fixes s :: "'w app_state"
  assumes "ready_to_start s" "outside_ok env" "ctx \<in> kept s" "asks_for_test s (strs s ctx)" "0 < fuel"
  shows "fst (seqE (start_module_handler env True ctx) (runloop_cleanup env fuel) s) = Inl (Exited exit_fatal)"
proof -
  have uv: "uv_contract (e_uv env)" using assms(2) by (simp add: outside_ok_def)
  have l: "thread_loop s \<noteq> 0" "int_signal s < brk s" using assms(1) by (simp_all add: ready_to_start_def)
  have "wp (start_module_handler env True ctx)
      (\<lambda>_ t. fst (runloop_cleanup env fuel t) = Inl (Exited exit_fatal)) (fatally False) s"
    using cleanup_newest_fatal [OF test_up_running(1,2) assms(5)] test_up_running(3) uv l
    by (intro wp_start_handler [OF assms(1-4)]) fastforce+
  then show ?thesis
    by (cases "start_module_handler env True ctx s") (auto simp: wp_def fatally_def split: sum.splits)
qed

theorem start_then_cleanup_fatal_witness:
  "fst (seqE (start_module_handler willing_env True 2) (runloop_cleanup willing_env 9) sample_start) = Inl (Exited exit_fatal)"
  using start_then_cleanup_fatal [OF sample_start_state(1) willing_env_ok(1), of 2 9] sample_start_state(2)
    sample_start_section by (simp add: sample_start_state(3))

text \<open>C8. Two radios without a serial port of their own cannot be used: when a complete section has
  no \<open>hamlib.serial.port\<close>, its start returns, and the start of the next section, whichever it
  is, frees the buffer of the lookups a second time.\<close>

theorem second_start_double_free:
  fixes s :: "'w app_state"
  assumes "ready_to_start s" "outside_ok env" "ctx \<in> kept s" "asks_for_test s (strs s ctx)"
    and "willing env" "complete_section s (strs s ctx)"
    and "config_lookup s (strs s ctx) ''hamlib.serial.port'' = Some None" "ctx' \<in> kept s" "ctx' \<noteq> ctx"
  shows "\<exists>t. start_module_handler env True ctx s = (Inr (), t) \<and>
    fst (start_module_handler env True ctx' t) = Inl (Undefined DoubleFree)"
proof -
  have "wp (start_module_handler env True ctx)
      (\<lambda>_ t. fst (start_module_handler env True ctx' t) = Inl (Undefined DoubleFree)) (fatally True) s"
    using assms(5-) by (intro wp_start_handler [OF assms(1-4)] stale_start) (auto simp: kept_def)
  then show ?thesis
    by (cases "start_module_handler env True ctx s") (auto simp: wp_def fatally_def split: sum.splits)
qed

theorem second_start_double_free_witness:
  "\<exists>t. start_module_handler willing_env True 2 sample_start = (Inr (), t) \<and>
    fst (start_module_handler willing_env True 4 t) = Inl (Undefined DoubleFree)"
  using second_start_double_free [OF sample_start_state(1) willing_env_ok(1), of 2 4] sample_start_state(2)
    sample_start_section willing_env_ok(2) by (simp add: sample_start_state(3) sample_start_lookup)

end
