(* ===== verification/Spec2Isabelle.thy ===== *)
theory Spec2Isabelle
  imports Delivery Vserial_Link Config_Read Start_Test
begin

text \<open>
  A verification development for righack, a C program that connects ham radio software to
  radios: it creates virtual serial ports (pseudoterminals), watches their modem lines and keys
  a radio when the software at the other end raises RTS.

  \<^bold>\<open>The program.\<close> \<^verbatim>\<open>src/main.c\<close> sets up the logger, the allocator wrappers, the run loop and
  the two registries, loads a TOML file (\<^verbatim>\<open>src/configfile.c\<close> over \<^verbatim>\<open>src/external/toml.c\<close>) and
  schedules for every section a job that starts a module. The jobs run inside the event loop
  (\<^verbatim>\<open>src/runloop.c\<close> over libuv). The one module (\<^verbatim>\<open>src/modules/test.c\<close>) creates an instance of
  the one driver (\<^verbatim>\<open>src/drivers/vserial.c\<close>) through the registry of drivers
  (\<^verbatim>\<open>src/driver.c\<close>); the driver opens a pseudoterminal, watches it with a poll handle of the
  run loop, and calls the module back when the modem lines change; the module sets the
  push-to-talk line of the radio through hamlib. Every component logs (\<^verbatim>\<open>src/log.c\<close>), allocates
  through \<^verbatim>\<open>src/external/autodie.c\<close>, and gives up through \<open>util_fatal\<close> (\<^verbatim>\<open>src/util.c\<close>,
  \<^verbatim>\<open>src/guts.c\<close>).

  \<^bold>\<open>How C is modelled.\<close> A function of the program is a function of the state that either
  returns a value or halts (\<open>Prelude\<close>: the type \<open>prog\<close>, with \<open>halt\<close> for the ways not to
  return: \<open>exit\<close>, \<open>abort\<close>, undefined behaviour, a loop that is known never to end, a jump of
  \<open>longjmp\<close>, and the end of a bound that the model itself needs). The state is one record that
  each component extends by its own static variables and typed heap (\<open>process\<close>, \<open>autodie\<close>,
  \<open>log_state\<close>, \<open>world_state\<close>, \<open>runloop_state\<close>, \<open>config_state\<close>, \<open>driver_state\<close>,
  \<open>module_state\<close>, \<open>vserial_state\<close>, \<open>test_state\<close>). A pointer is an address, 0 is null;
  reading through a pointer first checks that its block is allocated, and freeing twice is a
  fault. Addresses are never used again, so a dangling pointer stays visible. A function
  pointer is a name from a datatype; the code behind the names is an argument of the
  operations that call it, and is tied together in \<open>App\<close>. The operating system, libuv, hamlib
  and the C library's file functions are parameters (records of functions over an abstract
  outside state); what a theorem relies on is one of the named hypotheses \<open>uv_contract\<close>,
  \<open>rig_contract\<close>, \<open>rig_works\<close> and \<open>fs_contract\<close>, and each has an instance.

  \<^bold>\<open>The theories and the code.\<close>

  \<^item> \<open>Prelude\<close>: the monad, its laws, decimal printing. \<open>Wp\<close>: weakest preconditions for it.
    \<open>Process\<close>: allocator, text buffers and output streams.
  \<^item> \<open>Autodie\<close>: \<^verbatim>\<open>external/autodie.c\<close>. \<open>Log\<close>: \<^verbatim>\<open>log.c\<close> and \<^verbatim>\<open>guts.c\<close>. \<open>Fatal\<close>: the cycle
    from \<open>util_fatal\<close> through the logger and the allocator to the handler of \<^verbatim>\<open>main.c\<close> and back,
    cut by the reentrance flag of autodie. \<open>Util\<close>: the rest of \<^verbatim>\<open>util.c\<close> and the system calls.
  \<^item> \<open>Runloop\<close>: \<^verbatim>\<open>runloop.c\<close>. \<open>Runloop_Queue\<close>: the deferred jobs as a queue, with the locale
    \<open>job_bodies\<close> for what the loop asks of the code of a job. \<open>Runloop_Handles\<close>: timers and
    poll handles, with the locale \<open>loop_handle\<close> for what the two kinds share.
  \<^item> \<open>Utf8\<close>, \<open>Toml_String\<close>, \<open>Toml_Number\<close>, \<open>Toml_Value\<close>: the readers of values of
    \<^verbatim>\<open>external/toml.c\<close>. \<open>Toml_Table\<close>: its tables and arrays and their accessors. \<open>Toml_Lex\<close>:
    its lexer. \<open>Toml_Parse\<close>: its parser, \<open>toml_parse\<close>, \<open>toml_parse_file\<close> and \<open>toml_free\<close>.
  \<^item> \<open>Toml_Heap\<close>: the invariant that tables and arrays form a tree. \<open>Toml_Free\<close>: releasing
    the tree. \<open>Toml_Safe\<close>: every function of the parser keeps the invariant. \<open>Toml_Ends\<close>: what
    follows for \<open>toml_parse\<close>.
  \<^item> \<open>Toml_Text\<close>: configurations written as lines (sections, settings, comments and blank
    lines) and what the lexer makes of each. \<open>Toml_Read\<close>: a reference reading of such lines as
    lists of settings, and that \<open>toml_parse\<close> builds exactly what it says.
  \<^item> \<open>Configfile\<close>: \<^verbatim>\<open>configfile.c\<close>. \<open>Config_Load\<close>: loading a file, over the parser.
    \<open>Config_Read\<close>: from the lines in the file to the value that a typed lookup returns.
  \<^item> \<open>Registry\<close>: the locale \<open>stuck_search\<close> of the searches in both registries. \<open>Driver\<close>:
    \<^verbatim>\<open>driver.c\<close> and \<^verbatim>\<open>driver.h\<close>. \<open>Module\<close>: \<^verbatim>\<open>module.c\<close> and \<^verbatim>\<open>module.h\<close>.
  \<^item> \<open>Vserial\<close>: \<^verbatim>\<open>drivers/vserial.c\<close>. \<open>Vserial_Link\<close>: its symbolic link, against a view of
    the file system. \<open>Test_Module\<close>: \<^verbatim>\<open>modules/test.c\<close>. \<open>Modem_Lines\<close>: both together, from a
    change of the modem lines to the radio.
  \<^item> \<open>App\<close>: \<^verbatim>\<open>main.c\<close>, \<open>runloop_run\<close> and \<open>runloop_cleanup\<close>, and the code behind the callbacks.
    \<open>Startup\<close>, \<open>Delivery\<close>, \<open>Shutdown\<close>: the program when it starts, delivers and ends.

  \<^bold>\<open>What the lemmas show.\<close>

  \<^item> The parser: for every text and every behaviour of the allocator it returns a root or an
    error, or is in the loop that skips newlines; it never touches memory that is not there;
    what it builds is a tree that the accessors can walk; when it fails it releases the tree;
    an array or inline table left open at the end of the text makes it loop forever. A
    configuration that loads is therefore one that the lookups may rely on.
  \<^item> The configuration: when the allocator has room, a text written as lines is parsed to what
    the reference reading of the lines says, and refused exactly when a name is used twice in a
    table; a file of such lines is loaded in the same way, however \<open>fread\<close> cuts it up; and the
    text, number or truth value written under a key is the one that the lookup of the key
    returns. The configuration that comes with the program, \<^verbatim>\<open>righack.conf\<close>, is the witness.
  \<^item> The readers of values: integers and strings round trip, the string buffer is never
    overrun, the encoder of UTF-8 is right and the decoder is not.
  \<^item> The run loop: scheduling and running jobs refines a first-in first-out queue, jobs that
    schedule jobs included; the life cycle of timers and poll handles; a started handle cannot
    be destroyed.
  \<^item> The port: the poll callback, through two components and the driver interface, refines a
    small machine on modem lines, and after any number of events push-to-talk follows RTS.
  \<^item> The file system: making the symbolic link never destroys a file.
  \<^item> Start and end: every section of the configuration is scheduled, in order; an unknown
    module makes the search of the registry loop; a program that runs the test module cannot
    shut down without a fatal error.
  \<^item> The bottom: \<open>util_fatal\<close> always exits with the right code, also when the allocator fails
    inside the logger; the wrappers return exactly when the allocator does.

  \<^bold>\<open>Bounds.\<close> Loops over data are recursive over the data where C allows it. The loops that
  follow pointers or the outside world have a number of steps: \<open>run_jobs\<close> one per job,
  \<open>stop_modules\<close> one per module, \<open>count_sections\<close> one per entry, \<open>uv_run\<close> one per callback (the
  program may run for any time, so theorems about it hold for every number), the parser three
  per character of the text and three more (\<open>toml_parse_ends\<close> shows that this is enough),
  \<open>toml_free\<close> two per allocation (enough by \<open>toml_free_tree\<close>), \<open>read_file\<close> one per 1000 bytes.
  Loops that the code can make endless (the searches of the registries and \<open>SKIP_NEWLINES\<close>)
  are partial functions, whose undefined value is the endless loop.

  \<^bold>\<open>Not modelled.\<close> libuv, hamlib and the operating system are parameters. Formatting by
  \<^verbatim>\<open>printf\<close> happens before the model, with the \<open>va_list\<close> of the variadic functions: that they
  pass a list after its \<open>va_end\<close> is a finding, not part of the model. The value of a floating
  point number is not computed, since the program never uses it; its acceptance is. The strings
  inside the parser are values, so leaks of strings are not visible, while every allocation for
  a string can fail. Sizes of a file beyond the range of \<open>int\<close> and nesting beyond the C stack are
  outside the model. The table of stream operations in \<^verbatim>\<open>driver.h\<close>, which nothing fills,
  \<^verbatim>\<open>types.h\<close> (attribute macros), \<^verbatim>\<open>interface.h\<close> (declarations that nothing uses) and the patch
  for the Linux kernel have no definitions.
\<close>

end
